(* ===== verification/Prelude.thy ===== *)
theory Prelude
  imports Main "HOL-Library.Sublist"
begin

text \<open>
  Shared vocabulary of the development: the fixed-width integers, instants and durations of
  Go, string-keyed maps with deletion and sweeping, the shape of HTTP requests and responses,
  and the interface \<open>single_use\<close> that every store of one-time tokens of the daemon (WebSocket
  tickets, step-up grants, device challenges) satisfies. The collections declared here carry
  the component proofs.
\<close>

named_theorems time_simps \<open>clock constants and comparisons of package time\<close>
named_theorems sweep_simps \<open>lookups in swept and pruned maps\<close>


section \<open>Go integers, durations and instants\<close>

text \<open>
  Go's \<^verbatim>\<open>int64\<close> (and \<^verbatim>\<open>int\<close> and \<^verbatim>\<open>time.Duration\<close> on the 64-bit targets of the
  daemon) wraps around; \<open>int64\<close> is the wrap-around written out on \<open>int\<close>.
\<close>

definition int64 :: "int \<Rightarrow> int" where
  "int64 x = (x + 2 ^ 63) mod 2 ^ 64 - 2 ^ 63"

abbreviation max_int64 :: int where "max_int64 \<equiv> 2 ^ 63 - 1"
abbreviation min_int64 :: int where "min_int64 \<equiv> - (2 ^ 63)"

lemma int64_id: "min_int64 \<le> x \<Longrightarrow> x \<le> max_int64 \<Longrightarrow> int64 x = x"
  by (simp add: int64_def)

lemma int64_range: "min_int64 \<le> int64 x \<and> int64 x \<le> max_int64"
proof -
  have "0 \<le> (x + 2 ^ 63) mod 2 ^ 64" and "(x + 2 ^ 63) mod 2 ^ 64 < 2 ^ 64"
    by simp_all
  then show ?thesis by (simp add: int64_def)
qed

type_synonym duration = int \<comment> \<open>nanoseconds\<close>
type_synonym instant = int \<comment> \<open>nanoseconds on the daemon's clock\<close>

definition second :: duration where [time_simps]: "second = 1000000000"
definition minute :: duration where [time_simps]: "minute = 60000000000"
definition hour :: duration where [time_simps]: "hour = 3600000000000"

text \<open>\<^verbatim>\<open>Time.Sub\<close> saturates at the extreme durations instead of wrapping.\<close>

definition time_sub :: "instant \<Rightarrow> instant \<Rightarrow> duration" where
  "time_sub t u = max min_int64 (min max_int64 (t - u))"

abbreviation (input) time_before :: "instant \<Rightarrow> instant \<Rightarrow> bool" where "time_before t u \<equiv> t < u"
abbreviation (input) time_after :: "instant \<Rightarrow> instant \<Rightarrow> bool" where "time_after t u \<equiv> u < t"

lemma time_sub_gt [time_simps]:
  "d < max_int64 \<Longrightarrow> min_int64 \<le> d \<Longrightarrow> time_sub t u > d \<longleftrightarrow> t > u + d"
  by (auto simp: time_sub_def)


section \<open>Maps with deletion and sweeping\<close>

text \<open>\<^verbatim>\<open>delete(m, k)\<close>, and a range loop that deletes every entry whose value is stale.\<close>

definition map_delete :: "('k \<rightharpoonup> 'v) \<Rightarrow> 'k \<Rightarrow> ('k \<rightharpoonup> 'v)" where
  "map_delete m k = m(k := None)"

definition map_sweep :: "('v \<Rightarrow> bool) \<Rightarrow> ('k \<rightharpoonup> 'v) \<Rightarrow> ('k \<rightharpoonup> 'v)" where
  "map_sweep stale m =
     (\<lambda>k. case m k of None \<Rightarrow> None | Some v \<Rightarrow> if stale v then None else Some v)"

lemma map_delete_apply [simp]: "map_delete m k k' = (if k' = k then None else m k')"
  by (simp add: map_delete_def)

lemma dom_map_delete [simp]: "dom (map_delete m k) = dom m - {k}"
  by (auto simp: dom_def)

lemma map_sweep_Some [sweep_simps]:
  "map_sweep stale m k = Some v \<longleftrightarrow> m k = Some v \<and> \<not> stale v"
  by (auto simp: map_sweep_def split: option.splits)

lemma map_sweep_None [sweep_simps]:
  "map_sweep stale m k = None \<longleftrightarrow> (\<forall>v. m k = Some v \<longrightarrow> stale v)"
  by (auto simp: map_sweep_def split: option.splits)

lemma dom_map_sweep_subset: "dom (map_sweep stale m) \<subseteq> dom m"
  by (auto simp: sweep_simps)

lemma map_sweep_idem [simp]: "map_sweep stale (map_sweep stale m) = map_sweep stale m"
  by (auto simp: map_sweep_def split: option.splits)

lemma map_sweep_upd [simp]:
  "map_sweep stale (m(k \<mapsto> v)) = (if stale v then map_delete (map_sweep stale m) k else (map_sweep stale m)(k \<mapsto> v))"
  by (rule ext) (simp add: map_sweep_def)

lemma map_sweep_empty [simp]: "map_sweep stale Map.empty = Map.empty"
  by (simp add: map_sweep_def)


section \<open>HTTP requests and responses\<close>

text \<open>
  A request as the handlers read it. The body is what \<^verbatim>\<open>json.Decoder.Decode\<close> makes of it:
  a decoding error, the end of the input (an empty body), or an object whose string fields
  are read by name, an absent field being the empty string Go leaves in the struct.
\<close>

datatype json_body = JsonError | JsonEOF | JsonObject "string \<Rightarrow> string"

record http_request =
  req_method :: string
  req_path :: string
  req_remote :: string
  req_host :: string
  req_header :: "string \<Rightarrow> string" \<comment> \<open>\<^verbatim>\<open>Header.Get\<close>: absent is empty\<close>
  req_query :: "string \<Rightarrow> string" \<comment> \<open>\<^verbatim>\<open>URL.Query().Get\<close>: absent is empty\<close>
  req_json :: json_body
  req_device :: "string option" \<comment> \<open>the device id in the request context\<close>

text \<open>Methods and status codes of net/http that the handlers use.\<close>

abbreviation MethodPost :: string where "MethodPost \<equiv> ''POST''"
abbreviation MethodGet :: string where "MethodGet \<equiv> ''GET''"
abbreviation MethodDelete :: string where "MethodDelete \<equiv> ''DELETE''"
abbreviation MethodPatch :: string where "MethodPatch \<equiv> ''PATCH''"
abbreviation MethodHead :: string where "MethodHead \<equiv> ''HEAD''"

abbreviation "StatusOK \<equiv> (200 :: nat)"
abbreviation "StatusCreated \<equiv> (201 :: nat)"
abbreviation "StatusNoContent \<equiv> (204 :: nat)"
abbreviation "StatusBadRequest \<equiv> (400 :: nat)"
abbreviation "StatusUnauthorized \<equiv> (401 :: nat)"
abbreviation "StatusForbidden \<equiv> (403 :: nat)"
abbreviation "StatusNotFound \<equiv> (404 :: nat)"
abbreviation "StatusMethodNotAllowed \<equiv> (405 :: nat)"
abbreviation "StatusConflict \<equiv> (409 :: nat)"
abbreviation "StatusGone \<equiv> (410 :: nat)"
abbreviation "StatusUnsupportedMediaType \<equiv> (415 :: nat)"
abbreviation "StatusUnprocessableEntity \<equiv> (422 :: nat)"
abbreviation "StatusTooManyRequests \<equiv> (429 :: nat)"
abbreviation "StatusInternalServerError \<equiv> (500 :: nat)"


section \<open>Runs of a state machine\<close>

text \<open>A run is a left fold of the step function over the events, oldest first.\<close>

definition run_steps :: "('s \<Rightarrow> 'e \<Rightarrow> 's) \<Rightarrow> 's \<Rightarrow> 'e list \<Rightarrow> 's" where
  "run_steps step s es = foldl step s es"

lemma run_steps_simps [simp]:
  "run_steps step s [] = s"
  "run_steps step s (e # es) = run_steps step (step s e) es"
  "run_steps step s (es @ es') = run_steps step (run_steps step s es) es'"
  by (simp_all add: run_steps_def)

lemma run_steps_invariant:
  assumes "P s" and "\<And>s e. P s \<Longrightarrow> e \<in> set es \<Longrightarrow> P (step s e)"
  shows "P (run_steps step s es)"
  using assms
proof (induction es arbitrary: s)
  case Nil
  then show ?case by simp
next
  case (Cons e es)
  have "P (step s e)" using Cons.prems by simp
  then have "P (run_steps step (step s e) es)"
    by (rule Cons.IH) (simp add: Cons.prems)
  then show ?case by simp
qed


section \<open>Single-use token stores\<close>

text \<open>
  The contract of a store of one-time tokens: an event can only redeem a token that is live,
  redeeming kills it, and only an event that issues a token makes it live. From these three
  laws no token is ever redeemed twice without being issued again in between, whatever the
  other callers of the store do meanwhile.
\<close>

locale single_use =
  fixes step :: "'s \<Rightarrow> 'e \<Rightarrow> 's"
    and live :: "'s \<Rightarrow> 'k \<Rightarrow> bool"
    and issues :: "'e \<Rightarrow> 'k \<Rightarrow> bool"
    and redeems :: "'s \<Rightarrow> 'e \<Rightarrow> 'k \<Rightarrow> bool"
  assumes redeem_live: "redeems s e k \<Longrightarrow> live s k"
    and redeem_kills: "redeems s e k \<Longrightarrow> \<not> live (step s e) k"
    and live_source: "live (step s e) k \<Longrightarrow> live s k \<or> issues e k"
begin

lemma dead_stays_dead:
  "\<not> live s k \<Longrightarrow> \<forall>e \<in> set es. \<not> issues e k \<Longrightarrow> \<not> live (run_steps step s es) k"
proof (induction es arbitrary: s)
  case Nil
  then show ?case by simp
next
  case (Cons e es)
  then have "\<not> live (step s e) k" using live_source by auto
  with Cons show ?case by simp
qed

lemma no_second_redeem:
  assumes "redeems s e k" and "\<forall>e' \<in> set es. \<not> issues e' k"
  shows "\<not> redeems (run_steps step (step s e) es) e' k"
proof -
  have "\<not> live (run_steps step (step s e) es) k"
    using redeem_kills [OF assms(1)] assms(2) by (rule dead_stays_dead)
  then show ?thesis using redeem_live by blast
qed

lemma redeemed_was_issued:
  assumes "\<not> live s k" and "redeems (run_steps step s es) e k"
  shows "\<exists>e' \<in> set es. issues e' k"
  using assms dead_stays_dead redeem_live by blast

end

end
