(* ===== verification/RateLimit.thy ===== *)
theory RateLimit
  imports Prelude
begin

text \<open>
  The failure counters and lockouts of \<^verbatim>\<open>identity/ratelimit.go\<close>: the per-key bookkeeping,
  the limiter over IP addresses and accounts, the exponential backoff.
\<close>


section \<open>Model\<close>

definition FailureThreshold :: int where "FailureThreshold = 5"
definition baseLockout :: duration where [time_simps]: "baseLockout = 1 * minute"
definition maxLockout :: duration where [time_simps]: "maxLockout = 1 * hour"

text \<open>The bookkeeping of one key. The zero time of Go is an instant before every clock value.\<close>

record lockState =
  failures :: int
  lockCount :: int
  lockedUntil :: "instant option" \<comment> \<open>\<open>None\<close> is the zero \<^verbatim>\<open>time.Time\<close>\<close>

record RateLimiter =
  byIP :: "string \<rightharpoonup> lockState"
  byAcct :: "string \<rightharpoonup> lockState"

definition NewRateLimiter :: RateLimiter where
  "NewRateLimiter = \<lparr>byIP = Map.empty, byAcct = Map.empty\<rparr>"

definition before_until :: "instant \<Rightarrow> instant option \<Rightarrow> bool" where
  "before_until now u = (case u of None \<Rightarrow> False | Some t \<Rightarrow> time_before now t)"

text \<open>The two refusals of \<^verbatim>\<open>Allow\<close>, both wrapping \<^verbatim>\<open>ErrRateLimited\<close>.\<close>

datatype rate_error = IpLocked | AccountLocked

definition locked :: "instant \<Rightarrow> (string \<rightharpoonup> lockState) \<Rightarrow> string \<Rightarrow> bool" where
  "locked now m key =
     (case m key of Some s \<Rightarrow> before_until now (lockedUntil s) | None \<Rightarrow> False)"

definition Allow :: "instant \<Rightarrow> RateLimiter \<Rightarrow> string \<Rightarrow> string \<Rightarrow> rate_error + unit" where
  "Allow now r ip account =
     (if locked now (byIP r) ip then Inl IpLocked
      else if locked now (byAcct r) account then Inl AccountLocked
      else Inr ())"

text \<open>The loop of \<^verbatim>\<open>backoff\<close>: \<open>n\<close> iterations are left, \<open>d\<close> is the current duration.\<close>

fun backoff_loop :: "nat \<Rightarrow> duration \<Rightarrow> duration" where
  "backoff_loop 0 d = (if d > maxLockout then maxLockout else d)"
| "backoff_loop (Suc n) d =
     (if d \<ge> maxLockout then maxLockout else backoff_loop n (int64 (d * 2)))"

definition backoff :: "int \<Rightarrow> duration" where
  "backoff count = backoff_loop (nat (count - 1)) baseLockout"

definition recordFailure ::
    "(string \<rightharpoonup> lockState) \<Rightarrow> string \<Rightarrow> instant \<Rightarrow> (string \<rightharpoonup> lockState)" where
  "recordFailure m key now =
     (let s = (case m key of
                 Some s \<Rightarrow> s
               | None \<Rightarrow> \<lparr>failures = 0, lockCount = 0, lockedUntil = None\<rparr>);
          s1 = s\<lparr>failures := int64 (failures s + 1)\<rparr>
      in if failures s1 < FailureThreshold then m(key \<mapsto> s1)
         else let c = int64 (lockCount s1 + 1)
              in m(key \<mapsto> s1\<lparr>failures := 0, lockCount := c,
                              lockedUntil := Some (now + backoff c)\<rparr>))"

definition RecordFailure :: "instant \<Rightarrow> RateLimiter \<Rightarrow> string \<Rightarrow> string \<Rightarrow> RateLimiter" where
  "RecordFailure now r ip account =
     r\<lparr>byIP := recordFailure (byIP r) ip now,
       byAcct := recordFailure (byAcct r) account now\<rparr>"

definition RecordSuccess :: "RateLimiter \<Rightarrow> string \<Rightarrow> string \<Rightarrow> RateLimiter" where
  "RecordSuccess r ip account =
     r\<lparr>byIP := map_delete (byIP r) ip, byAcct := map_delete (byAcct r) account\<rparr>"

text \<open>
  \<^verbatim>\<open>LimitedVerifier\<close> wraps any verifier: a function that reads the evidence, may change the
  verifier's own state and reports an error or none.
\<close>

datatype 'e limited_error = RateLimited rate_error | InnerError 'e

definition LimitedVerify ::
    "('h \<Rightarrow> string \<Rightarrow> 'h \<times> 'e option) \<Rightarrow> instant \<Rightarrow> string \<Rightarrow> string \<Rightarrow>
     RateLimiter \<Rightarrow> 'h \<Rightarrow> string \<Rightarrow> RateLimiter \<times> 'h \<times> 'e limited_error option" where
  "LimitedVerify inner now ip account r h evidence =
     (case Allow now r ip account of
        Inl e \<Rightarrow> (r, h, Some (RateLimited e))
      | Inr _ \<Rightarrow>
          (case inner h evidence of
             (h', Some e) \<Rightarrow> (RecordFailure now r ip account, h', Some (InnerError e))
           | (h', None) \<Rightarrow> (RecordSuccess r ip account, h', None)))"

text \<open>The limiter as a state machine: every caller's effect on the counters.\<close>

datatype limiter_event =
    Failed instant string string
  | Succeeded string string

fun limiter_step :: "RateLimiter \<Rightarrow> limiter_event \<Rightarrow> RateLimiter" where
  "limiter_step r (Failed now ip account) = RecordFailure now r ip account"
| "limiter_step r (Succeeded ip account) = RecordSuccess r ip account"


section \<open>Backoff\<close>

text \<open>The reference definition: doubling from one minute, capped at an hour.\<close>

definition backoff_spec :: "nat \<Rightarrow> duration" where
  "backoff_spec k = min maxLockout (baseLockout * 2 ^ k)"

lemma backoff_loop_spec:
  "0 \<le> d \<Longrightarrow> d < 2 ^ 62 \<Longrightarrow> backoff_loop n d = min maxLockout (d * 2 ^ n)"
proof (induction n arbitrary: d)
  case 0
  then show ?case by (simp add: min_def)
next
  case (Suc n)
  show ?case
  proof (cases "d \<ge> maxLockout")
    case True
    have "d * 1 \<le> d * 2 ^ Suc n"
      using Suc.prems by (intro mult_left_mono one_le_power) simp_all
    with True show ?thesis by (simp add: min_def)
  next
    case False
    then have small: "d * 2 < 2 ^ 62" and wrap: "int64 (d * 2) = d * 2"
      using Suc.prems by (simp_all add: time_simps int64_id)
    have "backoff_loop n (d * 2) = min maxLockout (d * 2 * 2 ^ n)"
      using Suc.prems small by (intro Suc.IH) simp_all
    with False wrap show ?thesis by (simp add: mult.assoc)
  qed
qed

lemma backoff_eq: "backoff c = backoff_spec (nat (c - 1))"
  by (simp add: backoff_def backoff_spec_def backoff_loop_spec time_simps)

lemma backoff_bounds: "baseLockout \<le> backoff c" "backoff c \<le> maxLockout"
proof -
  have "baseLockout * 1 \<le> baseLockout * 2 ^ nat (c - 1)"
    by (intro mult_left_mono one_le_power) (simp_all add: time_simps)
  then show "baseLockout \<le> backoff c" "backoff c \<le> maxLockout"
    by (simp_all add: backoff_eq backoff_spec_def time_simps)
qed

lemma backoff_mono: "c \<le> c' \<Longrightarrow> backoff c \<le> backoff c'"
proof -
  assume "c \<le> c'"
  then have "baseLockout * 2 ^ nat (c - 1) \<le> baseLockout * 2 ^ nat (c' - 1)"
    by (intro mult_left_mono power_increasing) (simp_all add: time_simps)
  then show ?thesis by (simp add: backoff_eq backoff_spec_def)
qed


section \<open>Counters as a function of the failure history\<close>

text \<open>
  The specification of one key: the instants of its failures since it was last cleared
  determine the record the code keeps for it.
\<close>

definition key_spec :: "instant list \<Rightarrow> lockState option" where
  "key_spec ts =
     (if ts = [] then None
      else Some \<lparr>failures = int (length ts mod 5), lockCount = int (length ts div 5),
                 lockedUntil = (if length ts < 5 then None
                                else Some (ts ! (5 * (length ts div 5) - 1)
                                           + backoff (int (length ts div 5))))\<rparr>)"

definition record_all :: "(string \<rightharpoonup> lockState) \<Rightarrow> string \<Rightarrow> instant list \<Rightarrow> (string \<rightharpoonup> lockState)"
  where "record_all m key ts = foldl (\<lambda>m t. recordFailure m key t) m ts"

lemma record_all_simps [simp]:
  "record_all m key [] = m"
  "record_all m key (ts @ [t]) = recordFailure (record_all m key ts) key t"
  by (simp_all add: record_all_def)

lemma recordFailure_other [simp]: "k \<noteq> key \<Longrightarrow> recordFailure m key t k = m k"
  by (simp add: recordFailure_def Let_def)

lemma key_spec_snoc:
  assumes m: "m key = key_spec ts" and len: "int (length ts) < max_int64"
  shows "recordFailure m key t key = key_spec (ts @ [t])"
proof -
  let ?n = "length ts"
  define s where "s = (case m key of Some s \<Rightarrow> s
    | None \<Rightarrow> \<lparr>failures = 0, lockCount = 0, lockedUntil = None\<rparr>)"
  have f: "failures s = int (?n mod 5)" and c: "lockCount s = int (?n div 5)"
    using m by (auto simp: s_def key_spec_def)
  have u: "lockedUntil s = (if ?n < 5 then None
      else Some (ts ! (5 * (?n div 5) - 1) + backoff (int (?n div 5))))"
    using m by (auto simp: s_def key_spec_def)
  have wf: "int64 (failures s + 1) = int (?n mod 5) + 1"
    unfolding f by (rule int64_id) simp_all
  have wc: "int64 (lockCount s + 1) = int (?n div 5) + 1"
    unfolding c using len by (intro int64_id) simp_all
  show ?thesis
  proof (cases "?n mod 5 = 4")
    case True
    then have n: "Suc ?n mod 5 = 0" "Suc ?n div 5 = Suc (?n div 5)" "5 * (?n div 5) + 4 = ?n"
      by arith+
    then have "recordFailure m key t key =
        Some (s\<lparr>failures := 0, lockCount := int (?n div 5) + 1,
                lockedUntil := Some (t + backoff (int (?n div 5) + 1))\<rparr>)"
      using True wf wc
      by (simp add: recordFailure_def Let_def FailureThreshold_def flip: s_def)
    moreover have "(ts @ [t]) ! (5 * (Suc ?n div 5) - 1) = t"
    proof -
      have "5 * (Suc ?n div 5) - 1 = ?n" using n by arith
      then show ?thesis by simp
    qed
    moreover have "\<not> Suc ?n < 5" using True by arith
    ultimately show ?thesis using n by (simp add: key_spec_def add.commute)
  next
    case False
    then have n: "Suc ?n mod 5 = Suc (?n mod 5)" "Suc ?n div 5 = ?n div 5"
      "?n mod 5 < 4" "Suc ?n < 5 \<longleftrightarrow> ?n < 5" by arith+
    have "recordFailure m key t key = Some (s\<lparr>failures := int (?n mod 5) + 1\<rparr>)"
      using n(3) wf by (simp add: recordFailure_def Let_def FailureThreshold_def flip: s_def)
    moreover have "(ts @ [t]) ! (5 * (?n div 5) - 1) = ts ! (5 * (?n div 5) - 1)" if "\<not> ?n < 5"
    proof -
      have "5 * (?n div 5) - 1 < ?n" using that by arith
      then show ?thesis by (simp add: nth_append)
    qed
    ultimately show ?thesis using n f c u by (simp add: key_spec_def add.commute)
  qed
qed

section \<open>The limiter refines the failure histories\<close>

text \<open>
  The abstract state of the limiter is the list of failures of each key since its last success.
\<close>

fun acct_history :: "string \<Rightarrow> limiter_event list \<Rightarrow> instant list" where
  "acct_history a [] = []"
| "acct_history a (Failed now ip acct # es) =
     (if acct = a then acct_history a es @ [now] else acct_history a es)"
| "acct_history a (Succeeded ip acct # es) = (if acct = a then [] else acct_history a es)"

fun ip_history :: "string \<Rightarrow> limiter_event list \<Rightarrow> instant list" where
  "ip_history i [] = []"
| "ip_history i (Failed now ip acct # es) =
     (if ip = i then ip_history i es @ [now] else ip_history i es)"
| "ip_history i (Succeeded ip acct # es) = (if ip = i then [] else ip_history i es)"

definition deadline :: "instant list \<Rightarrow> instant option" where
  "deadline ts = (if length ts < 5 then None
                  else Some (ts ! (5 * (length ts div 5) - 1) + backoff (int (length ts div 5))))"

definition blocked :: "instant \<Rightarrow> instant list \<Rightarrow> bool" where
  "blocked now ts = before_until now (deadline ts)"

lemma acct_history_length: "length (acct_history a es) \<le> length es"
  by (induction a es rule: acct_history.induct) auto

lemma ip_history_length: "length (ip_history i es) \<le> length es"
  by (induction i es rule: ip_history.induct) auto

lemma key_spec_Nil [simp]: "key_spec [] = None"
  by (simp add: key_spec_def)

lemma key_spec_empty_iff [simp]: "key_spec ts = None \<longleftrightarrow> ts = []"
  by (simp add: key_spec_def)

lemma byAcct_step_key_spec:
  assumes "byAcct r a = key_spec (acct_history a es)" and "int (length es) < max_int64"
  shows "byAcct (limiter_step r e) a = key_spec (acct_history a (e # es))"
  using assms acct_history_length [of a es]
  by (cases e) (auto simp: RecordFailure_def RecordSuccess_def intro!: key_spec_snoc)

lemma byIP_step_key_spec:
  assumes "byIP r i = key_spec (ip_history i es)" and "int (length es) < max_int64"
  shows "byIP (limiter_step r e) i = key_spec (ip_history i (e # es))"
  using assms ip_history_length [of i es]
  by (cases e) (auto simp: RecordFailure_def RecordSuccess_def intro!: key_spec_snoc)

text \<open>Events are listed newest first in the histories, so a run reads the reversed list.\<close>

definition limiter_after :: "limiter_event list \<Rightarrow> RateLimiter" where
  "limiter_after es = run_steps limiter_step NewRateLimiter (rev es)"

lemma limiter_after_simps [simp]:
  "limiter_after [] = NewRateLimiter"
  "limiter_after (e # es) = limiter_step (limiter_after es) e"
  by (simp_all add: limiter_after_def)

lemma limiter_after_key_spec:
  "int (length es) \<le> max_int64 \<Longrightarrow>
     byAcct (limiter_after es) a = key_spec (acct_history a es) \<and>
     byIP (limiter_after es) i = key_spec (ip_history i es)"
proof (induction es)
  case Nil
  then show ?case by (simp add: NewRateLimiter_def)
next
  case (Cons e es)
  then show ?case
    using byAcct_step_key_spec [of "limiter_after es" a es e]
      byIP_step_key_spec [of "limiter_after es" i es e] by simp
qed

lemma locked_key_spec: "m k = key_spec ts \<Longrightarrow> locked now m k \<longleftrightarrow> blocked now ts"
  by (cases "ts = []") (auto simp: locked_def blocked_def key_spec_def deadline_def before_until_def)

text \<open>
  C28. The limiter implements its abstract specification: after any sequence of failures and
  successes by any callers, an attempt is admitted exactly when neither the failure history of
  its IP address nor that of its account (each since the key's last success) is in a lockout.
\<close>

theorem Allow_refines_histories:
  assumes "int (length es) \<le> max_int64"
  shows "Allow now (limiter_after es) ip account =
     (if blocked now (ip_history ip es) then Inl IpLocked
      else if blocked now (acct_history account es) then Inl AccountLocked
      else Inr ())"
  using limiter_after_key_spec [OF assms, of account ip]
  by (simp add: Allow_def locked_key_spec)

theorem Allow_refines_histories_witness:
  "int (length [Failed 3 ''10.0.0.1'' ''owner'']) \<le> max_int64 \<and>
   Allow 5 (limiter_after [Failed 3 ''10.0.0.1'' ''owner'']) ''10.0.0.1'' ''owner'' = Inr ()"
  using Allow_refines_histories
    [of "[Failed 3 ''10.0.0.1'' ''owner'']" 5 "''10.0.0.1''" "''owner''"]
  by (simp add: blocked_def deadline_def before_until_def)


section \<open>Lockouts\<close>

text \<open>
  C36. The backoff is the capped doubling of the reference definition for every lock count,
  and the 64-bit doubling of the loop never wraps.
\<close>

theorem backoff_reference:
  "backoff c = min (1 * hour) (1 * minute * 2 ^ nat (c - 1))"
  by (simp add: backoff_eq backoff_spec_def time_simps)

lemma deadline_mono:
  assumes "sorted (ts @ us)" and "deadline ts = Some d"
  shows "\<exists>d'. deadline (ts @ us) = Some d' \<and> d \<le> d'"
proof -
  let ?i = "length ts div 5" and ?j = "length (ts @ us) div 5"
  have n: "5 \<le> length ts" and d: "d = ts ! (5 * ?i - 1) + backoff (int ?i)"
    using assms(2) by (auto simp: deadline_def split: if_splits)
  have ij: "?i \<le> ?j" "1 \<le> ?i" using n by (auto intro: div_le_mono)
  have i: "5 * ?i - 1 < length ts" using n by arith
  have j: "5 * ?j - 1 < length (ts @ us)" using n by simp
  have "(ts @ us) ! (5 * ?i - 1) \<le> (ts @ us) ! (5 * ?j - 1)"
    using ij j by (intro sorted_nth_mono assms(1)) auto
  moreover have "(ts @ us) ! (5 * ?i - 1) = ts ! (5 * ?i - 1)"
    using i by (simp add: nth_append)
  moreover have "backoff (int ?i) \<le> backoff (int ?j)"
    using ij by (intro backoff_mono) simp
  moreover have "\<not> length (ts @ us) < 5" using n by simp
  ultimately show ?thesis using d by (simp add: deadline_def)
qed

lemma acct_history_append:
  "\<forall>e \<in> set fs. \<forall>ip. e \<noteq> Succeeded ip a \<Longrightarrow>
     acct_history a (fs @ es) = acct_history a es @ acct_history a fs"
proof (induction fs)
  case Nil
  then show ?case by simp
next
  case (Cons f fs)
  then show ?case by (cases f) auto
qed

text \<open>
  Once an account is locked out, no sequence of further attempts by anybody, from any
  address, shortens the lockout, as long as no success is recorded for the account and the
  clock of the recorded failures does not run backwards.
\<close>

lemma account_lockout_persists:
  assumes len: "int (length (later @ es)) \<le> max_int64"
    and lock: "deadline (acct_history account es) = Some d"
    and none: "\<forall>e \<in> set later. \<forall>ip. e \<noteq> Succeeded ip account"
    and clock: "sorted (acct_history account (later @ es))"
    and now: "now < d"
  shows "Allow now (limiter_after (later @ es)) ip account \<noteq> Inr ()"
proof -
  have h: "acct_history account (later @ es)
      = acct_history account es @ acct_history account later"
    using none by (rule acct_history_append)
  then obtain d' where "deadline (acct_history account (later @ es)) = Some d'" "d \<le> d'"
    using deadline_mono clock lock by metis
  then have "blocked now (acct_history account (later @ es))"
    using now by (simp add: blocked_def before_until_def)
  then show ?thesis
    using limiter_after_key_spec [OF len, of account ip] by (simp add: Allow_def locked_key_spec)
qed

lemma account_lockout_persists_example:
  "Allow 7 (limiter_after
     [Failed 6 ''9.9.9.9'' ''o'', Failed 5 ''1.1.1.1'' ''o'', Failed 4 ''1.1.1.2'' ''o'',
      Failed 3 ''1.1.1.3'' ''o'', Failed 2 ''1.1.1.4'' ''o'', Failed 1 ''1.1.1.5'' ''o''])
     ''8.8.8.8'' ''o'' \<noteq> Inr ()"
  using account_lockout_persists
    [of "[Failed 6 ''9.9.9.9'' ''o'']"
       "[Failed 5 ''1.1.1.1'' ''o'', Failed 4 ''1.1.1.2'' ''o'',
         Failed 3 ''1.1.1.3'' ''o'', Failed 2 ''1.1.1.4'' ''o'', Failed 1 ''1.1.1.5'' ''o'']"
       "''o''" "5 + minute" 7 "''8.8.8.8''"]
  by (simp add: deadline_def backoff_eq backoff_spec_def time_simps)

text \<open>A sequence of guesses against one wrapped verifier, each at its own instant.\<close>

fun limited_run ::
    "('h \<Rightarrow> string \<Rightarrow> 'h \<times> 'e option) \<Rightarrow> string \<Rightarrow> string \<Rightarrow> RateLimiter \<times> 'h \<Rightarrow>
     (instant \<times> string) list \<Rightarrow> RateLimiter \<times> 'h" where
  "limited_run inner ip account st [] = st"
| "limited_run inner ip account st ((now, ev) # rest) =
     (let (r', h', _) = LimitedVerify inner now ip account (fst st) (snd st) ev
      in limited_run inner ip account (r', h') rest)"

lemma LimitedVerify_locked:
  "Allow now r ip account = Inl e \<Longrightarrow>
     LimitedVerify inner now ip account r h evidence = (r, h, Some (RateLimited e))"
  by (simp add: LimitedVerify_def)

lemma limited_run_frozen:
  "\<forall>g \<in> set gs. Allow (fst g) r ip account \<noteq> Inr () \<Longrightarrow>
     limited_run inner ip account (r, h) gs = (r, h)"
proof (induction gs)
  case Nil
  then show ?case by simp
next
  case (Cons g gs)
  obtain now ev where g: "g = (now, ev)" by (cases g)
  with Cons.prems obtain e where "Allow now r ip account = Inl e"
    by (cases "Allow now r ip account") auto
  with Cons g show ?case by (simp add: LimitedVerify_locked)
qed

lemma blocked_five: "length ts = 5 \<Longrightarrow> blocked now ts \<longleftrightarrow> now < ts ! 4 + minute"
  by (simp add: blocked_def deadline_def before_until_def backoff_eq backoff_spec_def time_simps)

lemma not_blocked_short: "length ts < 5 \<Longrightarrow> \<not> blocked now ts"
  by (simp add: blocked_def deadline_def before_until_def)

lemma limited_run_counts:
  assumes reject: "\<And>h ev. snd (inner h ev) \<noteq> None"
    and "byIP r ip = key_spec ts" and "byAcct r account = key_spec ts"
    and "length ts \<le> 5" and "\<forall>g \<in> set (drop (5 - length ts) gs). fst g < (ts @ map fst gs) ! 4 + minute"
  shows "snd (limited_run inner ip account (r, h) gs)
         = foldl (\<lambda>h g. fst (inner h (snd g))) h (take (5 - length ts) gs)"
  using assms(2-)
proof (induction gs arbitrary: r h ts)
  case Nil
  then show ?case by simp
next
  case (Cons g gs)
  obtain now ev where g: "g = (now, ev)" by (cases g)
  show ?case
  proof (cases "length ts = 5")
    case True
    have "Allow (fst g') r ip account \<noteq> Inr ()" if "g' \<in> set (g # gs)" for g'
      using that Cons.prems True by (auto simp: Allow_def locked_key_spec blocked_five nth_append)
    then have "limited_run inner ip account (r, h) (g # gs) = (r, h)"
      by (intro limited_run_frozen) blast
    with True show ?thesis by simp
  next
    case False
    then have short: "length ts < 5" using Cons.prems by simp
    obtain h' e where i: "inner h ev = (h', Some e)"
      using reject [of h ev] by (cases "inner h ev") auto
    let ?r = "RecordFailure now r ip account"
    have step: "LimitedVerify inner now ip account r h ev = (?r, h', Some (InnerError e))"
      using short Cons.prems i
      by (simp add: LimitedVerify_def Allow_def locked_key_spec not_blocked_short)
    have "byIP ?r ip = key_spec (ts @ [now])" "byAcct ?r account = key_spec (ts @ [now])"
      using Cons.prems short by (simp_all add: RecordFailure_def key_spec_snoc)
    moreover have "5 - length ts = Suc (5 - length (ts @ [now]))" using short by simp
    ultimately show ?thesis
      using Cons.IH [of ?r "ts @ [now]" h'] Cons.prems short step i g by simp
  qed
qed

text \<open>
  C35. A brute force against a rate-limited verifier gets five guesses: if the verifier rejects
  everything, then however many guesses arrive, the wrapped verifier is consulted with the first
  five only, provided the later ones come within a minute of the fifth.
\<close>

theorem LimitedVerifier_five_guesses:
  assumes "\<And>h ev. snd (inner h ev) \<noteq> None"
    and "\<forall>g \<in> set (drop 5 gs). fst g < fst (gs ! 4) + minute"
  shows "snd (limited_run inner ip account (NewRateLimiter, h) gs)
         = foldl (\<lambda>h g. fst (inner h (snd g))) h (take 5 gs)"
proof -
  have "\<forall>g \<in> set (drop 5 gs). fst g < map fst gs ! 4 + minute"
    using assms(2) by (cases "length gs \<le> 4") auto
  then show ?thesis
    using limited_run_counts [of inner NewRateLimiter ip "[]" account gs h] assms(1)
    by (simp add: NewRateLimiter_def)
qed

theorem LimitedVerifier_five_guesses_witness:
  "snd (limited_run (\<lambda>n ev. (Suc n, Some ''bad'')) ''ip'' ''o'' (NewRateLimiter, 0)
     [(1, ''a''), (2, ''b''), (3, ''c''), (4, ''d''), (5, ''e''), (6, ''f''), (7, ''g'')]) = 5"
  using LimitedVerifier_five_guesses
    [of "\<lambda>n ev. (Suc n, Some ''bad'')"
        "[(1, ''a''), (2, ''b''), (3, ''c''), (4, ''d''), (5, ''e''), (6, ''f''), (7, ''g'')]"
        "''ip''" "''o''" 0]
  by (simp add: time_simps)

end
