(* ===== verification/Pairing.thy ===== *)
theory Pairing
  imports Prelude
begin

text \<open>
  The pairing state machine of \<^verbatim>\<open>identity/pairing.go\<close>: the three required factors, the
  verifier interface with its fail-closed default, and one pairing attempt. Verifiers are values
  of any type \<open>'v\<close>; \<open>vf\<close> is the dynamic dispatch of \<^verbatim>\<open>Verify\<close> on them, which may change the
  verifiers' own state \<open>'h\<close>.
\<close>


section \<open>Model\<close>

type_synonym factor = string

definition FactorPassword :: factor where "FactorPassword = ''password''"
definition FactorTOTP :: factor where "FactorTOTP = ''totp''"
definition FactorPasskey :: factor where "FactorPasskey = ''passkey''"

definition RequiredFactors :: "factor list" where
  "RequiredFactors = [FactorPassword, FactorTOTP, FactorPasskey]"

definition PairingTTL :: duration where [time_simps]: "PairingTTL = 10 * minute"

text \<open>The error values of package identity that a pairing can meet.\<close>

datatype auth_error =
    ErrFactorNotImplemented factor
  | ErrPairingExpired
  | ErrPairingIncomplete "factor list"
  | ErrPairingConsumed
  | ErrUnknownFactor factor
  | ErrEmptyPassword
  | ErrSalt
  | ErrMalformedHash
  | ErrPasswordMismatch
  | ErrTOTPCodeInvalid
  | ErrTOTPCodeReused
  | ErrRelyingPartyNotConfigured
  | ErrPasskeyNotBound
  | ErrCeremony
  | ErrPasskeyParse
  | ErrPasskeyValidate

text \<open>A value of the interface \<^verbatim>\<open>Verifier\<close>: the default, or an implementation.\<close>

datatype 'v verifier = notImplemented factor | Impl 'v

type_synonym ('v, 'h) dispatch = "instant \<Rightarrow> 'v \<Rightarrow> 'h \<Rightarrow> string \<Rightarrow> 'h \<times> auth_error option"

fun Verify :: "('v, 'h) dispatch \<Rightarrow> instant \<Rightarrow> 'v verifier \<Rightarrow> 'h \<Rightarrow> string \<Rightarrow> 'h \<times> auth_error option"
  where
  "Verify vf now (notImplemented f) h ev = (h, Some (ErrFactorNotImplemented f))"
| "Verify vf now (Impl v) h ev = vf now v h ev"

record 'v Attempt =
  a_Code :: string
  a_DevicePub :: string
  a_StartedAt :: instant
  a_satisfied :: "factor \<rightharpoonup> bool"
  a_consumed :: bool
  a_verifiers :: "factor \<rightharpoonup> 'v verifier"
  a_completed :: bool

text \<open>A supplied verifier may be absent from the map or a nil interface (\<open>Some None\<close>).\<close>

definition full_verifiers :: "(factor \<rightharpoonup> 'v option) \<Rightarrow> (factor \<rightharpoonup> 'v verifier)" where
  "full_verifiers vs =
     foldl (\<lambda>full f. case vs f of
                        Some (Some v) \<Rightarrow> full(f \<mapsto> Impl v)
                      | _ \<Rightarrow> full(f \<mapsto> notImplemented f)) Map.empty RequiredFactors"

definition NewAttempt :: "instant \<Rightarrow> string \<Rightarrow> string \<Rightarrow> (factor \<rightharpoonup> 'v option) \<Rightarrow> 'v Attempt" where
  "NewAttempt now code pub vs =
     \<lparr>a_Code = code, a_DevicePub = pub, a_StartedAt = now, a_satisfied = Map.empty,
      a_consumed = False, a_verifiers = full_verifiers vs, a_completed = False\<rparr>"

definition Expired :: "instant \<Rightarrow> 'v Attempt \<Rightarrow> bool" where
  "Expired now a \<longleftrightarrow> time_sub now (a_StartedAt a) > PairingTTL"

definition Satisfy ::
    "('v, 'h) dispatch \<Rightarrow> instant \<Rightarrow> 'h \<Rightarrow> 'v Attempt \<Rightarrow> factor \<Rightarrow> string \<Rightarrow>
     auth_error option \<times> 'h \<times> 'v Attempt" where
  "Satisfy vf now h a f ev =
     (if a_consumed a then (Some ErrPairingConsumed, h, a)
      else if Expired now a then (Some ErrPairingExpired, h, a)
      else case a_verifiers a f of
             None \<Rightarrow> (Some (ErrUnknownFactor f), h, a)
           | Some v \<Rightarrow>
               (case Verify vf now v h ev of
                  (h', Some e) \<Rightarrow> (Some e, h', a)
                | (h', None) \<Rightarrow> (None, h', a\<lparr>a_satisfied := (a_satisfied a)(f \<mapsto> True)\<rparr>)))"

definition is_satisfied :: "'v Attempt \<Rightarrow> factor \<Rightarrow> bool" where
  "is_satisfied a f \<longleftrightarrow> a_satisfied a f = Some True"

definition Outstanding :: "'v Attempt \<Rightarrow> factor list" where
  "Outstanding a = filter (\<lambda>f. \<not> is_satisfied a f) RequiredFactors"

definition Complete :: "instant \<Rightarrow> 'v Attempt \<Rightarrow> auth_error option \<times> 'v Attempt" where
  "Complete now a =
     (if a_consumed a then (Some ErrPairingConsumed, a)
      else if Expired now a then (Some ErrPairingExpired, a)
      else if Outstanding a \<noteq> [] then (Some (ErrPairingIncomplete (Outstanding a)), a)
      else (None, a\<lparr>a_consumed := True, a_completed := True\<rparr>))"

definition Completed :: "'v Attempt \<Rightarrow> bool" where
  "Completed a = a_completed a"

text \<open>The attempt as a state machine over its own record and the verifiers' state.\<close>

datatype attempt_event = EvSatisfy instant factor string | EvComplete instant

fun attempt_step :: "('v, 'h) dispatch \<Rightarrow> 'h \<times> 'v Attempt \<Rightarrow> attempt_event \<Rightarrow> 'h \<times> 'v Attempt" where
  "attempt_step vf (h, a) (EvSatisfy now f ev) = snd (Satisfy vf now h a f ev)"
| "attempt_step vf (h, a) (EvComplete now) = (h, snd (Complete now a))"


section \<open>Single operations\<close>

lemma Expired_iff: "Expired now a \<longleftrightarrow> now > a_StartedAt a + PairingTTL"
  by (simp add: Expired_def time_simps)

lemma Outstanding_empty_iff: "Outstanding a = [] \<longleftrightarrow> (\<forall>f \<in> set RequiredFactors. is_satisfied a f)"
  by (simp add: Outstanding_def filter_empty_conv)

lemma required_distinct:
  "FactorPassword \<noteq> FactorTOTP" "FactorPassword \<noteq> FactorPasskey" "FactorTOTP \<noteq> FactorPasskey"
  by (simp_all add: FactorPassword_def FactorTOTP_def FactorPasskey_def)

lemma full_verifiers_apply:
  "full_verifiers vs f =
     (if f \<in> set RequiredFactors
      then Some (case vs f of Some (Some v) \<Rightarrow> Impl v | _ \<Rightarrow> notImplemented f) else None)"
  using required_distinct
  by (auto simp: full_verifiers_def RequiredFactors_def split: option.splits)

lemma Satisfy_frame:
  assumes "Satisfy vf now h a f ev = (r, h', a')"
  shows "a_Code a' = a_Code a" "a_DevicePub a' = a_DevicePub a" "a_StartedAt a' = a_StartedAt a"
    "a_verifiers a' = a_verifiers a" "a_consumed a' = a_consumed a" "a_completed a' = a_completed a"
  using assms by (auto simp: Satisfy_def split: if_splits option.splits prod.splits)

lemma Satisfy_satisfied:
  assumes "Satisfy vf now h a f ev = (r, h', a')"
  shows "is_satisfied a' g \<longleftrightarrow> is_satisfied a g \<or> (r = None \<and> g = f)"
  using assms by (auto simp: Satisfy_def is_satisfied_def split: if_splits option.splits prod.splits)

lemma Satisfy_accepts:
  assumes "Satisfy vf now h a f ev = (None, h', a')"
  shows "\<not> a_consumed a" "\<not> Expired now a"
    "\<exists>v. a_verifiers a f = Some (Impl v) \<and> vf now v h ev = (h', None)"
proof -
  show "\<not> a_consumed a" "\<not> Expired now a"
    using assms by (auto simp: Satisfy_def split: if_splits)
  then obtain v where v: "a_verifiers a f = Some v" "Verify vf now v h ev = (h', None)"
    using assms by (auto simp: Satisfy_def split: option.splits prod.splits)
  then show "\<exists>v. a_verifiers a f = Some (Impl v) \<and> vf now v h ev = (h', None)"
    by (cases v) auto
qed

lemma Complete_frame:
  "a_StartedAt (snd (Complete now a)) = a_StartedAt a"
  "a_verifiers (snd (Complete now a)) = a_verifiers a"
  "a_DevicePub (snd (Complete now a)) = a_DevicePub a"
  "is_satisfied (snd (Complete now a)) f = is_satisfied a f"
  by (simp_all add: Complete_def is_satisfied_def)

lemma Complete_success_iff:
  "fst (Complete now a) = None \<longleftrightarrow>
     \<not> a_consumed a \<and> \<not> Expired now a \<and> (\<forall>f \<in> set RequiredFactors. is_satisfied a f)"
  by (simp add: Complete_def Outstanding_empty_iff [symmetric])


section \<open>Runs of an attempt\<close>

abbreviation attempt_run ::
    "('v, 'h) dispatch \<Rightarrow> 'h \<times> 'v Attempt \<Rightarrow> attempt_event list \<Rightarrow> 'h \<times> 'v Attempt" where
  "attempt_run vf \<equiv> run_steps (attempt_step vf)"

text \<open>In the run, factor \<open>f\<close> was accepted by its verifier at some step before the end.\<close>

definition accepted_in ::
    "('v, 'h) dispatch \<Rightarrow> 'h \<times> 'v Attempt \<Rightarrow> attempt_event list \<Rightarrow> factor \<Rightarrow> bool" where
  "accepted_in vf s es f \<longleftrightarrow>
     (\<exists>es1 now ev es2 v h h' a.
        es = es1 @ EvSatisfy now f ev # es2 \<and> attempt_run vf s es1 = (h, a) \<and>
        \<not> Expired now a \<and> a_verifiers a f = Some (Impl v) \<and> vf now v h ev = (h', None))"

lemma accepted_in_append: "accepted_in vf s es f \<Longrightarrow> accepted_in vf s (es @ es') f"
  by (fastforce simp: accepted_in_def)

lemma run_satisfied_accepted:
  "is_satisfied (snd (attempt_run vf s es)) f \<Longrightarrow>
     is_satisfied (snd s) f \<or> accepted_in vf s es f"
proof (induction es rule: rev_induct)
  case Nil
  then show ?case by simp
next
  case (snoc e es)
  obtain h a where run: "attempt_run vf s es = (h, a)" by fastforce
  show ?case
  proof (cases "is_satisfied a f")
    case True
    with snoc.IH run show ?thesis by (auto intro: accepted_in_append)
  next
    case False
    have sat: "is_satisfied (snd (attempt_step vf (h, a) e)) f" using snoc.prems run by simp
    obtain now ev where e: "e = EvSatisfy now f ev"
      and ok: "fst (Satisfy vf now h a f ev) = None"
    proof (cases e)
      case (EvSatisfy now g ev)
      obtain r h' a' where S: "Satisfy vf now h a g ev = (r, h', a')" using prod_cases3 by blast
      with sat False EvSatisfy Satisfy_satisfied [OF S, of f] that show thesis by auto
    next
      case (EvComplete now)
      with sat False show thesis by (simp add: Complete_frame)
    qed
    then obtain h' a' where "Satisfy vf now h a f ev = (None, h', a')"
      by (cases "Satisfy vf now h a f ev") auto
    from Satisfy_accepts [OF this] have "accepted_in vf s (es @ [e]) f"
      unfolding accepted_in_def using run e by blast
    then show ?thesis ..
  qed
qed

definition attempt_inv :: "'v Attempt \<Rightarrow> bool" where
  "attempt_inv a \<longleftrightarrow> (a_completed a \<longleftrightarrow> a_consumed a) \<and>
     (a_completed a \<longrightarrow> (\<forall>f \<in> set RequiredFactors. is_satisfied a f))"

lemma attempt_inv_step: "attempt_inv (snd s) \<Longrightarrow> attempt_inv (snd (attempt_step vf s e))"
proof (cases s; cases e)
  fix h a now f ev
  assume s: "attempt_inv (snd s)" "s = (h, a)" "e = EvSatisfy now f ev"
  obtain r h' a' where S: "Satisfy vf now h a f ev = (r, h', a')" using prod_cases3 by blast
  with s Satisfy_frame [OF S] Satisfy_satisfied [OF S] show "attempt_inv (snd (attempt_step vf s e))"
    by (auto simp: attempt_inv_def)
next
  fix h a now
  assume "attempt_inv (snd s)" "s = (h, a)" "e = EvComplete now"
  then show "attempt_inv (snd (attempt_step vf s e))"
    by (auto simp: attempt_inv_def Complete_def is_satisfied_def Outstanding_empty_iff)
qed

lemma attempt_inv_new [simp]: "attempt_inv (NewAttempt now code pub vs)"
  by (simp add: attempt_inv_def NewAttempt_def)

lemma attempt_inv_run: "attempt_inv (snd s) \<Longrightarrow> attempt_inv (snd (attempt_run vf s es))"
  by (rule run_steps_invariant) (simp_all add: attempt_inv_step)

lemma run_verifiers [simp]: "a_verifiers (snd (attempt_run vf s es)) = a_verifiers (snd s)"
proof (rule run_steps_invariant [where P = "\<lambda>t. a_verifiers (snd t) = a_verifiers (snd s)"])
  fix t :: "'b \<times> 'a Attempt" and e
  assume "a_verifiers (snd t) = a_verifiers (snd s)"
  then show "a_verifiers (snd (attempt_step vf t e)) = a_verifiers (snd s)"
    by (cases t; cases e)
      (auto simp: Complete_frame Satisfy_def split: if_splits option.splits prod.splits)
qed simp

text \<open>
  No shortcut in the chain: whatever calls are made on a new attempt, in whatever order, if
  it ends up completed then every one of the three required factors was accepted by its own
  verifier, on a call made before the attempt expired.
\<close>

lemma completed_needs_every_factor:
  assumes "Completed (snd (attempt_run vf (h0, NewAttempt now code pub vs) es))"
    and "f \<in> set RequiredFactors"
  shows "accepted_in vf (h0, NewAttempt now code pub vs) es f"
proof -
  let ?s = "(h0, NewAttempt now code pub vs)"
  have "attempt_inv (snd (attempt_run vf ?s es))" by (intro attempt_inv_run) simp
  with assms have "is_satisfied (snd (attempt_run vf ?s es)) f"
    by (auto simp: attempt_inv_def Completed_def)
  then show ?thesis
    using run_satisfied_accepted by (fastforce simp: is_satisfied_def NewAttempt_def)
qed

lemma completed_needs_every_factor_example:
  "accepted_in (\<lambda>now v h ev. (h, if ev = v then None else Some ErrPasswordMismatch))
     ((), NewAttempt 0 ''c'' ''k'' (\<lambda>f. Some (Some ''ok'')))
     [EvSatisfy 1 ''password'' ''ok'', EvSatisfy 2 ''totp'' ''ok'',
      EvSatisfy 3 ''passkey'' ''ok'', EvComplete 4] ''totp''"
  by (rule completed_needs_every_factor)
    (simp_all add: NewAttempt_def Satisfy_def Expired_def time_sub_def full_verifiers_apply
      RequiredFactors_def FactorPassword_def FactorTOTP_def FactorPasskey_def Complete_def
      Outstanding_def is_satisfied_def Completed_def PairingTTL_def minute_def)

text \<open>
  The chain fails closed: if no verifier (or a nil one) was supplied for a required factor,
  no sequence of calls completes the attempt.
\<close>

lemma missing_factor_never_completes:
  assumes "f \<in> set RequiredFactors" and "\<forall>v. vs f \<noteq> Some (Some v)"
  shows "\<not> Completed (snd (attempt_run vf (h0, NewAttempt now code pub vs) es))"
proof
  let ?s = "(h0, NewAttempt now code pub vs)"
  assume "Completed (snd (attempt_run vf ?s es))"
  then have "attempt_inv (snd (attempt_run vf ?s es)) \<and> Completed (snd (attempt_run vf ?s es))"
    by (simp add: attempt_inv_run)
  then have "is_satisfied (snd (attempt_run vf ?s es)) f"
    using assms(1) by (auto simp: attempt_inv_def Completed_def)
  then have "accepted_in vf ?s es f"
    using run_satisfied_accepted by (fastforce simp: is_satisfied_def NewAttempt_def)
  then obtain es1 h a v where "attempt_run vf ?s es1 = (h, a)" "a_verifiers a f = Some (Impl v)"
    by (auto simp: accepted_in_def)
  then have "full_verifiers vs f = Some (Impl v)"
    using run_verifiers [of vf ?s es1] by (simp add: NewAttempt_def)
  with assms show False by (auto simp: full_verifiers_apply split: option.splits)
qed

lemma missing_factor_never_completes_example:
  "\<not> Completed (snd (attempt_run (\<lambda>now v h ev. (h, None))
     ((), NewAttempt 0 ''c'' ''k'' ([''password'' \<mapsto> Some (), ''totp'' \<mapsto> Some ()]))
     [EvSatisfy 1 ''password'' ''x'', EvSatisfy 1 ''totp'' ''x'', EvComplete 1]))"
  by (rule missing_factor_never_completes [of FactorPasskey])
    (simp_all add: RequiredFactors_def FactorPasskey_def)

fun event_time :: "attempt_event \<Rightarrow> instant" where
  "event_time (EvSatisfy now f ev) = now"
| "event_time (EvComplete now) = now"

text \<open>
  A pairing code is single-use and a stale attempt is inert: once an attempt has been
  completed, or when every further call comes after its lifetime, no sequence of calls changes
  the attempt or reaches the state of any verifier.
\<close>

lemma finished_attempt_is_inert:
  assumes "a_consumed a \<or> (\<forall>e \<in> set es. event_time e > a_StartedAt a + PairingTTL)"
  shows "attempt_run vf (h, a) es = (h, a)"
  using assms
proof (induction es)
  case Nil
  then show ?case by simp
next
  case (Cons e es)
  then have "attempt_step vf (h, a) e = (h, a)"
    by (cases e) (auto simp: Satisfy_def Complete_def Expired_iff)
  with Cons show ?case by auto
qed

lemma finished_attempt_is_inert_example:
  "attempt_run (\<lambda>now v h ev. (Suc h, None)) (0, NewAttempt 0 ''c'' ''k'' (\<lambda>f. Some (Some ())))
     [EvSatisfy (11 * minute) ''password'' ''x'', EvComplete (12 * minute)]
   = (0, NewAttempt 0 ''c'' ''k'' (\<lambda>f. Some (Some ())))"
  by (rule finished_attempt_is_inert) (simp add: NewAttempt_def time_simps)

end
