(* ===== verification/Go_Strings.thy ===== *)
theory Go_Strings
  imports Prelude
begin

text \<open>
  The parts of Go's strings and of the packages \<^verbatim>\<open>strings\<close> and \<^verbatim>\<open>unicode/utf8\<close> that the
  daemon uses. A Go string is a sequence of bytes, a \<^typ>\<open>string\<close> here; a range loop over it
  decodes UTF-8.
\<close>

abbreviation byte :: "char \<Rightarrow> nat" where "byte c \<equiv> of_char c"

abbreviation chr :: "nat \<Rightarrow> char" where "chr n \<equiv> char_of n"

section \<open>Range loops: UTF-8\<close>

definition RuneError :: nat where "RuneError = 65533"

definition cont_byte :: "nat \<Rightarrow> bool" where
  "cont_byte b \<longleftrightarrow> 128 \<le> b \<and> b \<le> 191"

text \<open>
  \<^verbatim>\<open>utf8.DecodeRuneInString\<close>: the rune and its width. The second byte of a three- or
  four-byte sequence is restricted after the leading bytes that would start an overlong form, a
  surrogate or a value beyond the last code point; every malformed sequence is \<^verbatim>\<open>RuneError\<close>
  of width one.
\<close>

definition second_byte_ok :: "nat \<Rightarrow> nat \<Rightarrow> bool" where
  "second_byte_ok b0 b1 \<longleftrightarrow>
     (if b0 = 224 then 160 \<le> b1 \<and> b1 \<le> 191
      else if b0 = 237 then 128 \<le> b1 \<and> b1 \<le> 159
      else if b0 = 240 then 144 \<le> b1 \<and> b1 \<le> 191
      else if b0 = 244 then 128 \<le> b1 \<and> b1 \<le> 143
      else cont_byte b1)"

fun decode_rune :: "nat list \<Rightarrow> nat \<times> nat" where
  "decode_rune [] = (RuneError, 0)"
| "decode_rune (b0 # bs) =
     (if b0 < 128 then (b0, 1)
      else if 194 \<le> b0 \<and> b0 \<le> 223 then
        (case bs of
           b1 # _ \<Rightarrow> if cont_byte b1 then ((b0 - 192) * 64 + (b1 - 128), 2) else (RuneError, 1)
         | _ \<Rightarrow> (RuneError, 1))
      else if 224 \<le> b0 \<and> b0 \<le> 239 then
        (case bs of
           b1 # b2 # _ \<Rightarrow>
             if second_byte_ok b0 b1 \<and> cont_byte b2
             then ((b0 - 224) * 4096 + (b1 - 128) * 64 + (b2 - 128), 3) else (RuneError, 1)
         | _ \<Rightarrow> (RuneError, 1))
      else if 240 \<le> b0 \<and> b0 \<le> 244 then
        (case bs of
           b1 # b2 # b3 # _ \<Rightarrow>
             if second_byte_ok b0 b1 \<and> cont_byte b2 \<and> cont_byte b3
             then ((b0 - 240) * 262144 + (b1 - 128) * 4096 + (b2 - 128) * 64 + (b3 - 128), 4)
             else (RuneError, 1)
         | _ \<Rightarrow> (RuneError, 1))
      else (RuneError, 1))"

lemma decode_rune_ascii [simp]: "b < 128 \<Longrightarrow> decode_rune (b # bs) = (b, 1)"
  by simp

lemma decode_rune_ascii_iff: "fst (decode_rune (b # bs)) < 128 \<longleftrightarrow> b < 128"
  by (auto simp: RuneError_def second_byte_ok_def cont_byte_def split: list.splits if_splits)

declare decode_rune.simps(2) [simp del]

text \<open>The runes a range loop visits; \<open>skip\<close> bytes of the last rune are still to be passed.\<close>

fun range_runes :: "nat \<Rightarrow> nat list \<Rightarrow> nat list" where
  "range_runes skip [] = []"
| "range_runes (Suc skip) (b # bs) = range_runes skip bs"
| "range_runes 0 (b # bs) =
     (let (r, w) = decode_rune (b # bs) in r # range_runes (w - 1) bs)"

definition runes :: "string \<Rightarrow> nat list" where
  "runes s = range_runes 0 (map byte s)"

lemma runes_Nil [simp]: "runes [] = []"
  by (simp add: runes_def)

lemma runes_Cons_ascii [simp]: "byte c < 128 \<Longrightarrow> runes (c # s) = byte c # runes s"
  by (simp add: runes_def)

lemma runes_ascii: "\<forall>c \<in> set s. byte c < 128 \<Longrightarrow> runes s = map byte s"
  by (induction s) simp_all

text \<open>An ASCII character of the string is visited by the loop, and nothing else yields one.\<close>

lemma range_runes_ascii_source:
  "r \<in> set (range_runes k bs) \<Longrightarrow> r < 128 \<Longrightarrow> r \<in> set bs"
proof (induction k bs rule: range_runes.induct)
  case (3 b bs)
  obtain r' w where d: "decode_rune (b # bs) = (r', w)" by fastforce
  show ?case
  proof (cases "r = r'")
    case True
    then have "b < 128" using decode_rune_ascii_iff [of b bs] d "3.prems" by simp
    then show ?thesis using d True by auto
  next
    case False
    then have "r \<in> set (range_runes (w - 1) bs)" using "3.prems" d by simp
    then show ?thesis using "3.IH" "3.prems" d by simp
  qed
qed simp_all


section \<open>Package strings\<close>

definition HasPrefix :: "string \<Rightarrow> string \<Rightarrow> bool" where "HasPrefix s p = prefix p s"
definition HasSuffix :: "string \<Rightarrow> string \<Rightarrow> bool" where "HasSuffix s p = suffix p s"

definition TrimPrefix :: "string \<Rightarrow> string \<Rightarrow> string" where
  "TrimPrefix s p = (if HasPrefix s p then drop (length p) s else s)"

lemma TrimPrefix_append [simp]: "TrimPrefix (p @ s) p = s"
  by (simp add: TrimPrefix_def HasPrefix_def)

lemma trimmed_names:
  "s \<in> set (map (\<lambda>n. TrimPrefix n p) (filter (\<lambda>n. HasPrefix n p) names)) \<longleftrightarrow> p @ s \<in> set names"
proof
  assume "p @ s \<in> set names"
  then have "p @ s \<in> set (filter (\<lambda>n. HasPrefix n p) names)" by (simp add: HasPrefix_def)
  then show "s \<in> set (map (\<lambda>n. TrimPrefix n p) (filter (\<lambda>n. HasPrefix n p) names))"
    by (force intro: rev_image_eqI)
qed (auto simp: HasPrefix_def prefix_def)

text \<open>\<^verbatim>\<open>strings.Split\<close> with a one-byte separator: always at least one part.\<close>

fun split_byte :: "char \<Rightarrow> string \<Rightarrow> string list" where
  "split_byte sep [] = [[]]"
| "split_byte sep (c # s) =
     (if c = sep then [] # split_byte sep s
      else case split_byte sep s of
             [] \<Rightarrow> [[c]]
           | p # ps \<Rightarrow> (c # p) # ps)"

text \<open>\<^verbatim>\<open>strings.SplitN(s, sep, 2)\<close>: the part before the first separator and the rest.\<close>

definition split2 :: "char \<Rightarrow> string \<Rightarrow> string list" where
  "split2 sep s = (let a = takeWhile (\<lambda>c. c \<noteq> sep) s
                   in if sep \<in> set s then [a, drop (Suc (length a)) s] else [s])"

fun join_byte :: "char \<Rightarrow> string list \<Rightarrow> string" where
  "join_byte sep [] = []"
| "join_byte sep [p] = p"
| "join_byte sep (p # ps) = p @ sep # join_byte sep ps"

lemma split_byte_nonempty [simp]: "split_byte sep s \<noteq> []"
  by (cases s) (auto split: list.splits)

lemma join_byte_Cons: "join_byte sep (p # ps) = (if ps = [] then p else p @ sep # join_byte sep ps)"
  by (cases ps) simp_all

lemma join_split [simp]: "join_byte sep (split_byte sep s) = s"
proof (induction s)
  case Nil
  then show ?case by simp
next
  case (Cons c s)
  show ?case
  proof (cases "split_byte sep s")
    case Nil
    then show ?thesis by simp
  next
    case (Cons p ps)
    with \<open>join_byte sep (split_byte sep s) = s\<close> show ?thesis
      by (auto simp: join_byte_Cons split: if_splits)
  qed
qed

lemma split_byte_no_sep [simp]: "sep \<notin> set s \<Longrightarrow> split_byte sep s = [s]"
  by (induction s) auto

lemma split_byte_append [simp]:
  "sep \<notin> set p \<Longrightarrow> split_byte sep (p @ sep # s) = p # split_byte sep s"
  by (induction p) auto

lemma split_join:
  "ps \<noteq> [] \<Longrightarrow> \<forall>p \<in> set ps. sep \<notin> set p \<Longrightarrow> split_byte sep (join_byte sep ps) = ps"
proof (induction ps)
  case Nil
  then show ?case by simp
next
  case (Cons p ps)
  then show ?case by (cases "ps = []") (simp_all add: join_byte_Cons)
qed

lemma split_byte_parts: "p \<in> set (split_byte sep s) \<Longrightarrow> sep \<notin> set p"
proof (induction s arbitrary: p)
  case Nil
  then show ?case by simp
next
  case (Cons c s)
  obtain q qs where q: "split_byte sep s = q # qs" by (cases "split_byte sep s") simp_all
  show ?case using Cons q by (auto split: if_splits)
qed

text \<open>
  \<^verbatim>\<open>strings.TrimSpace\<close> strips the runes of \<^verbatim>\<open>unicode.IsSpace\<close> at both ends. The string is
  cut into the byte groups of its runes first; UTF-8 is self-synchronising, so the groups are
  the same read from either end.
\<close>

definition is_space :: "nat \<Rightarrow> bool" where
  "is_space r \<longleftrightarrow> r \<in> {9, 10, 11, 12, 13, 32, 133, 160, 5760, 8232, 8233, 8239, 8287, 12288}
                  \<or> 8192 \<le> r \<and> r \<le> 8202"

fun rune_groups :: "nat \<Rightarrow> string \<Rightarrow> (nat \<times> string) list" where
  "rune_groups skip [] = []"
| "rune_groups (Suc skip) (c # s) = rune_groups skip s"
| "rune_groups 0 (c # s) =
     (let (r, w) = decode_rune (map byte (c # s))
      in (r, take w (c # s)) # rune_groups (w - 1) s)"

definition TrimSpace :: "string \<Rightarrow> string" where
  "TrimSpace s =
     (let strip = dropWhile (\<lambda>g. is_space (fst g))
      in concat (map snd (rev (strip (rev (strip (rune_groups 0 s)))))))"

lemma rune_groups_ascii: "\<forall>c \<in> set s. byte c < 128 \<Longrightarrow> rune_groups 0 s = map (\<lambda>c. (byte c, [c])) s"
  by (induction s) simp_all

lemma dropWhile_hd: "xs = [] \<or> \<not> P (hd xs) \<Longrightarrow> dropWhile P xs = xs"
  by (cases xs) simp_all

text \<open>ASCII text without white space at its ends is left alone.\<close>

lemma TrimSpace_ascii:
  assumes "\<forall>c \<in> set s. byte c < 128" "s \<noteq> [] \<Longrightarrow> \<not> is_space (byte (hd s)) \<and> \<not> is_space (byte (last s))"
  shows "TrimSpace s = s"
proof -
  let ?g = "map (\<lambda>c. (byte c, [c])) s"
  have g: "rune_groups 0 s = ?g" using assms(1) by (simp add: rune_groups_ascii)
  have "dropWhile (\<lambda>g. is_space (fst g)) ?g = ?g" "dropWhile (\<lambda>g. is_space (fst g)) (rev ?g) = rev ?g"
    using assms(2) by (intro dropWhile_hd; auto simp: hd_map hd_rev last_map rev_map [symmetric])+
  moreover have "concat (map (\<lambda>c. [c]) s) = s" by (induction s) simp_all
  ultimately show ?thesis using g by (simp add: TrimSpace_def comp_def)
qed

lemma TrimSpace_printable: "\<forall>c \<in> set s. byte c < 128 \<and> \<not> is_space (byte c) \<Longrightarrow> TrimSpace s = s"
  by (rule TrimSpace_ascii) simp_all

text \<open>
  \<^verbatim>\<open>strings.EqualFold\<close> compares rune by rune up to Unicode simple case folding. The folding
  table is data of package unicode; \<open>fld\<close> is the representative of a rune's folding orbit.
\<close>

definition EqualFold :: "(nat \<Rightarrow> nat) \<Rightarrow> string \<Rightarrow> string \<Rightarrow> bool" where
  "EqualFold fld s t \<longleftrightarrow> map fld (runes s) = map fld (runes t)"

text \<open>The table restricted to ASCII letters, the instance the witnesses evaluate.\<close>

definition ascii_fold :: "nat \<Rightarrow> nat" where
  "ascii_fold r = (if 65 \<le> r \<and> r \<le> 90 then r + 32 else r)"

lemma EqualFold_refl [simp]: "EqualFold fld s s"
  by (simp add: EqualFold_def)

lemma EqualFold_sym: "EqualFold fld s t \<Longrightarrow> EqualFold fld t s"
  by (simp add: EqualFold_def)

lemma EqualFold_trans: "EqualFold fld s t \<Longrightarrow> EqualFold fld t u \<Longrightarrow> EqualFold fld s u"
  by (simp add: EqualFold_def)


section \<open>The alphabet of identifiers\<close>

text \<open>
  The character class \<^verbatim>\<open>[A-Za-z0-9_-]\<close> that the lock manager and the uploader test, on runes.
\<close>

definition ident_rune :: "nat \<Rightarrow> bool" where
  "ident_rune r \<longleftrightarrow> (97 \<le> r \<and> r \<le> 122) \<or> (65 \<le> r \<and> r \<le> 90) \<or> (48 \<le> r \<and> r \<le> 57) \<or> r = 45 \<or> r = 95"

definition ident_string :: "string \<Rightarrow> bool" where
  "ident_string s \<longleftrightarrow> (\<forall>c \<in> set s. ident_rune (byte c))"

lemma ident_rune_ascii: "ident_rune r \<Longrightarrow> r < 128"
  by (auto simp: ident_rune_def)

lemma ident_string_runes: "ident_string s \<Longrightarrow> runes s = map byte s"
  by (rule runes_ascii) (auto simp: ident_string_def dest: ident_rune_ascii)

lemma runes_ident_iff: "(\<forall>r \<in> set (runes s). ident_rune r) \<longleftrightarrow> ident_string s"
proof
  assume all: "\<forall>r \<in> set (runes s). ident_rune r"
  have id: "\<forall>r \<in> set (range_runes 0 bs). r < 128 \<Longrightarrow> range_runes 0 bs = bs" for bs
  proof (induction bs)
    case Nil
    then show ?case by simp
  next
    case (Cons b bs)
    obtain r w where d: "decode_rune (b # bs) = (r, w)" by fastforce
    then have "r \<in> set (range_runes 0 (b # bs))" by simp
    with Cons.prems have "r < 128" by blast
    then have b: "b < 128" using decode_rune_ascii_iff [of b bs] d by (simp only: fst_conv)
    then have "range_runes 0 (b # bs) = b # range_runes 0 bs" by simp
    moreover have "range_runes 0 bs = bs"
      by (rule Cons.IH) (use Cons.prems b in simp)
    ultimately show ?case by simp
  qed
  have "\<forall>r \<in> set (range_runes 0 (map byte s)). r < 128"
    using all ident_rune_ascii by (auto simp: runes_def)
  from id [OF this] have "runes s = map byte s" by (simp add: runes_def)
  then show "ident_string s" using all by (simp add: ident_string_def)
qed (simp add: ident_string_runes ident_string_def)

lemma ident_string_char: "ident_string s \<Longrightarrow> c \<in> set s \<Longrightarrow> ident_rune (byte c)"
  by (simp add: ident_string_def)

lemma ident_string_no_slash: "ident_string s \<Longrightarrow> CHR ''/'' \<notin> set s"
  using ident_string_char [of s "CHR ''/''"] by (auto simp: ident_rune_def)

lemma ident_string_no_dot: "ident_string s \<Longrightarrow> CHR ''.'' \<notin> set s"
  using ident_string_char [of s "CHR ''.''"] by (auto simp: ident_rune_def)

end
