(* ===== verification/Go_Codec.thy ===== *)
theory Go_Codec
  imports Go_Strings
begin

text \<open>
  The codecs of the standard library that the daemon uses: lower-case hexadecimal
  (\<^verbatim>\<open>encoding/hex\<close>), base64 with and without padding (\<^verbatim>\<open>encoding/base64\<close>), decimal
  integers (\<^verbatim>\<open>strconv\<close>). Each encoder is followed by its round trip.
\<close>


section \<open>Hexadecimal\<close>

definition hex_digit :: "nat \<Rightarrow> char" where
  "hex_digit n = chr (if n < 10 then 48 + n else 87 + n)"

fun hex_encode :: "string \<Rightarrow> string" where
  "hex_encode [] = []"
| "hex_encode (c # s) = hex_digit (byte c div 16) # hex_digit (byte c mod 16) # hex_encode s"

text \<open>The value of a hexadecimal digit in either case.\<close>

definition hex_value :: "char \<Rightarrow> nat option" where
  "hex_value c =
     (let n = byte c
      in if 48 \<le> n \<and> n \<le> 57 then Some (n - 48)
         else if 97 \<le> n \<and> n \<le> 102 then Some (n - 87)
         else if 65 \<le> n \<and> n \<le> 70 then Some (n - 55)
         else None)"

lemma length_hex_encode [simp]: "length (hex_encode s) = 2 * length s"
  by (induction s) simp_all

lemma byte_hex_digit: "n < 16 \<Longrightarrow> byte (hex_digit n) = (if n < 10 then 48 + n else 87 + n)"
  by (simp add: hex_digit_def)

lemma hex_digit_inject: "m < 16 \<Longrightarrow> n < 16 \<Longrightarrow> hex_digit m = hex_digit n \<longleftrightarrow> m = n"
proof
  assume mn: "m < 16" "n < 16" and eq: "hex_digit m = hex_digit n"
  have "byte (hex_digit m) = byte (hex_digit n)" using eq by simp
  then show "m = n" using mn by (simp add: byte_hex_digit split: if_splits)
qed simp

lemma hex_encode_inject: "hex_encode s = hex_encode t \<Longrightarrow> s = t"
proof (induction s arbitrary: t)
  case Nil
  then show ?case by (cases t) simp_all
next
  case (Cons c s)
  then obtain d u where t: "t = d # u" by (cases t) auto
  have lt: "byte x div 16 < 16" for x
    using nat_of_char_less_256 [of x] by (simp add: div_less_iff_less_mult)
  have "byte c div 16 = byte d div 16" "byte c mod 16 = byte d mod 16"
    using Cons.prems t lt by (simp_all add: hex_digit_inject)
  then have "byte c = byte d" by (metis div_mult_mod_eq)
  with Cons t show ?case by simp
qed

lemma hex_encode_ident: "ident_string (hex_encode s)"
proof (induction s)
  case Nil
  then show ?case by (simp add: ident_string_def)
next
  case (Cons c s)
  have lt: "byte c div 16 < 16"
    using nat_of_char_less_256 [of c] by (simp add: div_less_iff_less_mult)
  have "ident_rune (byte (hex_digit n))" if "n < 16" for n
    using that by (auto simp: byte_hex_digit ident_rune_def)
  with Cons lt show ?case by (simp add: ident_string_def)
qed

lemma hex_encode_eq_Nil [simp]: "hex_encode s = [] \<longleftrightarrow> s = []"
  by (cases s) simp_all


section \<open>Base64\<close>

definition b64_char :: "nat \<Rightarrow> char" where
  "b64_char n = chr (if n < 26 then 65 + n else if n < 52 then 71 + n
                     else if n < 62 then n - 4 else if n = 62 then 43 else 47)"

definition b64_val :: "char \<Rightarrow> nat option" where
  "b64_val c = (let b = byte c in
     if 65 \<le> b \<and> b \<le> 90 then Some (b - 65)
     else if 97 \<le> b \<and> b \<le> 122 then Some (b - 71)
     else if 48 \<le> b \<and> b \<le> 57 then Some (b + 4)
     else if b = 43 then Some 62 else if b = 47 then Some 63 else None)"

abbreviation pad_char :: char where "pad_char \<equiv> CHR ''=''"

fun b64_encode :: "bool \<Rightarrow> string \<Rightarrow> string" where
  "b64_encode padded [] = []"
| "b64_encode padded [a] =
     [b64_char (byte a div 4), b64_char (byte a mod 4 * 16)]
     @ (if padded then [pad_char, pad_char] else [])"
| "b64_encode padded [a, b] =
     [b64_char (byte a div 4), b64_char (byte a mod 4 * 16 + byte b div 16),
      b64_char (byte b mod 16 * 4)]
     @ (if padded then [pad_char] else [])"
| "b64_encode padded (a # b # c # s) =
     b64_char (byte a div 4) # b64_char (byte a mod 4 * 16 + byte b div 16)
     # b64_char (byte b mod 16 * 4 + byte c div 64) # b64_char (byte c mod 64)
     # b64_encode padded s"

text \<open>
  Decoding a quantum: four characters give three bytes; a final group of two or three, padded
  with \<^verbatim>\<open>=\<close> in the standard encoding and bare in the raw one, gives one or two. The unused low
  bits of a short group are ignored, as the encodings are not in strict mode.
\<close>

definition quantum3 :: "nat \<Rightarrow> nat \<Rightarrow> nat \<Rightarrow> nat \<Rightarrow> string" where
  "quantum3 v0 v1 v2 v3 =
     [chr (v0 * 4 + v1 div 16), chr (v1 mod 16 * 16 + v2 div 4), chr (v2 mod 4 * 64 + v3)]"

definition b64_final :: "bool \<Rightarrow> string \<Rightarrow> string option" where
  "b64_final padded s =
     (case (if padded
            then (case s of
                    [a, b, c, d] \<Rightarrow>
                      if c = pad_char \<and> d = pad_char then Some [a, b]
                      else if d = pad_char then Some [a, b, c] else None
                  | _ \<Rightarrow> None)
            else Some s) of
        None \<Rightarrow> None
      | Some t \<Rightarrow>
          (case map b64_val t of
             [Some v0, Some v1] \<Rightarrow> Some [chr (v0 * 4 + v1 div 16)]
           | [Some v0, Some v1, Some v2] \<Rightarrow>
               Some [chr (v0 * 4 + v1 div 16), chr (v1 mod 16 * 16 + v2 div 4)]
           | _ \<Rightarrow> None))"

fun b64_quanta :: "bool \<Rightarrow> string \<Rightarrow> string option" where
  "b64_quanta padded [] = Some []"
| "b64_quanta padded (a # b # c # d # s) =
     (case (b64_val a, b64_val b, b64_val c, b64_val d) of
        (Some v0, Some v1, Some v2, Some v3) \<Rightarrow>
          map_option (\<lambda>rest. quantum3 v0 v1 v2 v3 @ rest) (b64_quanta padded s)
      | _ \<Rightarrow> if s = [] then b64_final padded [a, b, c, d] else None)"
| "b64_quanta padded s = b64_final padded s"

text \<open>Line breaks are skipped wherever they stand.\<close>

definition b64_decode :: "bool \<Rightarrow> string \<Rightarrow> string option" where
  "b64_decode padded s = b64_quanta padded (filter (\<lambda>c. byte c \<noteq> 10 \<and> byte c \<noteq> 13) s)"

abbreviation "StdEncode \<equiv> b64_encode True"
abbreviation "StdDecode \<equiv> b64_decode True"
abbreviation "RawStdEncode \<equiv> b64_encode False"
abbreviation "RawStdDecode \<equiv> b64_decode False"

lemma byte_b64_char:
  "n < 64 \<Longrightarrow> byte (b64_char n) =
     (if n < 26 then 65 + n else if n < 52 then 71 + n
      else if n < 62 then n - 4 else if n = 62 then 43 else 47)"
  by (simp add: b64_char_def)

lemma b64_val_char [simp]: "n < 64 \<Longrightarrow> b64_val (b64_char n) = Some n"
  by (auto simp: b64_val_def byte_b64_char Let_def)

lemma b64_char_not_special:
  "n < 64 \<Longrightarrow> b64_char n \<noteq> pad_char \<and> byte (b64_char n) \<noteq> 10 \<and> byte (b64_char n) \<noteq> 13"
proof -
  assume n: "n < 64"
  have "b64_val pad_char = None" by (simp add: b64_val_def)
  then have "b64_char n \<noteq> pad_char" using b64_val_char [OF n] by auto
  with n show ?thesis by (auto simp: byte_b64_char)
qed

lemma byte_div_mod [simp]:
  "byte a div 4 < 64" "byte a div 16 < 16" "byte a div 64 < 4"
  using nat_of_char_less_256 [of a] by (simp_all add: div_less_iff_less_mult)

lemma sextet_bounds:
  "byte a mod 4 * 16 + byte b div 16 < 64"
  "byte b mod 16 * 4 + byte c div 64 < 64"
  "byte a mod 4 * 16 < 64" "byte b mod 16 * 4 < 64" "byte c mod 64 < 64"
proof -
  have "byte a mod 4 < 4" "byte b mod 16 < 16" by simp_all
  moreover have "byte b div 16 < 16" "byte c div 64 < 4" by simp_all
  ultimately show "byte a mod 4 * 16 + byte b div 16 < 64"
    "byte b mod 16 * 4 + byte c div 64 < 64" "byte a mod 4 * 16 < 64" "byte b mod 16 * 4 < 64"
    "byte c mod 64 < 64" by linarith+
qed

lemma regroup:
  "byte a div 4 * 4 + (byte a mod 4 * 16 + byte b div 16) div 16 = byte a"
  "(byte a mod 4 * 16 + byte b div 16) mod 16 * 16 + (byte b mod 16 * 4 + byte c div 64) div 4 = byte b"
  "(byte b mod 16 * 4 + byte c div 64) mod 4 * 64 + byte c mod 64 = byte c"
  "byte a div 4 * 4 + byte a mod 4 * 16 div 16 = byte a"
  "(byte a mod 4 * 16 + byte b div 16) mod 16 * 16 + byte b mod 16 * 4 div 4 = byte b"
  by simp_all

lemma b64_quanta_encode: "b64_quanta padded (b64_encode padded s) = Some s"
proof (induction padded s rule: b64_encode.induct)
  case (4 padded a b c s)
  then show ?case by (simp add: sextet_bounds quantum3_def regroup)
next
  case (2 padded a)
  then show ?case
    by (simp add: sextet_bounds b64_final_def regroup b64_val_def [of pad_char])
next
  case (3 padded a b)
  then show ?case
    by (simp add: sextet_bounds b64_final_def regroup b64_val_def [of pad_char] b64_char_not_special)
qed simp

lemma b64_encode_no_newline:
  "c \<in> set (b64_encode padded s) \<Longrightarrow> byte c \<noteq> 10 \<and> byte c \<noteq> 13"
  by (induction padded s rule: b64_encode.induct)
    (auto simp: sextet_bounds b64_char_not_special split: if_splits)

lemma b64_roundtrip [simp]: "b64_decode padded (b64_encode padded s) = Some s"
proof -
  have "filter (\<lambda>c. byte c \<noteq> 10 \<and> byte c \<noteq> 13) (b64_encode padded s) = b64_encode padded s"
    using b64_encode_no_newline by (intro filter_True) blast
  then show ?thesis by (simp add: b64_decode_def b64_quanta_encode)
qed

lemma b64_encode_not_in:
  "c \<notin> set (map b64_char [0..<64]) \<Longrightarrow> c \<noteq> pad_char \<Longrightarrow> c \<notin> set (b64_encode padded s)"
  by (induction padded s rule: b64_encode.induct) (auto simp: sextet_bounds)


section \<open>Decimal integers\<close>

text \<open>The digits of \<^verbatim>\<open>strconv.FormatInt\<close> and of the verb \<^verbatim>\<open>%d\<close> on non-negative values.\<close>

fun decimal :: "nat \<Rightarrow> string" where
  "decimal n = (if n < 10 then [chr (48 + n)] else decimal (n div 10) @ [chr (48 + n mod 10)])"

declare decimal.simps [simp del]

definition is_digit :: "char \<Rightarrow> bool" where
  "is_digit c \<longleftrightarrow> 48 \<le> byte c \<and> byte c \<le> 57"

definition digit_value :: "string \<Rightarrow> nat" where
  "digit_value s = foldl (\<lambda>n c. 10 * n + (byte c - 48)) 0 s"

lemma digit_value_simps [simp]:
  "digit_value [] = 0" "digit_value (s @ [c]) = 10 * digit_value s + (byte c - 48)"
  by (simp_all add: digit_value_def)

lemma decimal_digits: "c \<in> set (decimal n) \<Longrightarrow> is_digit c"
proof (induction n rule: decimal.induct)
  case (1 n)
  show ?case
  proof (cases "n < 10")
    case True
    with "1.prems" show ?thesis by (simp add: decimal.simps [of n] is_digit_def)
  next
    case False
    have "n mod 10 \<le> 9" by simp
    then have "is_digit (chr (48 + n mod 10))" by (simp add: is_digit_def)
    with "1.prems" "1.IH" False show ?thesis by (auto simp: decimal.simps [of n])
  qed
qed

lemma decimal_nonempty [simp]: "decimal n \<noteq> []"
  by (subst decimal.simps) simp

lemma digit_value_decimal [simp]: "digit_value (decimal n) = n"
proof (induction n rule: decimal.induct)
  case (1 n)
  show ?case
  proof (cases "n < 10")
    case True
    then show ?thesis by (simp add: decimal.simps [of n] digit_value_def)
  next
    case False
    have "n mod 10 \<le> 9" by simp
    then have "byte (chr (48 + n mod 10)) = 48 + n mod 10" by simp
    with 1 False show ?thesis by (simp add: decimal.simps [of n])
  qed
qed

text \<open>
  \<^verbatim>\<open>strconv.ParseInt(s, 10, 64)\<close>: an optional sign, one or more digits and nothing else,
  within the range of a signed 64-bit integer.
\<close>

definition ParseInt :: "string \<Rightarrow> int option" where
  "ParseInt s =
     (let neg = (case s of [] \<Rightarrow> False | c # _ \<Rightarrow> c = CHR ''-'');
          ds = (case s of [] \<Rightarrow> [] | c # t \<Rightarrow> if c = CHR ''-'' \<or> c = CHR ''+'' then t else s);
          v = (if neg then - int (digit_value ds) else int (digit_value ds))
      in if ds \<noteq> [] \<and> (\<forall>c \<in> set ds. is_digit c) \<and> min_int64 \<le> v \<and> v \<le> max_int64
         then Some v else None)"

lemma decimal_hd: "\<exists>c t. decimal n = c # t \<and> is_digit c"
  using decimal_digits [of _ n] decimal_nonempty [of n] by (cases "decimal n") auto

lemma ParseInt_decimal: "int n \<le> max_int64 \<Longrightarrow> ParseInt (decimal n) = Some (int n)"
proof -
  assume n: "int n \<le> max_int64"
  obtain c t where d: "decimal n = c # t" and c: "is_digit c" using decimal_hd by blast
  have "c \<noteq> CHR ''-''" "c \<noteq> CHR ''+''" using c by (auto simp: is_digit_def)
  moreover have "digit_value (c # t) = n" using digit_value_decimal [of n] d by simp
  moreover have "\<forall>x \<in> set (c # t). is_digit x" using decimal_digits d by metis
  ultimately show ?thesis using n by (simp add: ParseInt_def d Let_def)
qed

end
