(* ===== verification/Password.thy ===== *)
theory Password
  imports Pairing Go_Codec
begin

text \<open>
  The first factor, \<^verbatim>\<open>identity/password.go\<close>: the encoded Argon2id hash, its parser and the
  comparison. Argon2 itself (\<open>idkey password salt iterations memoryKiB parallelism keyLen\<close>) is
  a parameter.
\<close>


section \<open>Model\<close>

definition argonMemoryKiB :: nat where "argonMemoryKiB = 19 * 1024"
definition argonIterations :: nat where "argonIterations = 2"
definition argonParallelism :: nat where "argonParallelism = 1"
definition argonKeyLen :: nat where "argonKeyLen = 32"
definition argon2idVersion :: nat where "argon2idVersion = 19" \<comment> \<open>\<^verbatim>\<open>argon2.Version\<close>\<close>

record argon2Params =
  p_memoryKiB :: nat \<comment> \<open>uint32\<close>
  p_iterations :: nat \<comment> \<open>uint32\<close>
  p_parallelism :: nat \<comment> \<open>uint8\<close>

type_synonym idkey = "string \<Rightarrow> string \<Rightarrow> nat \<Rightarrow> nat \<Rightarrow> nat \<Rightarrow> nat \<Rightarrow> string"

definition encode_params :: string where
  "encode_params = ''m='' @ decimal argonMemoryKiB @ '',t='' @ decimal argonIterations
                   @ '',p='' @ decimal argonParallelism"

text \<open>\<open>salt\<close> is what the random source delivers, \<open>None\<close> when it fails.\<close>

definition HashPassword :: "idkey \<Rightarrow> string option \<Rightarrow> string \<Rightarrow> auth_error + string" where
  "HashPassword idkey salt password =
     (if password = [] then Inl ErrEmptyPassword
      else case salt of
             None \<Rightarrow> Inl ErrSalt
           | Some s \<Rightarrow>
               let hash = idkey password s argonIterations argonMemoryKiB argonParallelism argonKeyLen
               in Inr (''$argon2id$v='' @ decimal argon2idVersion @ ''$'' @ encode_params @ ''$''
                       @ RawStdEncode s @ ''$'' @ RawStdEncode hash))"

text \<open>
  \<^verbatim>\<open>fmt.Sscanf\<close> for the formats used here: literal text must match, a verb \<^verbatim>\<open>%d\<close> skips
  spaces (a newline that is not preceded by a carriage return is an error), takes the longest run
  of digits, with a sign before it when the operand is a signed integer, and fails when the value
  does not fit the operand. Input after the last verb is not looked at.
\<close>

fun skip_space :: "string \<Rightarrow> string option" where
  "skip_space [] = Some []"
| "skip_space (c # s) =
     (if byte c = 13 \<and> (case s of d # _ \<Rightarrow> byte d = 10 | [] \<Rightarrow> False) then skip_space s
      else if byte c = 10 then None
      else if is_space (byte c) then skip_space s
      else Some (c # s))"

definition scan_digits :: "string \<Rightarrow> (nat \<times> string) option" where
  "scan_digits s =
     (let ds = takeWhile is_digit s
      in if ds = [] then None else Some (digit_value ds, dropWhile is_digit s))"

definition scan_uint32 :: "string \<Rightarrow> (nat \<times> string) option" where
  "scan_uint32 s =
     (case skip_space s of
        None \<Rightarrow> None
      | Some t \<Rightarrow>
          (case scan_digits t of
             None \<Rightarrow> None
           | Some (n, rest) \<Rightarrow> if n < 2 ^ 32 then Some (n, rest) else None))"

definition scan_int :: "string \<Rightarrow> (int \<times> string) option" where
  "scan_int s =
     (case skip_space s of
        None \<Rightarrow> None
      | Some t \<Rightarrow>
          let neg = (case t of c # _ \<Rightarrow> c = CHR ''-'' | [] \<Rightarrow> False);
              u = (case t of c # r \<Rightarrow> if c = CHR ''-'' \<or> c = CHR ''+'' then r else t | [] \<Rightarrow> [])
          in case scan_digits u of
               None \<Rightarrow> None
             | Some (n, rest) \<Rightarrow>
                 let v = (if neg then - int n else int n)
                 in if min_int64 \<le> v \<and> v \<le> max_int64 then Some (v, rest) else None)"

definition scan_lit :: "string \<Rightarrow> string \<Rightarrow> string option" where
  "scan_lit lit s = (if HasPrefix s lit then Some (drop (length lit) s) else None)"

definition scan_version :: "string \<Rightarrow> int option" where
  "scan_version s =
     (case scan_lit ''v='' s of None \<Rightarrow> None | Some t \<Rightarrow> map_option fst (scan_int t))"

definition scan_params :: "string \<Rightarrow> (nat \<times> nat \<times> int) option" where
  "scan_params s =
     (case scan_lit ''m='' s of None \<Rightarrow> None | Some s1 \<Rightarrow>
      case scan_uint32 s1 of None \<Rightarrow> None | Some (m, s2) \<Rightarrow>
      case scan_lit '',t='' s2 of None \<Rightarrow> None | Some s3 \<Rightarrow>
      case scan_uint32 s3 of None \<Rightarrow> None | Some (t, s4) \<Rightarrow>
      case scan_lit '',p='' s4 of None \<Rightarrow> None | Some s5 \<Rightarrow>
      case scan_int s5 of None \<Rightarrow> None | Some (p, _) \<Rightarrow> Some (m, t, p))"

text \<open>Every error of \<^verbatim>\<open>decodeArgon2id\<close> wraps \<^verbatim>\<open>ErrMalformedHash\<close>, \<open>None\<close> here.\<close>

definition decodeArgon2id :: "string \<Rightarrow> (argon2Params \<times> string \<times> string) option" where
  "decodeArgon2id encoded =
     (let parts = split_byte (CHR ''$'') encoded
      in if length parts \<noteq> 6 \<or> parts ! 1 \<noteq> ''argon2id'' then None
         else case scan_version (parts ! 2) of
                None \<Rightarrow> None
              | Some v \<Rightarrow>
                  if v \<noteq> int argon2idVersion then None
                  else case scan_params (parts ! 3) of
                         None \<Rightarrow> None
                       | Some (m, t, p) \<Rightarrow>
                           (case (RawStdDecode (parts ! 4), RawStdDecode (parts ! 5)) of
                              (Some salt, Some hash) \<Rightarrow>
                                if salt = [] \<or> hash = [] then None
                                else Some (\<lparr>p_memoryKiB = m, p_iterations = t,
                                            p_parallelism = nat (p mod 256)\<rparr>, salt, hash)
                            | _ \<Rightarrow> None))"

text \<open>\<^verbatim>\<open>subtle.ConstantTimeCompare\<close> is equality of the two byte strings.\<close>

definition ComparePassword :: "idkey \<Rightarrow> string \<Rightarrow> string \<Rightarrow> auth_error option" where
  "ComparePassword idkey password encoded =
     (case decodeArgon2id encoded of
        None \<Rightarrow> Some ErrMalformedHash
      | Some (ps, salt, hash) \<Rightarrow>
          let candidate = idkey password salt (p_iterations ps) (p_memoryKiB ps)
                            (p_parallelism ps) (length hash mod 2 ^ 32)
          in if candidate \<noteq> hash then Some ErrPasswordMismatch else None)"

record PasswordVerifier =
  pv_encoded :: string

definition NewPasswordVerifier :: "string \<Rightarrow> PasswordVerifier" where
  "NewPasswordVerifier h = \<lparr>pv_encoded = h\<rparr>"

definition PasswordVerify :: "idkey \<Rightarrow> PasswordVerifier \<Rightarrow> string \<Rightarrow> auth_error option" where
  "PasswordVerify idkey p evidence = ComparePassword idkey evidence (pv_encoded p)"


section \<open>Parsing what was printed\<close>

lemma digit_not_space: "is_digit c \<Longrightarrow> skip_space (c # s) = Some (c # s)"
  by (auto simp: is_digit_def is_space_def)

lemma skip_space_decimal: "skip_space (decimal n @ s) = Some (decimal n @ s)"
proof -
  obtain c t where "decimal n = c # t" "is_digit c" using decimal_hd by blast
  then show ?thesis using digit_not_space by simp
qed

lemma scan_digits_decimal:
  assumes "s = [] \<or> \<not> is_digit (hd s)"
  shows "scan_digits (decimal n @ s) = Some (n, s)"
proof -
  have all: "\<forall>c \<in> set (decimal n). is_digit c" using decimal_digits by blast
  have "takeWhile is_digit s = []" "dropWhile is_digit s = s" using assms by (cases s; auto)+
  then show ?thesis using all by (simp add: scan_digits_def takeWhile_append2 dropWhile_append2)
qed

lemma scan_uint32_decimal:
  "n < 2 ^ 32 \<Longrightarrow> s = [] \<or> \<not> is_digit (hd s) \<Longrightarrow> scan_uint32 (decimal n @ s) = Some (n, s)"
  by (simp add: scan_uint32_def skip_space_decimal scan_digits_decimal)

lemma scan_int_decimal:
  assumes "int n \<le> max_int64" "s = [] \<or> \<not> is_digit (hd s)"
  shows "scan_int (decimal n @ s) = Some (int n, s)"
proof -
  obtain c t where d: "decimal n = c # t" "is_digit c" using decimal_hd by blast
  then have "c \<noteq> CHR ''-''" "c \<noteq> CHR ''+''" by (auto simp: is_digit_def)
  with assms d scan_digits_decimal [OF assms(2), of n] show ?thesis
    using digit_not_space [of c "t @ s"] by (simp add: scan_int_def Let_def)
qed

lemma scan_lit_append [simp]: "scan_lit lit (lit @ s) = Some s"
  by (simp add: scan_lit_def HasPrefix_def)

lemma digit_literal [simp]: "\<not> is_digit (CHR '','')"
  by (simp add: is_digit_def)

lemma scan_params_encoded:
  "scan_params encode_params = Some (argonMemoryKiB, argonIterations, int argonParallelism)"
proof -
  have "scan_uint32 (decimal argonMemoryKiB @ '',t='' @ x) = Some (argonMemoryKiB, '',t='' @ x)"
    "scan_uint32 (decimal argonIterations @ '',p='' @ x) = Some (argonIterations, '',p='' @ x)"
    "scan_int (decimal argonParallelism) = Some (int argonParallelism, [])" for x
    using scan_int_decimal [of argonParallelism "[]"]
    by (simp_all add: scan_uint32_decimal argonMemoryKiB_def argonIterations_def argonParallelism_def)
  then show ?thesis
    unfolding scan_params_def encode_params_def by (simp only: scan_lit_append option.case prod.case)
qed

lemma scan_version_encoded: "scan_version (''v='' @ decimal argon2idVersion) = Some (int argon2idVersion)"
  using scan_int_decimal [of argon2idVersion "[]"]
  unfolding scan_version_def scan_lit_append by (simp add: argon2idVersion_def)

lemmas scan_simps = scan_version_def scan_params_def scan_lit_def scan_int_def scan_uint32_def
  scan_digits_def HasPrefix_def digit_value_def is_digit_def is_space_def Let_def

lemma no_dollar_decimal: "CHR ''$'' \<notin> set (decimal n)"
  using decimal_digits [of "CHR ''$''" n] by (auto simp: is_digit_def)

lemma no_dollar_base64: "CHR ''$'' \<notin> set (b64_encode padded s)"
proof (rule b64_encode_not_in)
  show "CHR ''$'' \<notin> set (map b64_char [0..<64])" by code_simp
qed simp

lemma no_dollar_params: "CHR ''$'' \<notin> set encode_params"
  by (simp add: encode_params_def no_dollar_decimal)

lemma HashPassword_parts:
  assumes "HashPassword idkey (Some salt) password = Inr encoded"
  shows "split_byte (CHR ''$'') encoded =
     [[], ''argon2id'', ''v='' @ decimal argon2idVersion, encode_params, RawStdEncode salt,
      RawStdEncode (idkey password salt argonIterations argonMemoryKiB argonParallelism argonKeyLen)]"
proof -
  let ?h = "idkey password salt argonIterations argonMemoryKiB argonParallelism argonKeyLen"
  let ?parts = "[[], ''argon2id'', ''v='' @ decimal argon2idVersion, encode_params, RawStdEncode salt,
      RawStdEncode ?h]"
  have "encoded = join_byte (CHR ''$'') ?parts"
    using assms by (simp add: HashPassword_def Let_def split: if_splits)
  moreover have "\<forall>p \<in> set ?parts. CHR ''$'' \<notin> set p"
    by (simp add: no_dollar_decimal no_dollar_base64 no_dollar_params)
  ultimately show ?thesis using split_join [of ?parts "CHR ''$''"] by simp
qed

lemma decode_parts:
  assumes "split_byte (CHR ''$'') encoded = [p0, ''argon2id'', p2, p3, p4, p5]"
    and "scan_version p2 = Some (int argon2idVersion)" "scan_params p3 = Some (m, t, p)"
    and "RawStdDecode p4 = Some salt" "RawStdDecode p5 = Some hash" "salt \<noteq> []" "hash \<noteq> []"
  shows "decodeArgon2id encoded =
     Some (\<lparr>p_memoryKiB = m, p_iterations = t, p_parallelism = nat (p mod 256)\<rparr>, salt, hash)"
  using assms(2-) by (simp add: decodeArgon2id_def Let_def assms(1))

lemma decode_encoded:
  assumes "HashPassword idkey (Some salt) password = Inr encoded" and "salt \<noteq> []"
    and "idkey password salt argonIterations argonMemoryKiB argonParallelism argonKeyLen \<noteq> []"
  shows "decodeArgon2id encoded =
     Some (\<lparr>p_memoryKiB = argonMemoryKiB, p_iterations = argonIterations,
            p_parallelism = argonParallelism\<rparr>, salt,
           idkey password salt argonIterations argonMemoryKiB argonParallelism argonKeyLen)"
proof -
  have "nat (int argonParallelism mod 256) = argonParallelism" by (simp add: argonParallelism_def)
  then show ?thesis
    using decode_parts [OF HashPassword_parts [OF assms(1)] scan_version_encoded
        scan_params_encoded b64_roundtrip b64_roundtrip assms(2,3)]
    by (simp only:)
qed

text \<open>
  C40. The encoded hash carries everything the check needs: what \<^verbatim>\<open>HashPassword\<close> prints,
  \<^verbatim>\<open>decodeArgon2id\<close> reads back as the same parameters, salt and hash, for every Argon2
  function that returns a non-empty key.
\<close>

theorem decode_HashPassword:
  assumes "HashPassword idkey (Some salt) password = Inr encoded" and "salt \<noteq> []"
    and "idkey password salt argonIterations argonMemoryKiB argonParallelism argonKeyLen \<noteq> []"
  shows "decodeArgon2id encoded =
     Some (\<lparr>p_memoryKiB = argonMemoryKiB, p_iterations = argonIterations,
            p_parallelism = argonParallelism\<rparr>, salt,
           idkey password salt argonIterations argonMemoryKiB argonParallelism argonKeyLen)"
  using assms by (rule decode_encoded)

theorem decode_HashPassword_witness:
  "\<exists>encoded. HashPassword (\<lambda>p s t m q l. p @ s) (Some ''salt'') ''pw'' = Inr encoded \<and>
     decodeArgon2id encoded = Some (\<lparr>p_memoryKiB = 19456, p_iterations = 2, p_parallelism = 1\<rparr>,
       ''salt'', ''pwsalt'')"
proof -
  obtain encoded where "HashPassword (\<lambda>p s t m q l. p @ s) (Some ''salt'') ''pw'' = Inr encoded"
    by (simp add: HashPassword_def)
  with decode_HashPassword [OF this] show ?thesis
    by (simp add: argonMemoryKiB_def argonIterations_def argonParallelism_def)
qed

text \<open>
  Soundness and completeness of the password check: a hash of one password accepts another one
  exactly when Argon2 maps both to the same key.
\<close>

lemma ComparePassword_HashPassword:
  assumes "HashPassword idkey (Some salt) password = Inr encoded" and "salt \<noteq> []"
    and "\<And>p s t m q l. length (idkey p s t m q l) = l"
  shows "ComparePassword idkey attempt encoded = None \<longleftrightarrow>
     idkey attempt salt argonIterations argonMemoryKiB argonParallelism argonKeyLen
     = idkey password salt argonIterations argonMemoryKiB argonParallelism argonKeyLen"
proof -
  let ?key = "\<lambda>p. idkey p salt argonIterations argonMemoryKiB argonParallelism argonKeyLen"
  have len: "length (?key password) = argonKeyLen" by (rule assms(3))
  then have "?key password \<noteq> []" by (auto simp: argonKeyLen_def)
  then have "decodeArgon2id encoded = Some (\<lparr>p_memoryKiB = argonMemoryKiB,
      p_iterations = argonIterations, p_parallelism = argonParallelism\<rparr>, salt, ?key password)"
    by (intro decode_encoded assms)
  then show ?thesis using len by (simp add: ComparePassword_def Let_def argonKeyLen_def)
qed

text \<open>
  The parser is laxer than its description: trailing text after the version and after the
  parallelism is ignored, an iteration count of zero and a parallelism that is zero modulo 256
  are accepted, so a hash with such parameters reaches Argon2 instead of being reported malformed.
\<close>

lemma decodeArgon2id_accepts_deviations:
  "decodeArgon2id ''$argon2id$v=19junk$m=1,t=0,p=256junk$AAAA$AAAA'' =
     Some (\<lparr>p_memoryKiB = 1, p_iterations = 0, p_parallelism = 0\<rparr>,
           [CHR 0x00, CHR 0x00, CHR 0x00], [CHR 0x00, CHR 0x00, CHR 0x00])"
proof -
  have parts: "split_byte (CHR ''$'') ''$argon2id$v=19junk$m=1,t=0,p=256junk$AAAA$AAAA''
      = [[], ''argon2id'', ''v=19junk'', ''m=1,t=0,p=256junk'', ''AAAA'', ''AAAA'']"
    by simp
  have version: "scan_version ''v=19junk'' = Some (int argon2idVersion)"
    by (simp add: scan_simps argon2idVersion_def)
  have params: "scan_params ''m=1,t=0,p=256junk'' = Some (1, 0, 256)"
    by (simp add: scan_simps)
  have raw: "RawStdDecode ''AAAA'' = Some [CHR 0x00, CHR 0x00, CHR 0x00]"
    by (simp add: b64_decode_def b64_val_def quantum3_def char_of_def)
  show ?thesis using decode_parts [OF parts version params raw raw] by simp
qed

end
