(* ===== verification/Totp.thy ===== *)
theory Totp
  imports Pairing
begin

text \<open>
  The second factor, \<^verbatim>\<open>identity/totp.go\<close>. \<^verbatim>\<open>totp.ValidateCustom\<close> is the parameter
  \<open>validate code secret now opts\<close>: \<open>None\<close> an error, otherwise the verdict.
\<close>


section \<open>Model\<close>

definition totpPeriod :: duration where [time_simps]: "totpPeriod = 30 * second"
definition totpSkew :: nat where "totpSkew = 1"

datatype otp_algorithm = AlgorithmSHA1 | AlgorithmSHA256 | AlgorithmSHA512 | AlgorithmMD5

record ValidateOpts =
  vo_Period :: int \<comment> \<open>seconds\<close>
  vo_Skew :: nat
  vo_Digits :: nat
  vo_Algorithm :: otp_algorithm

type_synonym totp_validate = "string \<Rightarrow> string \<Rightarrow> instant \<Rightarrow> ValidateOpts \<Rightarrow> bool option"

record TOTPVerifier =
  tv_secret :: string
  tv_lastAccepted :: string

definition NewTOTPVerifier :: "string \<Rightarrow> TOTPVerifier" where
  "NewTOTPVerifier secret = \<lparr>tv_secret = secret, tv_lastAccepted = []\<rparr>"

definition totp_options :: ValidateOpts where
  "totp_options = \<lparr>vo_Period = totpPeriod div second, vo_Skew = totpSkew, vo_Digits = 6,
                   vo_Algorithm = AlgorithmSHA1\<rparr>"

definition TOTPVerify ::
    "totp_validate \<Rightarrow> instant \<Rightarrow> TOTPVerifier \<Rightarrow> string \<Rightarrow> TOTPVerifier \<times> auth_error option" where
  "TOTPVerify validate now t code =
     (if code = [] then (t, Some ErrTOTPCodeInvalid)
      else if tv_lastAccepted t \<noteq> [] \<and> code = tv_lastAccepted t then (t, Some ErrTOTPCodeReused)
      else case validate code (tv_secret t) now totp_options of
             None \<Rightarrow> (t, Some ErrTOTPCodeInvalid)
           | Some False \<Rightarrow> (t, Some ErrTOTPCodeInvalid)
           | Some True \<Rightarrow> (t\<lparr>tv_lastAccepted := code\<rparr>, None))"

text \<open>A sequence of codes presented to one verifier, with the verdicts in order.\<close>

fun totp_run ::
    "totp_validate \<Rightarrow> TOTPVerifier \<Rightarrow> (instant \<times> string) list \<Rightarrow> TOTPVerifier \<times> auth_error option list"
  where
  "totp_run validate t [] = (t, [])"
| "totp_run validate t ((now, code) # rest) =
     (let (t', r) = TOTPVerify validate now t code;
          (t'', rs) = totp_run validate t' rest
      in (t'', r # rs))"


section \<open>Properties\<close>

lemma TOTPVerify_accept:
  "TOTPVerify validate now t code = (t', None) \<Longrightarrow>
     validate code (tv_secret t) now totp_options = Some True \<and> code \<noteq> tv_lastAccepted t \<and> code \<noteq> [] \<and>
     t' = t\<lparr>tv_lastAccepted := code\<rparr>"
  by (auto simp: TOTPVerify_def split: if_splits option.splits bool.splits)

lemma TOTPVerify_reject: "TOTPVerify validate now t code = (t', Some e) \<Longrightarrow> t' = t"
  by (auto simp: TOTPVerify_def split: if_splits option.splits bool.splits)

lemma TOTPVerify_secret [simp]: "tv_secret (fst (TOTPVerify validate now t code)) = tv_secret t"
  by (auto simp: TOTPVerify_def split: option.splits bool.splits)

text \<open>
  An accepted code is never accepted twice in a row: after a code has been accepted, it is
  refused as reused at every later instant for as long as no other code is accepted, however many
  rejected guesses come in between and whatever the validator says.
\<close>

lemma accepted_code_not_replayed:
  assumes "TOTPVerify validate now t code = (u, None)"
    and "totp_run validate u guesses = (w, verdicts)" and "None \<notin> set verdicts"
  shows "TOTPVerify validate now' w code = (w, Some ErrTOTPCodeReused)"
proof -
  have c: "tv_lastAccepted u = code" "code \<noteq> []" using TOTPVerify_accept [OF assms(1)] by simp_all
  have "w = u" using assms(2,3)
  proof (induction guesses arbitrary: verdicts)
    case Nil
    then show ?case by simp
  next
    case (Cons g gs)
    obtain n g' where g: "g = (n, g')" by (cases g)
    obtain t' r where v: "TOTPVerify validate n u g' = (t', r)" by fastforce
    obtain rs where rs: "totp_run validate t' gs = (w, rs)" "verdicts = r # rs"
      using Cons.prems(1) g v by (auto split: prod.splits)
    then obtain e where "r = Some e" using Cons.prems(2) by (cases r) auto
    then have "t' = u" using v TOTPVerify_reject by blast
    with Cons.IH rs Cons.prems(2) show ?case by simp
  qed
  with c show ?thesis by (simp add: TOTPVerify_def)
qed

lemma accepted_code_not_replayed_example:
  "TOTPVerify (\<lambda>c s n opts. Some (c = ''111111'')) 9
     \<lparr>tv_secret = ''S'', tv_lastAccepted = ''111111''\<rparr> ''111111''
   = (\<lparr>tv_secret = ''S'', tv_lastAccepted = ''111111''\<rparr>, Some ErrTOTPCodeReused)"
  by (rule accepted_code_not_replayed
      [where now = 1 and t = "NewTOTPVerifier ''S''" and guesses = "[(2, ''222222'')]"
        and u = "\<lparr>tv_secret = ''S'', tv_lastAccepted = ''111111''\<rparr>"
        and verdicts = "[Some ErrTOTPCodeInvalid]"])
    (simp_all add: TOTPVerify_def NewTOTPVerifier_def)

text \<open>
  The documented verdict of the library: a code is valid when it is the one-time password of a
  time step at most \<open>vo_Skew\<close> steps away from the current one. \<open>hotp secret k\<close> is the password
  of step \<open>k\<close>.
\<close>

definition time_step :: "ValidateOpts \<Rightarrow> instant \<Rightarrow> int" where
  "time_step opts now = now div (second * vo_Period opts)"

definition rfc6238 :: "(string \<Rightarrow> int \<Rightarrow> string) \<Rightarrow> totp_validate" where
  "rfc6238 hotp code secret now opts =
     Some (\<exists>k \<in> set [time_step opts now - int (vo_Skew opts) .. time_step opts now + int (vo_Skew opts)].
             hotp secret k = code)"

lemma time_step_window:
  "k * totpPeriod \<le> now \<Longrightarrow> now < (k + 1) * totpPeriod \<Longrightarrow> time_step totp_options now = k"
  by (simp add: time_step_def totp_options_def time_simps int_div_pos_eq)

lemma rfc6238_accepts:
  assumes "k * totpPeriod \<le> now" "now < (k + 1) * totpPeriod" "\<bar>j - k\<bar> \<le> 1"
  shows "rfc6238 hotp (hotp secret j) secret now totp_options = Some True"
proof -
  have "j \<in> set [k - 1 .. k + 1]" using assms(3) by auto
  then show ?thesis
    using time_step_window [OF assms(1,2)]
    by (auto simp: rfc6238_def totp_options_def totpSkew_def intro!: bexI [of _ j])
qed

text \<open>
  Only the last accepted code is remembered: with the validator the library documents, the
  code of the current thirty-second step and then the code of the next step are accepted, after
  which the first code is accepted a second time, all within one step, so a code is replayable
  inside its own validity window.
\<close>

lemma older_code_replayable:
  assumes "k * totpPeriod \<le> t1" "t3 < (k + 1) * totpPeriod" "t1 \<le> t2" "t2 \<le> t3"
    and "hotp secret k \<noteq> []" "hotp secret (k + 1) \<noteq> []" "hotp secret k \<noteq> hotp secret (k + 1)"
  shows "snd (totp_run (rfc6238 hotp) (NewTOTPVerifier secret)
          [(t1, hotp secret k), (t2, hotp secret (k + 1)), (t3, hotp secret k)]) = [None, None, None]"
proof -
  have w: "k * totpPeriod \<le> t \<and> t < (k + 1) * totpPeriod" if "t \<in> {t1, t2, t3}" for t
    using assms(1-4) that by auto
  have a: "rfc6238 hotp (hotp secret j) secret t totp_options = Some True"
    if "t \<in> {t1, t2, t3}" "\<bar>j - k\<bar> \<le> 1" for t j
    using w [OF that(1)] that(2) rfc6238_accepts by blast
  show ?thesis
    using assms(5-7) a by (simp add: TOTPVerify_def NewTOTPVerifier_def)
qed

lemma older_code_replayable_example:
  "snd (totp_run (rfc6238 (\<lambda>secret k. if even k then ''135790'' else ''246801'')) (NewTOTPVerifier ''S'')
     [(1, ''135790''), (2, ''246801''), (3, ''135790'')]) = [None, None, None]"
  using older_code_replayable [where k = 0 and ?t1.0 = 1 and ?t2.0 = 2 and ?t3.0 = 3 and secret = "''S''"
      and hotp = "\<lambda>secret k. if even k then ''135790'' else ''246801''"]
  by (simp add: time_simps)

end
