(* ===== verification/Webauthn.thy ===== *)
theory Webauthn
  imports Pairing
begin

text \<open>
  The third factor, \<^verbatim>\<open>identity/webauthn.go\<close>. The library is a parameter: \<open>wa_new\<close> builds a
  relying party from its configuration or rejects it, \<open>wa_beginRegistration\<close> and \<open>wa_beginLogin\<close>
  start a ceremony (\<open>None\<close> on an error), \<open>wa_parse\<close> parses an assertion, and \<open>wa_login\<close> validates
  one against a user and a session. The options for the client are opaque text.
\<close>

record ('wa, 'user, 'sess, 'parsed) webauthn_lib =
  wa_new :: "string \<Rightarrow> string \<Rightarrow> string list \<Rightarrow> 'wa option"
  wa_beginRegistration :: "'wa \<Rightarrow> 'user \<Rightarrow> (string \<times> 'sess) option"
  wa_beginLogin :: "'wa \<Rightarrow> 'user \<Rightarrow> (string \<times> 'sess) option"
  wa_parse :: "string \<Rightarrow> 'parsed option"
  wa_login :: "'wa \<Rightarrow> 'user \<Rightarrow> 'sess \<Rightarrow> 'parsed \<Rightarrow> bool"

record ('wa, 'user, 'sess) WebAuthnVerifier =
  wv_wa :: "'wa option"
  wv_user :: "'user option"
  wv_session :: "'sess option"

definition NewWebAuthnVerifier ::
    "('wa, 'user, 'sess, 'parsed) webauthn_lib \<Rightarrow> string \<Rightarrow> string \<Rightarrow> string list \<Rightarrow>
     ('wa, 'user, 'sess) WebAuthnVerifier" where
  "NewWebAuthnVerifier lib rpID rpDisplayName origins =
     \<lparr>wv_wa = (if rpID = [] then None else wa_new lib rpID rpDisplayName origins),
      wv_user = None, wv_session = None\<rparr>"

definition Configured :: "('wa, 'user, 'sess) WebAuthnVerifier \<Rightarrow> bool" where
  "Configured v \<longleftrightarrow> wv_wa v \<noteq> None"

definition BeginRegistration ::
    "('wa, 'user, 'sess, 'parsed) webauthn_lib \<Rightarrow> ('wa, 'user, 'sess) WebAuthnVerifier \<Rightarrow> 'user \<Rightarrow>
     auth_error + string \<times> 'sess" where
  "BeginRegistration lib v u =
     (case wv_wa v of
        None \<Rightarrow> Inl ErrRelyingPartyNotConfigured
      | Some wa \<Rightarrow> (case wa_beginRegistration lib wa u of None \<Rightarrow> Inl ErrCeremony | Some r \<Rightarrow> Inr r))"

definition BeginLogin ::
    "('wa, 'user, 'sess, 'parsed) webauthn_lib \<Rightarrow> ('wa, 'user, 'sess) WebAuthnVerifier \<Rightarrow> 'user \<Rightarrow>
     auth_error + string \<times> 'sess" where
  "BeginLogin lib v u =
     (case wv_wa v of
        None \<Rightarrow> Inl ErrRelyingPartyNotConfigured
      | Some wa \<Rightarrow> (case wa_beginLogin lib wa u of None \<Rightarrow> Inl ErrCeremony | Some r \<Rightarrow> Inr r))"

definition BindSession ::
    "('wa, 'user, 'sess) WebAuthnVerifier \<Rightarrow> 'user \<Rightarrow> 'sess \<Rightarrow> ('wa, 'user, 'sess) WebAuthnVerifier"
  where "BindSession v u s = v\<lparr>wv_user := Some u, wv_session := Some s\<rparr>"

definition WebAuthnVerify ::
    "('wa, 'user, 'sess, 'parsed) webauthn_lib \<Rightarrow> ('wa, 'user, 'sess) WebAuthnVerifier \<Rightarrow> string \<Rightarrow>
     auth_error option" where
  "WebAuthnVerify lib v evidence =
     (case wv_wa v of
        None \<Rightarrow> Some ErrRelyingPartyNotConfigured
      | Some wa \<Rightarrow>
          (case (wv_user v, wv_session v) of
             (Some u, Some s) \<Rightarrow>
               (case wa_parse lib evidence of
                  None \<Rightarrow> Some ErrPasskeyParse
                | Some p \<Rightarrow> if wa_login lib wa u s p then None else Some ErrPasskeyValidate)
           | _ \<Rightarrow> Some ErrPasskeyNotBound))"

text \<open>The verifier accepts only when it is configured, bound, and the library accepts.\<close>

lemma WebAuthnVerify_accept:
  "WebAuthnVerify lib v evidence = None \<longleftrightarrow>
     (\<exists>wa u s p. wv_wa v = Some wa \<and> wv_user v = Some u \<and> wv_session v = Some s \<and>
        wa_parse lib evidence = Some p \<and> wa_login lib wa u s p)"
  by (auto simp: WebAuthnVerify_def split: option.splits)

lemma new_verifier_unbound [simp]:
  "wv_session (NewWebAuthnVerifier lib rpID name origins) = None"
  by (simp add: NewWebAuthnVerifier_def)

lemma unbound_rejects: "wv_session v = None \<Longrightarrow> WebAuthnVerify lib v evidence \<noteq> None"
  by (simp add: WebAuthnVerify_accept)

end
