(* ===== verification/Database.thy ===== *)
theory Database
  imports Prelude "HOL-Library.Multiset" "HOL-Library.Option_ord"
begin

text \<open>
  The SQLite storage of \<^verbatim>\<open>db/db.go\<close>: the two tables with the constraints of the schema, and
  one function per query with the meaning of its SQL text. Whether the engine fails a statement
  is an argument of the operation, and so is the order of rows that compare equal.
\<close>


section \<open>Model\<close>

datatype db_error = NoRows | EngineError | ConstraintError | ScanError

text \<open>A row of each table; \<open>None\<close> is \<^verbatim>\<open>NULL\<close>.\<close>

record session_row =
  sr_id :: string
  sr_name :: "string option"
  sr_tmux :: string
  sr_cwd :: "string option"
  sr_shell :: "string option"
  sr_status :: "string option"
  sr_created :: "int option"
  sr_active :: "int option"

record device_row =
  dr_id :: string
  dr_name :: "string option"
  dr_platform :: "string option"
  dr_pubkey :: string
  dr_paired :: "int option"
  dr_seen :: "int option"
  dr_revoked :: "int option"

record DB =
  sessions :: "session_row list"
  devices :: "device_row list"

text \<open>The Go structs the queries fill.\<close>

record Session =
  s_ID :: string
  s_Name :: string
  s_TmuxSession :: string
  s_Cwd :: string
  s_Shell :: string
  s_Status :: string
  s_CreatedAt :: int
  s_LastActiveAt :: int

record Device =
  d_ID :: string
  d_Name :: string
  d_Platform :: string
  d_PubKey :: string
  d_PairedAt :: int
  d_LastSeenAt :: int
  d_Revoked :: bool

definition StatusOpen :: string where "StatusOpen = ''open''"
definition StatusClosed :: string where "StatusClosed = ''closed''"

definition emptyDB :: DB where
  "emptyDB = \<lparr>sessions = [], devices = []\<rparr>"

abbreviation coalesce :: "'a \<Rightarrow> 'a option \<Rightarrow> 'a" where
  "coalesce d x \<equiv> (case x of None \<Rightarrow> d | Some v \<Rightarrow> v)"

text \<open>The schema's constraints on a new sessions row: the key is fresh, the CHECK holds.\<close>

definition session_constraints :: "session_row list \<Rightarrow> session_row \<Rightarrow> bool" where
  "session_constraints rows r \<longleftrightarrow>
     (\<forall>q \<in> set rows. sr_id q \<noteq> sr_id r) \<and>
     (case sr_status r of None \<Rightarrow> True | Some st \<Rightarrow> st = ''open'' \<or> st = ''closed'')"

definition CreateSession :: "bool \<Rightarrow> int \<Rightarrow> DB \<Rightarrow> Session \<Rightarrow> (db_error + unit) \<times> DB" where
  "CreateSession fault now db s =
     (let s1 = (if s_CreatedAt s = 0 then s\<lparr>s_CreatedAt := now\<rparr> else s);
          s2 = (if s_LastActiveAt s1 = 0 then s1\<lparr>s_LastActiveAt := now\<rparr> else s1);
          s3 = (if s_Status s2 = [] then s2\<lparr>s_Status := StatusOpen\<rparr> else s2);
          row = \<lparr>sr_id = s_ID s3, sr_name = Some (s_Name s3), sr_tmux = s_TmuxSession s3,
                 sr_cwd = Some (s_Cwd s3), sr_shell = Some (s_Shell s3),
                 sr_status = Some (s_Status s3), sr_created = Some (s_CreatedAt s3),
                 sr_active = Some (s_LastActiveAt s3)\<rparr>
      in if fault then (Inl EngineError, db)
         else if \<not> session_constraints (sessions db) row then (Inl ConstraintError, db)
         else (Inr (), db\<lparr>sessions := sessions db @ [row]\<rparr>))"

definition scan_session :: "session_row \<Rightarrow> db_error + Session" where
  "scan_session r =
     (case sr_status r of
        None \<Rightarrow> Inl ScanError
      | Some st \<Rightarrow> Inr \<lparr>s_ID = sr_id r, s_Name = coalesce [] (sr_name r),
                        s_TmuxSession = sr_tmux r, s_Cwd = coalesce [] (sr_cwd r),
                        s_Shell = coalesce [] (sr_shell r), s_Status = st,
                        s_CreatedAt = coalesce 0 (sr_created r),
                        s_LastActiveAt = coalesce 0 (sr_active r)\<rparr>)"

fun scan_all :: "('r \<Rightarrow> db_error + 's) \<Rightarrow> 'r list \<Rightarrow> db_error + 's list" where
  "scan_all f [] = Inr []"
| "scan_all f (r # rs) =
     (case f r of
        Inl e \<Rightarrow> Inl e
      | Inr s \<Rightarrow> (case scan_all f rs of Inl e \<Rightarrow> Inl e | Inr ss \<Rightarrow> Inr (s # ss)))"

definition GetSession :: "bool \<Rightarrow> DB \<Rightarrow> string \<Rightarrow> db_error + Session" where
  "GetSession fault db sid =
     (if fault then Inl EngineError
      else case find (\<lambda>r. sr_id r = sid) (sessions db) of
             None \<Rightarrow> Inl NoRows
           | Some r \<Rightarrow> scan_session r)"

text \<open>\<open>order\<close> is the engine's \<^verbatim>\<open>ORDER BY last_active_at DESC\<close>.\<close>

definition ListOpenSessions ::
    "(session_row list \<Rightarrow> session_row list) \<Rightarrow> bool \<Rightarrow> DB \<Rightarrow> db_error + Session list" where
  "ListOpenSessions order fault db =
     (if fault then Inl EngineError
      else scan_all scan_session
             (order (filter (\<lambda>r. sr_status r = Some StatusOpen) (sessions db))))"

text \<open>An \<^verbatim>\<open>UPDATE ... WHERE\<close>: the new rows and the number of rows affected.\<close>

definition sql_update :: "('r \<Rightarrow> bool) \<Rightarrow> ('r \<Rightarrow> 'r) \<Rightarrow> 'r list \<Rightarrow> 'r list \<times> nat" where
  "sql_update cond f rows =
     (map (\<lambda>r. if cond r then f r else r) rows, length (filter cond rows))"

definition requireOneRow :: "nat \<Rightarrow> db_error + unit" where
  "requireOneRow n = (if n = 0 then Inl NoRows else Inr ())"

definition RenameSession :: "bool \<Rightarrow> DB \<Rightarrow> string \<Rightarrow> string \<Rightarrow> (db_error + unit) \<times> DB" where
  "RenameSession fault db sid name =
     (if fault then (Inl EngineError, db)
      else let (rows, n) = sql_update (\<lambda>r. sr_id r = sid) (\<lambda>r. r\<lparr>sr_name := Some name\<rparr>) (sessions db)
           in (requireOneRow n, db\<lparr>sessions := rows\<rparr>))"

definition CloseSession :: "bool \<Rightarrow> int \<Rightarrow> DB \<Rightarrow> string \<Rightarrow> (db_error + unit) \<times> DB" where
  "CloseSession fault now db sid =
     (if fault then (Inl EngineError, db)
      else let (rows, n) = sql_update (\<lambda>r. sr_id r = sid \<and> sr_status r = Some StatusOpen)
                 (\<lambda>r. r\<lparr>sr_status := Some StatusClosed, sr_active := Some now\<rparr>) (sessions db)
           in (requireOneRow n, db\<lparr>sessions := rows\<rparr>))"

definition TouchSession :: "bool \<Rightarrow> int \<Rightarrow> DB \<Rightarrow> string \<Rightarrow> (db_error + unit) \<times> DB" where
  "TouchSession fault now db sid =
     (if fault then (Inl EngineError, db)
      else (Inr (), db\<lparr>sessions := fst (sql_update (\<lambda>r. sr_id r = sid)
                                          (\<lambda>r. r\<lparr>sr_active := Some now\<rparr>) (sessions db))\<rparr>))"

definition PairDevice :: "bool \<Rightarrow> int \<Rightarrow> DB \<Rightarrow> Device \<Rightarrow> (db_error + unit) \<times> DB" where
  "PairDevice fault now db dev =
     (let d1 = (if d_PairedAt dev = 0 then dev\<lparr>d_PairedAt := now\<rparr> else dev);
          row = \<lparr>dr_id = d_ID d1, dr_name = Some (d_Name d1), dr_platform = Some (d_Platform d1),
                 dr_pubkey = d_PubKey d1, dr_paired = Some (d_PairedAt d1),
                 dr_seen = Some (d_PairedAt d1), dr_revoked = Some 0\<rparr>
      in if fault then (Inl EngineError, db)
         else if \<exists>q \<in> set (devices db). dr_id q = dr_id row then (Inl ConstraintError, db)
         else (Inr (), db\<lparr>devices := devices db @ [row]\<rparr>))"

definition scan_device :: "device_row \<Rightarrow> db_error + Device" where
  "scan_device r =
     (case dr_revoked r of
        None \<Rightarrow> Inl ScanError
      | Some n \<Rightarrow> Inr \<lparr>d_ID = dr_id r, d_Name = coalesce [] (dr_name r),
                       d_Platform = coalesce [] (dr_platform r), d_PubKey = dr_pubkey r,
                       d_PairedAt = coalesce 0 (dr_paired r),
                       d_LastSeenAt = coalesce 0 (dr_seen r), d_Revoked = (n \<noteq> 0)\<rparr>)"

definition GetDevice :: "bool \<Rightarrow> DB \<Rightarrow> string \<Rightarrow> db_error + Device" where
  "GetDevice fault db did =
     (if fault then Inl EngineError
      else case find (\<lambda>r. dr_id r = did) (devices db) of
             None \<Rightarrow> Inl NoRows
           | Some r \<Rightarrow> scan_device r)"

definition ListDevices ::
    "(device_row list \<Rightarrow> device_row list) \<Rightarrow> bool \<Rightarrow> DB \<Rightarrow> db_error + Device list" where
  "ListDevices order fault db =
     (if fault then Inl EngineError else scan_all scan_device (order (devices db)))"

definition RevokeDevice :: "bool \<Rightarrow> DB \<Rightarrow> string \<Rightarrow> (db_error + unit) \<times> DB" where
  "RevokeDevice fault db did =
     (if fault then (Inl EngineError, db)
      else let (rows, n) = sql_update (\<lambda>r. dr_id r = did) (\<lambda>r. r\<lparr>dr_revoked := Some 1\<rparr>) (devices db)
           in (requireOneRow n, db\<lparr>devices := rows\<rparr>))"

definition TouchDevice :: "bool \<Rightarrow> int \<Rightarrow> DB \<Rightarrow> string \<Rightarrow> (db_error + unit) \<times> DB" where
  "TouchDevice fault now db did =
     (if fault then (Inl EngineError, db)
      else (Inr (), db\<lparr>devices := fst (sql_update (\<lambda>r. dr_id r = did)
                                         (\<lambda>r. r\<lparr>dr_seen := Some now\<rparr>) (devices db))\<rparr>))"

text \<open>Every statement the daemon sends that writes, as one step of the database.\<close>

datatype db_event =
    EvCreateSession bool int Session
  | EvRenameSession bool string string
  | EvCloseSession bool int string
  | EvTouchSession bool int string
  | EvPairDevice bool int Device
  | EvRevokeDevice bool string
  | EvTouchDevice bool int string

fun db_step :: "DB \<Rightarrow> db_event \<Rightarrow> DB" where
  "db_step db (EvCreateSession f now s) = snd (CreateSession f now db s)"
| "db_step db (EvRenameSession f sid name) = snd (RenameSession f db sid name)"
| "db_step db (EvCloseSession f now sid) = snd (CloseSession f now db sid)"
| "db_step db (EvTouchSession f now sid) = snd (TouchSession f now db sid)"
| "db_step db (EvPairDevice f now dev) = snd (PairDevice f now db dev)"
| "db_step db (EvRevokeDevice f did) = snd (RevokeDevice f db did)"
| "db_step db (EvTouchDevice f now did) = snd (TouchDevice f now db did)"

lemmas db_defs = CreateSession_def RenameSession_def CloseSession_def TouchSession_def
  PairDevice_def RevokeDevice_def TouchDevice_def sql_update_def Let_def



section \<open>Tables as maps\<close>

text \<open>The row of a key, the abstraction the properties are stated on.\<close>

definition session_at :: "DB \<Rightarrow> string \<Rightarrow> session_row option" where
  "session_at db sid = find (\<lambda>r. sr_id r = sid) (sessions db)"

definition device_at :: "DB \<Rightarrow> string \<Rightarrow> device_row option" where
  "device_at db did = find (\<lambda>r. dr_id r = did) (devices db)"

lemma find_map_update:
  assumes "\<And>r. key (f r) = key r"
  shows "find (\<lambda>r. key r = k) (map (\<lambda>r. if c r then f r else r) rows) =
         map_option (\<lambda>r. if c r then f r else r) (find (\<lambda>r. key r = k) rows)"
  by (induction rows) (auto simp: assms)

lemma find_snoc:
  "find P (rows @ [r]) = (case find P rows of None \<Rightarrow> if P r then Some r else None | Some x \<Rightarrow> Some x)"
  by (induction rows) auto

lemma find_key_None: "find (\<lambda>r. key r = k) rows = None \<longleftrightarrow> k \<notin> key ` set rows"
  by (auto simp: find_None_iff)

lemma find_key_Some: "find (\<lambda>r. key r = k) rows = Some r \<Longrightarrow> r \<in> set rows \<and> key r = k"
  by (auto simp: find_Some_iff)

lemma find_key_distinct:
  "distinct (map key rows) \<Longrightarrow> r \<in> set rows \<Longrightarrow> find (\<lambda>q. key q = key r) rows = Some r"
  by (induction rows) auto

lemma rows_affected:
  "length (filter (\<lambda>r. key r = k \<and> P r) rows) = 0 \<longleftrightarrow> (\<forall>r \<in> set rows. key r = k \<longrightarrow> \<not> P r)"
  by (auto simp: filter_empty_conv)

lemma sessions_unchanged [simp]:
  "sessions (snd (PairDevice f now db dev)) = sessions db"
  "sessions (snd (RevokeDevice f db did)) = sessions db"
  "sessions (snd (TouchDevice f now db did)) = sessions db"
  by (auto simp: db_defs split: if_splits)

lemma devices_unchanged [simp]:
  "devices (snd (CreateSession f now db s)) = devices db"
  "devices (snd (RenameSession f db sid name)) = devices db"
  "devices (snd (CloseSession f now db sid)) = devices db"
  "devices (snd (TouchSession f now db sid)) = devices db"
  by (auto simp: db_defs split: if_splits)

text \<open>The effect of each statement on a row.\<close>

lemma session_at_Rename:
  "session_at (snd (RenameSession f db sid name)) k =
     map_option (\<lambda>r. if \<not> f \<and> k = sid then r\<lparr>sr_name := Some name\<rparr> else r) (session_at db k)"
  by (auto simp: session_at_def RenameSession_def sql_update_def Let_def find_map_update option.map_ident
      intro!: map_option_cong dest: find_key_Some)

lemma session_at_Close:
  "session_at (snd (CloseSession f now db sid)) k =
     map_option (\<lambda>r. if \<not> f \<and> k = sid \<and> sr_status r = Some StatusOpen
                     then r\<lparr>sr_status := Some StatusClosed, sr_active := Some now\<rparr> else r)
       (session_at db k)"
  by (auto simp: session_at_def CloseSession_def sql_update_def Let_def find_map_update option.map_ident
      intro!: map_option_cong dest: find_key_Some)

lemma session_at_Touch:
  "session_at (snd (TouchSession f now db sid)) k =
     map_option (\<lambda>r. if \<not> f \<and> k = sid then r\<lparr>sr_active := Some now\<rparr> else r) (session_at db k)"
  by (auto simp: session_at_def TouchSession_def sql_update_def find_map_update option.map_ident
      intro!: map_option_cong dest: find_key_Some)

lemma session_at_Create:
  "session_at db k = Some r \<Longrightarrow> session_at (snd (CreateSession f now db s)) k = Some r"
  by (auto simp: session_at_def CreateSession_def Let_def find_snoc)

lemma device_at_Revoke:
  "device_at (snd (RevokeDevice f db did)) k =
     map_option (\<lambda>r. if \<not> f \<and> k = did then r\<lparr>dr_revoked := Some 1\<rparr> else r) (device_at db k)"
  by (auto simp: device_at_def RevokeDevice_def sql_update_def Let_def find_map_update option.map_ident
      intro!: map_option_cong dest: find_key_Some)

lemma device_at_Touch:
  "device_at (snd (TouchDevice f now db did)) k =
     map_option (\<lambda>r. if \<not> f \<and> k = did then r\<lparr>dr_seen := Some now\<rparr> else r) (device_at db k)"
  by (auto simp: device_at_def TouchDevice_def sql_update_def find_map_update option.map_ident
      intro!: map_option_cong dest: find_key_Some)

lemma device_at_Pair:
  "device_at db k = Some r \<Longrightarrow> device_at (snd (PairDevice f now db dev)) k = Some r"
  by (auto simp: device_at_def PairDevice_def Let_def find_snoc)

lemma at_unchanged [simp]:
  "session_at (snd (PairDevice f now db dev)) = session_at db"
  "session_at (snd (RevokeDevice f db did)) = session_at db"
  "session_at (snd (TouchDevice f now db did)) = session_at db"
  "device_at (snd (CreateSession f now db s)) = device_at db"
  "device_at (snd (RenameSession f db sid name)) = device_at db"
  "device_at (snd (CloseSession f now db sid)) = device_at db"
  "device_at (snd (TouchSession f now db sid)) = device_at db"
  by (simp_all add: session_at_def device_at_def fun_eq_iff)

lemmas row_effects = session_at_Rename session_at_Close session_at_Touch session_at_Create
  device_at_Revoke device_at_Touch device_at_Pair



section \<open>Invariant of the tables\<close>

definition session_ok :: "session_row \<Rightarrow> bool" where
  "session_ok r \<longleftrightarrow> sr_status r = Some StatusOpen \<or> sr_status r = Some StatusClosed"

definition device_ok :: "device_row \<Rightarrow> bool" where
  "device_ok r \<longleftrightarrow> dr_revoked r = Some 0 \<or> dr_revoked r = Some 1"

definition db_wf :: "DB \<Rightarrow> bool" where
  "db_wf db \<longleftrightarrow> distinct (map sr_id (sessions db)) \<and> distinct (map dr_id (devices db)) \<and>
     (\<forall>r \<in> set (sessions db). session_ok r) \<and> (\<forall>r \<in> set (devices db). device_ok r)"

lemma map_key_update:
  assumes "\<And>r. key (f r) = key r"
  shows "map key (map (\<lambda>r. if c r then f r else r) rows) = map key rows"
  using assms by (induction rows) auto

lemma ids_unchanged [simp]:
  "map sr_id (sessions (snd (RenameSession f db sid name))) = map sr_id (sessions db)"
  "map sr_id (sessions (snd (CloseSession f now db sid))) = map sr_id (sessions db)"
  "map sr_id (sessions (snd (TouchSession f now db sid))) = map sr_id (sessions db)"
  "map dr_id (devices (snd (RevokeDevice f db did))) = map dr_id (devices db)"
  "map dr_id (devices (snd (TouchDevice f now db did))) = map dr_id (devices db)"
  by (auto simp: db_defs map_key_update simp del: map_map split: if_splits)

lemma rows_ok_update:
  "\<forall>r \<in> set (sessions db). session_ok r \<Longrightarrow>
     \<forall>r \<in> set (sessions (snd (RenameSession f db sid name))). session_ok r"
  "\<forall>r \<in> set (sessions db). session_ok r \<Longrightarrow>
     \<forall>r \<in> set (sessions (snd (CloseSession f now db sid))). session_ok r"
  "\<forall>r \<in> set (sessions db). session_ok r \<Longrightarrow>
     \<forall>r \<in> set (sessions (snd (TouchSession f now db sid))). session_ok r"
  "\<forall>r \<in> set (devices db). device_ok r \<Longrightarrow>
     \<forall>r \<in> set (devices (snd (RevokeDevice f db did))). device_ok r"
  "\<forall>r \<in> set (devices db). device_ok r \<Longrightarrow>
     \<forall>r \<in> set (devices (snd (TouchDevice f now db did))). device_ok r"
  by (auto simp: db_defs session_ok_def device_ok_def split: if_splits)

lemma db_wf_step: "db_wf db \<Longrightarrow> db_wf (db_step db e)"
proof (cases e)
  case (EvCreateSession f now s)
  assume "db_wf db"
  then show ?thesis
    by (auto simp: EvCreateSession db_wf_def CreateSession_def Let_def session_constraints_def
        session_ok_def StatusOpen_def StatusClosed_def split: if_splits)
next
  case (EvPairDevice f now dev)
  assume "db_wf db"
  then show ?thesis
    by (auto simp: EvPairDevice db_wf_def PairDevice_def Let_def device_ok_def split: if_splits)
next
  case (EvRenameSession f sid name)
  assume "db_wf db"
  then show ?thesis using rows_ok_update(1) [of db f sid name] by (simp add: EvRenameSession db_wf_def)
next
  case (EvCloseSession f now sid)
  assume "db_wf db"
  then show ?thesis using rows_ok_update(2) [of db f now sid] by (simp add: EvCloseSession db_wf_def)
next
  case (EvTouchSession f now sid)
  assume "db_wf db"
  then show ?thesis using rows_ok_update(3) [of db f now sid] by (simp add: EvTouchSession db_wf_def)
next
  case (EvRevokeDevice f did)
  assume "db_wf db"
  then show ?thesis using rows_ok_update(4) [of db f did] by (simp add: EvRevokeDevice db_wf_def)
next
  case (EvTouchDevice f now did)
  assume "db_wf db"
  then show ?thesis using rows_ok_update(5) [of db f now did] by (simp add: EvTouchDevice db_wf_def)
qed

text \<open>
  C38. The tables stay well formed under every sequence of statements the daemon sends, failing
  ones included: keys are unique, the status of a session is open or closed, the revocation flag
  of a device is set or not.
\<close>

theorem db_wf_reachable: "db_wf (run_steps db_step emptyDB es)"
  by (rule run_steps_invariant) (simp add: db_wf_def emptyDB_def, rule db_wf_step)


section \<open>Permanence of closing and revoking\<close>

definition closed_in :: "DB \<Rightarrow> string \<Rightarrow> bool" where
  "closed_in db sid \<longleftrightarrow>
     (case session_at db sid of None \<Rightarrow> False | Some r \<Rightarrow> sr_status r = Some StatusClosed)"

definition open_in :: "DB \<Rightarrow> string \<Rightarrow> bool" where
  "open_in db sid \<longleftrightarrow>
     (case session_at db sid of None \<Rightarrow> False | Some r \<Rightarrow> sr_status r = Some StatusOpen)"

definition revoked_in :: "DB \<Rightarrow> string \<Rightarrow> bool" where
  "revoked_in db did \<longleftrightarrow>
     (case device_at db did of
        None \<Rightarrow> False
      | Some r \<Rightarrow> (case dr_revoked r of None \<Rightarrow> False | Some n \<Rightarrow> n \<noteq> 0))"

lemma closed_in_step: "closed_in db sid \<Longrightarrow> closed_in (db_step db e) sid"
  by (cases e)
    (auto simp: closed_in_def row_effects StatusOpen_def StatusClosed_def split: option.splits)

lemma revoked_in_step: "revoked_in db did \<Longrightarrow> revoked_in (db_step db e) did"
  by (cases e) (auto simp: revoked_in_def row_effects split: option.splits)

text \<open>
  Closing is final: whatever statements follow, a closed session stays closed; nothing
  reopens or deletes it.
\<close>

lemma closed_forever: "closed_in db sid \<Longrightarrow> closed_in (run_steps db_step db es) sid"
  by (rule run_steps_invariant) (simp_all add: closed_in_step)

lemma closed_forever_example:
  "closed_in (run_steps db_step
     \<lparr>sessions = [\<lparr>sr_id = ''a'', sr_name = None, sr_tmux = ''ccr-a'', sr_cwd = None,
        sr_shell = None, sr_status = Some ''closed'', sr_created = None, sr_active = None\<rparr>],
      devices = []\<rparr>
     [EvRenameSession False ''a'' ''n'', EvTouchSession False 7 ''a'']) ''a''"
  by (rule closed_forever) (simp add: closed_in_def session_at_def StatusClosed_def)

text \<open>
  Revocation is final: whatever statements follow, including pairings that reuse the id, a
  revoked device stays revoked.
\<close>

lemma revoked_forever: "revoked_in db did \<Longrightarrow> revoked_in (run_steps db_step db es) did"
  by (rule run_steps_invariant) (simp_all add: revoked_in_step)

lemma revoked_forever_example:
  "revoked_in (run_steps db_step
     (snd (RevokeDevice False
        (snd (PairDevice False 5 emptyDB
           \<lparr>d_ID = ''d'', d_Name = [], d_Platform = [], d_PubKey = ''k'', d_PairedAt = 0,
            d_LastSeenAt = 0, d_Revoked = False\<rparr>)) ''d''))
     [EvPairDevice False 9 \<lparr>d_ID = ''d'', d_Name = [], d_Platform = [], d_PubKey = ''k2'',
        d_PairedAt = 0, d_LastSeenAt = 0, d_Revoked = False\<rparr>]) ''d''"
  by (rule revoked_forever)
    (simp add: revoked_in_def device_at_Revoke, simp add: device_at_def PairDevice_def emptyDB_def)

text \<open>
  Only an explicit close ends a session: if a session is open before a statement and not
  open after it, the statement was the closing update of that very session.
\<close>

lemma only_CloseSession_closes:
  assumes "open_in db sid" and "\<not> open_in (db_step db e) sid"
  shows "\<exists>now. e = EvCloseSession False now sid"
  using assms
  by (cases e) (auto simp: open_in_def row_effects StatusOpen_def split: option.splits if_splits)

lemma only_CloseSession_closes_example:
  "\<exists>now. EvCloseSession False 3 ''a'' = EvCloseSession False now ''a''"
proof -
  let ?db = "\<lparr>sessions = [\<lparr>sr_id = ''a'', sr_name = None, sr_tmux = ''ccr-a'', sr_cwd = None,
        sr_shell = None, sr_status = Some ''open'', sr_created = None, sr_active = None\<rparr>],
      devices = []\<rparr>"
  have "open_in ?db ''a''" by (simp add: open_in_def session_at_def StatusOpen_def)
  moreover have "\<not> open_in (db_step ?db (EvCloseSession False 3 ''a'')) ''a''"
    by (simp add: open_in_def session_at_Close)
      (simp add: session_at_def StatusOpen_def StatusClosed_def)
  ultimately show ?thesis by (rule only_CloseSession_closes)
qed


section \<open>Queries\<close>

definition order_by_desc :: "('r \<Rightarrow> 'k::linorder) \<Rightarrow> ('r list \<Rightarrow> 'r list) \<Rightarrow> bool" where
  "order_by_desc key order \<longleftrightarrow>
     (\<forall>rows. mset (order rows) = mset rows \<and> sorted_wrt (\<lambda>a b. key b \<le> key a) (order rows))"

lemma order_by_desc_set: "order_by_desc key order \<Longrightarrow> set (order rows) = set rows"
  unfolding order_by_desc_def by (metis set_mset_mset)

lemma sorted_rev_sort_key: "sorted_wrt (\<lambda>a b. key b \<le> key a) (rev (sort_key key rows))"
  using sorted_sort_key [of key rows] by (simp add: sorted_wrt_rev sorted_map)

lemma order_by_desc_sort_key: "order_by_desc key (\<lambda>rows. rev (sort_key key rows))"
  by (simp add: order_by_desc_def sorted_rev_sort_key)

lemma scan_all_ok:
  "\<forall>r \<in> set rows. f r = Inr (g r) \<Longrightarrow> scan_all f rows = Inr (map g rows)"
  by (induction rows) auto

lemma scan_session_ok: "sr_status r = Some st \<Longrightarrow> \<exists>s. scan_session r = Inr s \<and> s_ID s = sr_id r \<and>
    s_Status s = st \<and> s_LastActiveAt s = coalesce 0 (sr_active r)"
  by (simp add: scan_session_def)

text \<open>
  C39. The session list is exact and ordered: in a well-formed database in which every activity
  time was written, it succeeds, holds one entry per open session and no other, and the most
  recently active sessions come first, in whatever order the engine returns ties.
\<close>

theorem ListOpenSessions_exact:
  assumes "db_wf db" and "order_by_desc sr_active order"
    and "\<forall>r \<in> set (sessions db). sr_active r \<noteq> None"
  shows "\<exists>ss. ListOpenSessions order False db = Inr ss \<and>
     set (map s_ID ss) = {sid. open_in db sid} \<and> distinct (map s_ID ss) \<and>
     sorted_wrt (\<lambda>a b. s_LastActiveAt b \<le> s_LastActiveAt a) ss"
proof -
  let ?open = "filter (\<lambda>r. sr_status r = Some StatusOpen) (sessions db)"
  define g where "g r = (case scan_session r of Inr s \<Rightarrow> s | Inl _ \<Rightarrow> undefined)" for r
  have set: "set (order ?open) = set ?open" using assms(2) by (rule order_by_desc_set)
  have ok: "scan_session r = Inr (g r) \<and> s_ID (g r) = sr_id r \<and>
      s_LastActiveAt (g r) = coalesce 0 (sr_active r)" if "r \<in> set (order ?open)" for r
    using that scan_session_ok [of r StatusOpen] set by (auto simp: g_def)
  then have list: "ListOpenSessions order False db = Inr (map g (order ?open))"
    by (simp add: ListOpenSessions_def scan_all_ok)
  have ids: "map s_ID (map g (order ?open)) = map sr_id (order ?open)" using ok by simp
  have "mset (order ?open) = mset ?open" using assms(2) by (simp add: order_by_desc_def)
  then have "mset (map sr_id (order ?open)) = mset (map sr_id ?open)" by (simp add: image_mset.compositionality)
  moreover have "distinct (map sr_id ?open)" using assms(1) by (simp add: db_wf_def distinct_map_filter)
  ultimately have dist: "distinct (map sr_id (order ?open))" using mset_eq_imp_distinct_iff by blast
  have at: "session_at db (sr_id r) = Some r" if "r \<in> set (sessions db)" for r
    using that assms(1) by (simp add: session_at_def db_wf_def find_key_distinct)
  have "set (map sr_id (order ?open)) = {sid. open_in db sid}"
  proof -
    have "set (map sr_id (order ?open)) = sr_id ` set ?open" using set by simp
    moreover have "sid \<in> sr_id ` set ?open \<longleftrightarrow> open_in db sid" for sid
      using at by (auto simp: open_in_def session_at_def image_iff
          split: option.splits dest: find_key_Some)
    ultimately show ?thesis by blast
  qed
  moreover have "sorted_wrt (\<lambda>a b. s_LastActiveAt b \<le> s_LastActiveAt a) (map g (order ?open))"
  proof -
    have "sorted_wrt (\<lambda>a b. sr_active b \<le> sr_active a) (order ?open)"
      using assms(2) by (simp add: order_by_desc_def)
    then have "sorted_wrt (\<lambda>a b. s_LastActiveAt (g b) \<le> s_LastActiveAt (g a)) (order ?open)"
    proof (rule sorted_wrt_mono_rel [rotated])
      fix a b
      assume ab: "a \<in> set (order ?open)" "b \<in> set (order ?open)" "sr_active b \<le> sr_active a"
      then have "sr_active a \<noteq> None" "sr_active b \<noteq> None" using set assms(3) by auto
      with ab ok show "s_LastActiveAt (g b) \<le> s_LastActiveAt (g a)" by auto
    qed
    then show ?thesis by (simp add: sorted_wrt_map)
  qed
  ultimately show ?thesis using list ids dist by metis
qed

theorem ListOpenSessions_exact_witness:
  "\<exists>ss. ListOpenSessions (\<lambda>rows. rev (sort_key sr_active rows)) False
     \<lparr>sessions = [\<lparr>sr_id = ''a'', sr_name = None, sr_tmux = ''t'', sr_cwd = None, sr_shell = None,
        sr_status = Some ''open'', sr_created = None, sr_active = Some 4\<rparr>], devices = []\<rparr> = Inr ss
     \<and> distinct (map s_ID ss)"
  using ListOpenSessions_exact
    [of "\<lparr>sessions = [\<lparr>sr_id = ''a'', sr_name = None, sr_tmux = ''t'', sr_cwd = None,
          sr_shell = None, sr_status = Some ''open'', sr_created = None, sr_active = Some 4\<rparr>],
         devices = []\<rparr>", OF _ order_by_desc_sort_key]
  by (auto simp: db_wf_def session_ok_def StatusOpen_def)

text \<open>
  Insert and lookup round trip: a session that is created is read back with its fields, the
  missing ones filled in with the current time and the open status.
\<close>

lemma CreateSession_GetSession:
  assumes "CreateSession f now db s = (Inr u, db')"
  shows "GetSession False db' (s_ID s) =
     Inr (s\<lparr>s_Status := if s_Status s = [] then StatusOpen else s_Status s,
            s_CreatedAt := if s_CreatedAt s = 0 then now else s_CreatedAt s,
            s_LastActiveAt := if s_LastActiveAt s = 0 then now else s_LastActiveAt s\<rparr>)"
proof -
  have "find (\<lambda>r. sr_id r = s_ID s) (sessions db) = None"
    using assms by (auto simp: CreateSession_def Let_def session_constraints_def find_None_iff
        split: if_splits)
  with assms show ?thesis
    by (auto simp: CreateSession_def GetSession_def scan_session_def Let_def find_snoc
        split: if_splits)
qed

lemma CreateSession_GetSession_example:
  "GetSession False (snd (CreateSession False 9 emptyDB
     \<lparr>s_ID = ''a'', s_Name = ''n'', s_TmuxSession = ''ccr-a'', s_Cwd = [], s_Shell = [],
      s_Status = [], s_CreatedAt = 0, s_LastActiveAt = 0\<rparr>)) ''a''
   = Inr \<lparr>s_ID = ''a'', s_Name = ''n'', s_TmuxSession = ''ccr-a'', s_Cwd = [], s_Shell = [],
          s_Status = ''open'', s_CreatedAt = 9, s_LastActiveAt = 9\<rparr>"
proof -
  let ?s = "\<lparr>s_ID = ''a'', s_Name = ''n'', s_TmuxSession = ''ccr-a'', s_Cwd = [], s_Shell = [],
      s_Status = [], s_CreatedAt = 0, s_LastActiveAt = 0\<rparr>"
  have "fst (CreateSession False 9 emptyDB ?s) = Inr ()"
    by (simp add: CreateSession_def session_constraints_def emptyDB_def StatusOpen_def)
  then have "CreateSession False 9 emptyDB ?s = (Inr (), snd (CreateSession False 9 emptyDB ?s))"
    by (simp add: prod_eq_iff)
  from CreateSession_GetSession [OF this] show ?thesis by (simp add: StatusOpen_def)
qed

end
