(* ===== verification/DeviceAuth.thy ===== *)
theory DeviceAuth
  imports Go_Codec Database
begin

text \<open>
  Everyday device authentication: the challenge-response of \<^verbatim>\<open>identity/device.go\<close> and the
  adapter \<^verbatim>\<open>identity/store.go\<close> that answers its lookups from the devices table. Signature
  verification is the parameter \<open>ed pub nonce signature\<close>; the calls the code makes only to spend
  the time of a verification have no effect on results and are left out.
\<close>


section \<open>The identity store\<close>

definition PublicKeySize :: nat where "PublicKeySize = 32"

text \<open>\<^verbatim>\<open>Store.Device\<close>: the public key and the revoked flag, \<open>None\<close> when not ok.\<close>

definition StoreDevice :: "bool \<Rightarrow> DB \<Rightarrow> string \<Rightarrow> (string \<times> bool) option" where
  "StoreDevice fault db did =
     (case GetDevice fault db did of
        Inl _ \<Rightarrow> None
      | Inr dev \<Rightarrow>
          (case StdDecode (d_PubKey dev) of
             None \<Rightarrow> None
           | Some raw \<Rightarrow> if length raw \<noteq> PublicKeySize then None else Some (raw, d_Revoked dev)))"

definition StorePairDevice ::
    "bool \<Rightarrow> int \<Rightarrow> DB \<Rightarrow> string \<Rightarrow> string \<Rightarrow> string \<Rightarrow> string \<Rightarrow> (db_error + unit) \<times> DB" where
  "StorePairDevice fault now db did name platform pubKeyB64 =
     PairDevice fault now db \<lparr>d_ID = did, d_Name = name, d_Platform = platform,
       d_PubKey = pubKeyB64, d_PairedAt = 0, d_LastSeenAt = 0, d_Revoked = False\<rparr>"

text \<open>A device as the owner routes list it.\<close>

record DeviceInfo =
  di_ID :: string
  di_Name :: string
  di_Platform :: string
  di_PubKey :: string
  di_PairedAt :: int
  di_LastSeenAt :: int
  di_Revoked :: bool

definition device_info :: "Device \<Rightarrow> DeviceInfo" where
  "device_info d = \<lparr>di_ID = d_ID d, di_Name = d_Name d, di_Platform = d_Platform d, di_PubKey = d_PubKey d,
     di_PairedAt = d_PairedAt d, di_LastSeenAt = d_LastSeenAt d, di_Revoked = d_Revoked d\<rparr>"

definition StoreListDevices ::
    "(device_row list \<Rightarrow> device_row list) \<Rightarrow> bool \<Rightarrow> DB \<Rightarrow> db_error + DeviceInfo list" where
  "StoreListDevices order fault db =
     (case ListDevices order fault db of Inl e \<Rightarrow> Inl e | Inr ds \<Rightarrow> Inr (map device_info ds))"

definition StoreRevokeDevice :: "bool \<Rightarrow> DB \<Rightarrow> string \<Rightarrow> (db_error + unit) \<times> DB" where
  "StoreRevokeDevice fault db did = RevokeDevice fault db did"


section \<open>The authenticator\<close>

definition ChallengeSize :: nat where "ChallengeSize = 32"
definition ChallengeTTL :: duration where [time_simps]: "ChallengeTTL = 2 * minute"

datatype device_error = ErrDeviceAuthFailed | ErrChallengeExpired | ErrNonce

record pendingChallenge =
  pc_nonce :: string
  pc_expiresAt :: instant

record DeviceAuthenticator =
  pending :: "string \<rightharpoonup> pendingChallenge"

type_synonym device_lookup_fun = "string \<Rightarrow> (string \<times> bool) option"
type_synonym ed25519 = "string \<Rightarrow> string \<Rightarrow> string \<Rightarrow> bool"

definition NewDeviceAuthenticator :: DeviceAuthenticator where
  "NewDeviceAuthenticator = \<lparr>pending = Map.empty\<rparr>"

definition sweepChallenges :: "instant \<Rightarrow> DeviceAuthenticator \<Rightarrow> DeviceAuthenticator" where
  "sweepChallenges now a =
     a\<lparr>pending := map_sweep (\<lambda>c. time_after now (pc_expiresAt c)) (pending a)\<rparr>"

text \<open>\<open>rnd\<close> is what the random source delivers for the nonce, \<open>None\<close> when it fails.\<close>

definition IssueChallenge ::
    "device_lookup_fun \<Rightarrow> instant \<Rightarrow> string option \<Rightarrow> DeviceAuthenticator \<Rightarrow> string \<Rightarrow>
     (device_error + string) \<times> DeviceAuthenticator" where
  "IssueChallenge lookup now rnd a did =
     (case rnd of
        None \<Rightarrow> (Inl ErrNonce, a)
      | Some nonce \<Rightarrow>
          (case lookup did of
             None \<Rightarrow> (Inr nonce, a)
           | Some (_, True) \<Rightarrow> (Inr nonce, a)
           | Some (_, False) \<Rightarrow>
               let a1 = sweepChallenges now a
               in (Inr nonce, a1\<lparr>pending := (pending a1)(did \<mapsto>
                     \<lparr>pc_nonce = nonce, pc_expiresAt = now + ChallengeTTL\<rparr>)\<rparr>)))"

definition DeviceVerify ::
    "ed25519 \<Rightarrow> device_lookup_fun \<Rightarrow> instant \<Rightarrow> DeviceAuthenticator \<Rightarrow> string \<Rightarrow> string \<Rightarrow>
     device_error option \<times> DeviceAuthenticator" where
  "DeviceVerify ed lookup now a did signature =
     (case pending a did of
        None \<Rightarrow> (Some ErrDeviceAuthFailed, a)
      | Some pc \<Rightarrow>
          let a' = a\<lparr>pending := map_delete (pending a) did\<rparr>
          in if time_after now (pc_expiresAt pc) then (Some ErrChallengeExpired, a')
             else case lookup did of
                    None \<Rightarrow> (Some ErrDeviceAuthFailed, a')
                  | Some (pub, revoked) \<Rightarrow>
                      if revoked then (Some ErrDeviceAuthFailed, a')
                      else if \<not> ed pub (pc_nonce pc) signature then (Some ErrDeviceAuthFailed, a')
                      else (None, a'))"

text \<open>The authenticator as a state machine; each call sees the lookup of its own moment.\<close>

datatype auth_event =
    EvIssue device_lookup_fun instant "string option" string
  | EvVerify device_lookup_fun instant string string

fun auth_step :: "ed25519 \<Rightarrow> DeviceAuthenticator \<Rightarrow> auth_event \<Rightarrow> DeviceAuthenticator" where
  "auth_step ed a (EvIssue lookup now rnd did) = snd (IssueChallenge lookup now rnd a did)"
| "auth_step ed a (EvVerify lookup now did signature) = snd (DeviceVerify ed lookup now a did signature)"


section \<open>The lookup interface\<close>

text \<open>
  \<^verbatim>\<open>DeviceLookup\<close> as the authenticator relies on it: a key it returns has the size of an Ed25519
  public key, so that the verification routine, which is only defined on such keys, is never
  handed anything else.
\<close>

locale device_lookup =
  fixes device :: device_lookup_fun
  assumes key_size: "device did = Some (pub, revoked) \<Longrightarrow> length pub = PublicKeySize"
begin

lemma verify_uses_sized_keys:
  assumes "\<And>pub n s. length pub = PublicKeySize \<Longrightarrow> ed pub n s = ed' pub n s"
  shows "DeviceVerify ed device now a did sg = DeviceVerify ed' device now a did sg"
proof (cases "device did")
  case (Some kr)
  obtain pub revoked where "kr = (pub, revoked)" by fastforce
  with Some key_size have "ed pub n s = ed' pub n s" for n s using assms by blast
  then show ?thesis
    by (simp add: DeviceVerify_def Some \<open>kr = (pub, revoked)\<close> Let_def split: option.split)
qed (simp add: DeviceVerify_def Let_def split: option.split)

end

interpretation identity_store: device_lookup "StoreDevice fault db" for fault db
  by unfold_locales (auto simp: StoreDevice_def split: sum.splits option.splits if_splits)

text \<open>
  A malformed key in the database is never a bypass: over the real store, the outcome of a
  verification depends on the signature routine on keys of the right size only, so a row whose
  key does not decode to 32 bytes can never authenticate whatever the routine does with it.
\<close>

lemma malformed_keys_never_reach_ed25519:
  assumes "\<And>pub n s. length pub = PublicKeySize \<Longrightarrow> ed pub n s = ed' pub n s"
  shows "DeviceVerify ed (StoreDevice fault db) now a did sg
         = DeviceVerify ed' (StoreDevice fault db) now a did sg"
  using assms by (rule identity_store.verify_uses_sized_keys)

lemma malformed_keys_never_reach_ed25519_example:
  "DeviceVerify (\<lambda>p n s. length p \<noteq> 32 \<or> s = n) (StoreDevice False emptyDB) 0 NewDeviceAuthenticator [] []
   = DeviceVerify (\<lambda>p n s. s = n) (StoreDevice False emptyDB) 0 NewDeviceAuthenticator [] []"
  by (rule malformed_keys_never_reach_ed25519) (simp add: PublicKeySize_def)


section \<open>Challenges are single-use\<close>

lemma DeviceVerify_success_iff:
  "fst (DeviceVerify ed lookup now a did sg) = None \<longleftrightarrow>
     (\<exists>pc pub. pending a did = Some pc \<and> now \<le> pc_expiresAt pc \<and>
        lookup did = Some (pub, False) \<and> ed pub (pc_nonce pc) sg)"
  by (auto simp: DeviceVerify_def Let_def split: option.splits prod.splits)

lemma DeviceVerify_pending:
  "pending (snd (DeviceVerify ed lookup now a did sg)) = map_delete (pending a) did"
  by (auto simp: DeviceVerify_def Let_def fun_eq_iff split: option.splits prod.splits)

lemma IssueChallenge_pending:
  assumes "pending (snd (IssueChallenge lookup now rnd a did)) k = Some c"
  shows "pending a k = Some c \<or>
     (k = did \<and> (\<exists>n pub. rnd = Some n \<and> lookup did = Some (pub, False) \<and>
        c = \<lparr>pc_nonce = n, pc_expiresAt = now + ChallengeTTL\<rparr>))"
  using assms
  by (auto simp: IssueChallenge_def Let_def sweepChallenges_def sweep_simps
      split: option.splits prod.splits bool.splits if_splits)

definition challenge_issues :: "auth_event \<Rightarrow> string \<Rightarrow> bool" where
  "challenge_issues e did \<longleftrightarrow> (\<exists>lookup now rnd. e = EvIssue lookup now rnd did)"

definition challenge_redeems :: "ed25519 \<Rightarrow> DeviceAuthenticator \<Rightarrow> auth_event \<Rightarrow> string \<Rightarrow> bool" where
  "challenge_redeems ed a e did \<longleftrightarrow>
     (\<exists>lookup now sg. e = EvVerify lookup now did sg \<and>
        fst (DeviceVerify ed lookup now a did sg) = None)"

interpretation challenge: single_use "auth_step ed" "\<lambda>a did. pending a did \<noteq> None"
    challenge_issues "challenge_redeems ed" for ed
proof (unfold_locales, goal_cases)
  case (1 s e k)
  then show ?case by (auto simp: challenge_redeems_def DeviceVerify_success_iff)
next
  case (2 s e k)
  then show ?case by (auto simp: challenge_redeems_def DeviceVerify_pending)
next
  case (3 s e k)
  show ?case
  proof (cases e)
    case (EvIssue lookup now rnd did)
    with 3 obtain c where "pending (snd (IssueChallenge lookup now rnd s did)) k = Some c" by auto
    from IssueChallenge_pending [OF this] EvIssue show ?thesis by (auto simp: challenge_issues_def)
  next
    case (EvVerify lookup now did sg)
    with 3 show ?thesis by (auto simp: DeviceVerify_pending split: if_splits)
  qed
qed

text \<open>
  C26. A captured signature is worthless once used: after a successful verification no sequence of
  calls, for any devices, makes a second verification for the same device succeed unless a new
  challenge was requested for it.
\<close>

theorem signature_not_replayable:
  assumes "fst (DeviceVerify ed lookup now a did sg) = None"
    and "\<forall>e \<in> set es. \<forall>lk t rnd. e \<noteq> EvIssue lk t rnd did"
  shows "fst (DeviceVerify ed lookup' now'
     (run_steps (auth_step ed) (snd (DeviceVerify ed lookup now a did sg)) es) did sg') \<noteq> None"
proof -
  have "challenge_redeems ed a (EvVerify lookup now did sg) did"
    using assms(1) by (auto simp: challenge_redeems_def)
  moreover have "\<forall>e \<in> set es. \<not> challenge_issues e did"
    using assms(2) by (auto simp: challenge_issues_def)
  ultimately have "\<not> challenge_redeems ed
      (run_steps (auth_step ed) (auth_step ed a (EvVerify lookup now did sg)) es)
      (EvVerify lookup' now' did sg') did"
    by (rule challenge.no_second_redeem)
  then show ?thesis by (auto simp: challenge_redeems_def)
qed

theorem signature_not_replayable_witness:
  "fst (DeviceVerify (\<lambda>p n s. s = n) (\<lambda>d. Some (''k'', False)) 3
     (run_steps (auth_step (\<lambda>p n s. s = n))
        (snd (DeviceVerify (\<lambda>p n s. s = n) (\<lambda>d. Some (''k'', False)) 2
           \<lparr>pending = [''d'' \<mapsto> \<lparr>pc_nonce = ''n'', pc_expiresAt = 9\<rparr>]\<rparr> ''d'' ''n'')) [])
     ''d'' ''n'') \<noteq> None"
  by (rule signature_not_replayable) (simp_all add: DeviceVerify_success_iff)


section \<open>What a successful authentication means\<close>

text \<open>Where a pending challenge comes from: a request for its device that was answered.\<close>

lemma pending_origin:
  assumes "pending (run_steps (auth_step ed) NewDeviceAuthenticator es) did = Some c"
  shows "\<exists>es1 lk t n pub es2. es = es1 @ EvIssue lk t (Some n) did # es2 \<and>
     lk did = Some (pub, False) \<and> c = \<lparr>pc_nonce = n, pc_expiresAt = t + ChallengeTTL\<rparr>"
  using assms
proof (induction es rule: rev_induct)
  case Nil
  then show ?case by (simp add: NewDeviceAuthenticator_def)
next
  case (snoc e es)
  let ?a = "run_steps (auth_step ed) NewDeviceAuthenticator es"
  have step: "pending (auth_step ed ?a e) did = Some c" using snoc.prems by simp
  show ?case
  proof (cases "pending ?a did = Some c")
    case True
    with snoc.IH obtain es1 lk t n pub es2 where "es = es1 @ EvIssue lk t (Some n) did # es2"
      "lk did = Some (pub, False)" "c = \<lparr>pc_nonce = n, pc_expiresAt = t + ChallengeTTL\<rparr>"
      by blast
    then have "es @ [e] = es1 @ EvIssue lk t (Some n) did # (es2 @ [e])" by simp
    with \<open>lk did = _\<close> \<open>c = _\<close> show ?thesis by blast
  next
    case False
    obtain lk t rnd d where e: "e = EvIssue lk t rnd d"
      using step False by (cases e) (auto simp: DeviceVerify_pending split: if_splits)
    then have "pending (snd (IssueChallenge lk t rnd ?a d)) did = Some c" using step by simp
    from IssueChallenge_pending [OF this] False e show ?thesis by blast
  qed
qed

text \<open>
  C7. Authentication is sound: from a fresh authenticator, after any sequence of calls, a device
  is authenticated only if an earlier challenge request for it was answered while it was paired
  and not revoked, that challenge is at most two minutes old, the device is still paired and not
  revoked now, and the signature is valid for exactly that challenge under the stored key.
\<close>

theorem authenticated_means_signed_challenge:
  assumes "fst (DeviceVerify ed lookup now
     (run_steps (auth_step ed) NewDeviceAuthenticator es) did sg) = None"
  shows "\<exists>es1 lk t n pub0 es2 pub. es = es1 @ EvIssue lk t (Some n) did # es2 \<and>
     lk did = Some (pub0, False) \<and> now \<le> t + ChallengeTTL \<and>
     lookup did = Some (pub, False) \<and> ed pub n sg"
proof -
  obtain c pub where c: "pending (run_steps (auth_step ed) NewDeviceAuthenticator es) did = Some c"
    and ok: "now \<le> pc_expiresAt c" "lookup did = Some (pub, False)" "ed pub (pc_nonce c) sg"
    using assms by (auto simp: DeviceVerify_success_iff)
  obtain es1 lk t n pub0 es2 where "es = es1 @ EvIssue lk t (Some n) did # es2"
    "lk did = Some (pub0, False)" "c = \<lparr>pc_nonce = n, pc_expiresAt = t + ChallengeTTL\<rparr>"
    using pending_origin [OF c] by blast
  moreover from this ok have "now \<le> t + ChallengeTTL" "ed pub n sg" by simp_all
  ultimately show ?thesis using ok(2) by blast
qed

theorem authenticated_means_signed_challenge_witness:
  "\<exists>es1 lk t n pub0 es2 pub.
     [EvIssue (\<lambda>d. Some (''k'', False)) 1 (Some ''n'') ''d''] = es1 @ EvIssue lk t (Some n) ''d'' # es2 \<and>
     lk ''d'' = Some (pub0, False) \<and> 2 \<le> t + ChallengeTTL \<and>
     (\<lambda>d. Some (''k'', False)) ''d'' = Some (pub, False) \<and> (\<lambda>p n s. s = n) pub n ''n''"
  by (rule authenticated_means_signed_challenge)
    (simp add: DeviceVerify_success_iff IssueChallenge_def Let_def NewDeviceAuthenticator_def
      sweepChallenges_def time_simps)

text \<open>
  C37. The unauthenticated challenge endpoint cannot exhaust memory: however many requests arrive,
  for whatever device ids, challenges are only ever pending for devices that some lookup reported
  as paired and not revoked, so their number is bounded by the number of such devices.
\<close>

theorem pending_bounded_by_devices:
  assumes "finite D" and "\<forall>e \<in> set es. \<forall>lk t rnd d. e = EvIssue lk t rnd d \<longrightarrow>
     (\<forall>d pub. lk d = Some (pub, False) \<longrightarrow> d \<in> D)"
  shows "card (dom (pending (run_steps (auth_step ed) NewDeviceAuthenticator es))) \<le> card D"
proof (rule card_mono [OF assms(1)])
  show "dom (pending (run_steps (auth_step ed) NewDeviceAuthenticator es)) \<subseteq> D"
  proof
    fix did
    assume "did \<in> dom (pending (run_steps (auth_step ed) NewDeviceAuthenticator es))"
    then obtain c where "pending (run_steps (auth_step ed) NewDeviceAuthenticator es) did = Some c"
      by blast
    from pending_origin [OF this] assms(2) show "did \<in> D" by fastforce
  qed
qed

theorem pending_bounded_by_devices_witness:
  "card (dom (pending (run_steps (auth_step (\<lambda>p n s. True)) NewDeviceAuthenticator
     [EvIssue [''d'' \<mapsto> (''k'', False)] 1 (Some ''n'') ''d'',
      EvIssue [''d'' \<mapsto> (''k'', False)] 2 (Some ''m'') ''x'']))) \<le> card {''d''}"
  by (rule pending_bounded_by_devices) (auto split: if_splits)

text \<open>
  Challenge issuance is no oracle for device ids: the answer to a challenge request is the
  same whether the device is unknown, revoked or paired.
\<close>

lemma IssueChallenge_answer_independent:
  "fst (IssueChallenge lookup now rnd a did) = fst (IssueChallenge lookup' now rnd a did)"
  by (auto simp: IssueChallenge_def Let_def split: option.splits prod.splits bool.splits)


section \<open>Revocation over the real store\<close>

lemma StoreDevice_revoked: "revoked_in db did \<Longrightarrow> StoreDevice fault db did \<noteq> Some (pub, False)"
  by (auto simp: revoked_in_def StoreDevice_def GetDevice_def scan_device_def device_at_def
      split: option.splits sum.splits if_splits)

text \<open>
  C10. Revocation takes effect at once and for good: a device revoked in the database is refused
  by every later verification, whatever challenges are pending, whatever signature it presents,
  and whatever statements the database has executed since.
\<close>

theorem revoked_device_never_authenticates:
  assumes "RevokeDevice False db did = (Inr u, db1)"
  shows "fst (DeviceVerify ed (StoreDevice fault (run_steps db_step db1 es)) now a did sg) \<noteq> None"
proof -
  have "\<exists>r \<in> set (devices db). dr_id r = did"
    using assms by (auto simp: RevokeDevice_def sql_update_def requireOneRow_def Let_def
        filter_empty_conv split: if_splits)
  then obtain r where "device_at db did = Some r"
    by (cases "device_at db did") (auto simp: device_at_def find_None_iff)
  then have "revoked_in db1 did"
    using device_at_Revoke [of False db did did] assms by (simp add: revoked_in_def)
  then have "revoked_in (run_steps db_step db1 es) did"
    by (rule run_steps_invariant) (rule revoked_in_step)
  then show ?thesis using StoreDevice_revoked by (auto simp: DeviceVerify_success_iff)
qed

theorem revoked_device_never_authenticates_witness:
  "fst (DeviceVerify (\<lambda>p n s. True) (StoreDevice False (run_steps db_step
     (snd (RevokeDevice False \<lparr>sessions = [],
        devices = [\<lparr>dr_id = ''d'', dr_name = None, dr_platform = None, dr_pubkey = ''k'',
          dr_paired = None, dr_seen = None, dr_revoked = Some 0\<rparr>]\<rparr> ''d''))
     [EvTouchDevice False 4 ''d''])) 5
     \<lparr>pending = [''d'' \<mapsto> \<lparr>pc_nonce = ''n'', pc_expiresAt = 9\<rparr>]\<rparr> ''d'' ''s'') \<noteq> None"
  by (rule revoked_device_never_authenticates
      [where u = "()" and db = "\<lparr>sessions = [],
        devices = [\<lparr>dr_id = ''d'', dr_name = None, dr_platform = None, dr_pubkey = ''k'',
          dr_paired = None, dr_seen = None, dr_revoked = Some 0\<rparr>]\<rparr>"])
    (simp add: RevokeDevice_def sql_update_def requireOneRow_def)

end
