(* ===== verification/Go_Net.thy ===== *)
theory Go_Net
  imports Go_Strings
begin

text \<open>
  \<^verbatim>\<open>net.SplitHostPort\<close> and \<^verbatim>\<open>net.JoinHostPort\<close>, and the daemon's helper \<^verbatim>\<open>clientIP\<close> over
  the former.
\<close>

abbreviation colon :: char where "colon \<equiv> CHR '':''"
abbreviation lbrack :: char where "lbrack \<equiv> CHR ''[''"
abbreviation rbrack :: char where "rbrack \<equiv> CHR '']''"

text \<open>The parts around the last colon, if there is one.\<close>

definition last_colon :: "string \<Rightarrow> (string \<times> string) option" where
  "last_colon s =
     (if colon \<in> set s
      then let port = rev (takeWhile (\<lambda>c. c \<noteq> colon) (rev s))
           in Some (take (length s - Suc (length port)) s, port)
      else None)"

text \<open>
  The bracketed form wants the first closing bracket right before the last colon; the plain form
  has no colon in the host; neither part may hold a stray bracket. Every error is \<open>None\<close>.
\<close>

definition SplitHostPort :: "string \<Rightarrow> (string \<times> string) option" where
  "SplitHostPort hp =
     (case last_colon hp of
        None \<Rightarrow> None
      | Some (before, port) \<Rightarrow>
          (case before of
             c # rest \<Rightarrow>
               if c = lbrack then
                 let host = takeWhile (\<lambda>c. c \<noteq> rbrack) rest
                 in if rest = host @ [rbrack] \<and> lbrack \<notin> set (tl hp) \<and> rbrack \<notin> set port
                    then Some (host, port) else None
               else if colon \<in> set before \<or> lbrack \<in> set hp \<or> rbrack \<in> set hp then None
               else Some (before, port)
           | [] \<Rightarrow> if lbrack \<in> set hp \<or> rbrack \<in> set hp then None else Some ([], port)))"

definition clientIP :: "string \<Rightarrow> string" where
  "clientIP remote = (case SplitHostPort remote of None \<Rightarrow> remote | Some (host, _) \<Rightarrow> host)"

text \<open>\<^verbatim>\<open>net.JoinHostPort\<close>: a host with a colon goes into brackets.\<close>

definition JoinHostPort :: "string \<Rightarrow> string \<Rightarrow> string" where
  "JoinHostPort host port =
     (if colon \<in> set host then lbrack # host @ rbrack # colon # port else host @ colon # port)"

lemma last_colon_append:
  assumes "colon \<notin> set port"
  shows "last_colon (s @ colon # port) = Some (s, port)"
proof -
  have "takeWhile (\<lambda>c. c \<noteq> colon) (rev port @ colon # rev s) = rev port"
    using assms by (induction port rule: rev_induct) (auto simp: takeWhile_append)
  then show ?thesis by (simp add: last_colon_def Let_def)
qed

lemma SplitHostPort_Join:
  assumes "colon \<notin> set port" "lbrack \<notin> set port" "rbrack \<notin> set port"
    and "lbrack \<notin> set host" "rbrack \<notin> set host"
  shows "SplitHostPort (JoinHostPort host port) = Some (host, port)"
proof (cases "colon \<in> set host")
  case True
  have "JoinHostPort host port = (lbrack # host @ [rbrack]) @ colon # port"
    using True by (simp add: JoinHostPort_def)
  then have "last_colon (JoinHostPort host port) = Some (lbrack # host @ [rbrack], port)"
    using last_colon_append [OF assms(1), of "lbrack # host @ [rbrack]"] by simp
  moreover have "takeWhile (\<lambda>c. c \<noteq> rbrack) (host @ [rbrack]) = host"
    using assms(5) by (simp add: takeWhile_append)
  ultimately show ?thesis
    using True assms by (simp add: SplitHostPort_def JoinHostPort_def Let_def)
next
  case False
  then have "last_colon (JoinHostPort host port) = Some (host, port)"
    using last_colon_append [OF assms(1)] by (simp add: JoinHostPort_def)
  with False assms show ?thesis
    by (auto simp: SplitHostPort_def JoinHostPort_def split: list.splits)
qed

end
