(* ===== verification/Owner.thy ===== *)
theory Owner
  imports RateLimit Password Totp Webauthn DeviceAuth Go_Net
begin

text \<open>
  The pairing and device-management handlers of \<^verbatim>\<open>identity/owner.go\<close>, over the rate limiter,
  the pairing attempts, the three concrete verifiers and the identity store. A handler runs at
  one instant; the random source, the failures of the database and the answers of the
  third-party libraries are arguments.
\<close>


section \<open>Verifiers behind the interface\<close>

text \<open>
  The attempts share the owner's verifier objects through pointers; \<open>vref\<close> is such a pointer and
  \<open>vheap\<close> holds the objects (\<open>None\<close> for a factor that is not configured).
\<close>

datatype vref = RefPassword | RefTOTP | RefPasskey

record ('wa, 'user, 'sess) vheap =
  h_password :: "PasswordVerifier option"
  h_totp :: "TOTPVerifier option"
  h_passkey :: "('wa, 'user, 'sess) WebAuthnVerifier"

record ('wa, 'user, 'sess, 'parsed) identity_env =
  env_idkey :: idkey
  env_totp :: totp_validate
  env_wa :: "('wa, 'user, 'sess, 'parsed) webauthn_lib"
  env_fold :: "nat \<Rightarrow> nat"

fun owner_dispatch ::
    "('wa, 'user, 'sess, 'parsed) identity_env \<Rightarrow> (vref, ('wa, 'user, 'sess) vheap) dispatch" where
  "owner_dispatch env now RefPassword h ev =
     (case h_password h of
        None \<Rightarrow> (h, Some (ErrFactorNotImplemented FactorPassword))
      | Some p \<Rightarrow> (h, PasswordVerify (env_idkey env) p ev))"
| "owner_dispatch env now RefTOTP h ev =
     (case h_totp h of
        None \<Rightarrow> (h, Some (ErrFactorNotImplemented FactorTOTP))
      | Some t \<Rightarrow> (let (t', r) = TOTPVerify (env_totp env) now t ev in (h\<lparr>h_totp := Some t'\<rparr>, r)))"
| "owner_dispatch env now RefPasskey h ev = (h, WebAuthnVerify (env_wa env) (h_passkey h) ev)"


section \<open>Model of the handlers\<close>

record OwnerConfig =
  c_Email :: string
  c_PasswordHash :: string
  c_TOTPSecret :: string
  c_WebAuthnRPID :: string
  c_WebAuthnDisplayName :: string
  c_WebAuthnOrigins :: "string list"

record pairingRecord =
  pr_attempt :: "vref Attempt"
  pr_deviceName :: string
  pr_platform :: string

record ('wa, 'user, 'sess) Owner =
  o_email :: string
  o_heap :: "('wa, 'user, 'sess) vheap"
  o_limiter :: RateLimiter
  o_attempts :: "string \<rightharpoonup> pairingRecord"

definition NewOwner ::
    "('wa, 'user, 'sess, 'parsed) identity_env \<Rightarrow> OwnerConfig \<Rightarrow> RateLimiter \<Rightarrow>
     ('wa, 'user, 'sess) Owner" where
  "NewOwner env cfg limiter =
     \<lparr>o_email = c_Email cfg,
      o_heap = \<lparr>h_password = (if c_PasswordHash cfg \<noteq> [] then Some (NewPasswordVerifier (c_PasswordHash cfg)) else None),
                h_totp = (if c_TOTPSecret cfg \<noteq> [] then Some (NewTOTPVerifier (c_TOTPSecret cfg)) else None),
                h_passkey = NewWebAuthnVerifier (env_wa env) (c_WebAuthnRPID cfg)
                              (c_WebAuthnDisplayName cfg) (c_WebAuthnOrigins cfg)\<rparr>,
      o_limiter = limiter, o_attempts = Map.empty\<rparr>"

definition verifiers :: "('wa, 'user, 'sess) Owner \<Rightarrow> (factor \<rightharpoonup> vref option)" where
  "verifiers ow =
     (let m = [FactorPasskey \<mapsto> Some RefPasskey];
          m1 = (if h_password (o_heap ow) \<noteq> None then m(FactorPassword \<mapsto> Some RefPassword) else m)
      in if h_totp (o_heap ow) \<noteq> None then m1(FactorTOTP \<mapsto> Some RefTOTP) else m1)"

definition sweepAttempts :: "instant \<Rightarrow> ('wa, 'user, 'sess) Owner \<Rightarrow> ('wa, 'user, 'sess) Owner" where
  "sweepAttempts now ow =
     ow\<lparr>o_attempts := map_sweep (\<lambda>rec. Expired now (pr_attempt rec)) (o_attempts ow)\<rparr>"

text \<open>\<^verbatim>\<open>randomID\<close>: sixteen random bytes in hexadecimal.\<close>

definition randomID :: "string option \<Rightarrow> string option" where
  "randomID rnd = map_option hex_encode rnd"

text \<open>The response of a handler: the status and what the body says.\<close>

datatype owner_body =
    OwnerError string
  | Started string "factor list"
  | OutstandingFactors "factor list"
  | Incomplete "factor list"
  | PairedDevice string
  | DeviceList "DeviceInfo list"
  | NoBody

type_synonym owner_resp = "nat \<times> owner_body"

definition handlePairStart ::
    "instant \<Rightarrow> string option \<Rightarrow> ('wa, 'user, 'sess) Owner \<Rightarrow> http_request \<Rightarrow>
     owner_resp \<times> ('wa, 'user, 'sess) Owner" where
  "handlePairStart now rnd ow r =
     (if req_method r \<noteq> MethodPost
      then ((StatusMethodNotAllowed, OwnerError ''method not allowed''), ow)
      else case req_json r of
             JsonObject body \<Rightarrow>
               (case StdDecode (body ''device_pubkey'') of
                  None \<Rightarrow> ((StatusBadRequest, OwnerError ''device_pubkey must be a base64-encoded ed25519 public key''), ow)
                | Some raw \<Rightarrow>
                    if length raw \<noteq> PublicKeySize
                    then ((StatusBadRequest, OwnerError ''device_pubkey must be a base64-encoded ed25519 public key''), ow)
                    else case randomID rnd of
                           None \<Rightarrow> ((StatusInternalServerError, OwnerError ''failed to start pairing''), ow)
                         | Some pid \<Rightarrow>
                             let attempt = NewAttempt now pid (body ''device_pubkey'') (verifiers ow);
                                 ow1 = sweepAttempts now ow;
                                 rec = \<lparr>pr_attempt = attempt, pr_deviceName = body ''device_name'',
                                        pr_platform = body ''platform''\<rparr>
                             in ((StatusOK, Started pid (Outstanding attempt)),
                                 ow1\<lparr>o_attempts := (o_attempts ow1)(pid \<mapsto> rec)\<rparr>))
           | _ \<Rightarrow> ((StatusBadRequest, OwnerError ''invalid JSON body''), ow))"

definition limiterFailure :: "instant \<Rightarrow> string \<Rightarrow> ('wa, 'user, 'sess) Owner \<Rightarrow> ('wa, 'user, 'sess) Owner" where
  "limiterFailure now ip ow = ow\<lparr>o_limiter := RecordFailure now (o_limiter ow) ip (o_email ow)\<rparr>"

definition limiterSuccess :: "string \<Rightarrow> ('wa, 'user, 'sess) Owner \<Rightarrow> ('wa, 'user, 'sess) Owner" where
  "limiterSuccess ip ow = ow\<lparr>o_limiter := RecordSuccess (o_limiter ow) ip (o_email ow)\<rparr>"

definition satisfyFactor ::
    "('wa, 'user, 'sess, 'parsed) identity_env \<Rightarrow> instant \<Rightarrow> ('wa, 'user, 'sess) Owner \<Rightarrow>
     string \<Rightarrow> string \<Rightarrow> factor \<Rightarrow> string \<Rightarrow> owner_resp \<times> ('wa, 'user, 'sess) Owner" where
  "satisfyFactor env now ow ip pid f ev =
     (let ow1 = sweepAttempts now ow
      in case o_attempts ow1 pid of
           None \<Rightarrow> ((StatusNotFound, OwnerError ''unknown pairing attempt''), ow1)
         | Some rec \<Rightarrow>
             let (err, heap', attempt') =
                   Satisfy (owner_dispatch env) now (o_heap ow1) (pr_attempt rec) f ev;
                 ow2 = ow1\<lparr>o_heap := heap',
                           o_attempts := (o_attempts ow1)(pid \<mapsto> rec\<lparr>pr_attempt := attempt'\<rparr>)\<rparr>
             in case err of
                  None \<Rightarrow> ((StatusOK, OutstandingFactors (Outstanding attempt')), limiterSuccess ip ow2)
                | Some ErrPairingExpired \<Rightarrow> ((StatusGone, OwnerError ''pairing attempt expired''), ow2)
                | Some ErrPairingConsumed \<Rightarrow>
                    ((StatusConflict, OwnerError ''pairing attempt already completed''), ow2)
                | Some (ErrUnknownFactor _) \<Rightarrow> ((StatusBadRequest, OwnerError ''unknown factor''), ow2)
                | Some _ \<Rightarrow> ((StatusUnauthorized, OwnerError ''invalid credentials''), limiterFailure now ip ow2))"

text \<open>The guards shared by the three factor endpoints, then the endpoint's own continuation.\<close>

definition factorEndpoint ::
    "instant \<Rightarrow> ('wa, 'user, 'sess) Owner \<Rightarrow> http_request \<Rightarrow>
     (string \<Rightarrow> (string \<Rightarrow> string) \<Rightarrow> owner_resp \<times> ('wa, 'user, 'sess) Owner) \<Rightarrow>
     owner_resp \<times> ('wa, 'user, 'sess) Owner" where
  "factorEndpoint now ow r k =
     (if req_method r \<noteq> MethodPost
      then ((StatusMethodNotAllowed, OwnerError ''method not allowed''), ow)
      else case req_json r of
             JsonObject body \<Rightarrow>
               let ip = clientIP (req_remote r)
               in (case Allow now (o_limiter ow) ip (o_email ow) of
                     Inl _ \<Rightarrow> ((StatusTooManyRequests, OwnerError ''too many failed attempts''), ow)
                   | Inr _ \<Rightarrow> k ip body)
           | _ \<Rightarrow> ((StatusBadRequest, OwnerError ''invalid JSON body''), ow))"

definition handlePairPassword ::
    "('wa, 'user, 'sess, 'parsed) identity_env \<Rightarrow> instant \<Rightarrow> ('wa, 'user, 'sess) Owner \<Rightarrow> http_request \<Rightarrow>
     owner_resp \<times> ('wa, 'user, 'sess) Owner" where
  "handlePairPassword env now ow r =
     factorEndpoint now ow r (\<lambda>ip body.
       if o_email ow = [] \<or> \<not> EqualFold (env_fold env) (body ''email'') (o_email ow)
       then ((StatusUnauthorized, OwnerError ''invalid credentials''), limiterFailure now ip ow)
       else satisfyFactor env now ow ip (body ''pairing_id'') FactorPassword (body ''password''))"

definition handlePairTOTP ::
    "('wa, 'user, 'sess, 'parsed) identity_env \<Rightarrow> instant \<Rightarrow> ('wa, 'user, 'sess) Owner \<Rightarrow> http_request \<Rightarrow>
     owner_resp \<times> ('wa, 'user, 'sess) Owner" where
  "handlePairTOTP env now ow r =
     factorEndpoint now ow r (\<lambda>ip body.
       satisfyFactor env now ow ip (body ''pairing_id'') FactorTOTP (body ''code''))"

definition handlePairPasskey ::
    "('wa, 'user, 'sess, 'parsed) identity_env \<Rightarrow> instant \<Rightarrow> ('wa, 'user, 'sess) Owner \<Rightarrow> http_request \<Rightarrow>
     owner_resp \<times> ('wa, 'user, 'sess) Owner" where
  "handlePairPasskey env now ow r =
     factorEndpoint now ow r (\<lambda>ip body.
       satisfyFactor env now ow ip (body ''pairing_id'') FactorPasskey (body ''assertion''))"

definition handlePairComplete ::
    "instant \<Rightarrow> int \<Rightarrow> string option \<Rightarrow> bool \<Rightarrow> ('wa, 'user, 'sess) Owner \<Rightarrow> DB \<Rightarrow> http_request \<Rightarrow>
     owner_resp \<times> ('wa, 'user, 'sess) Owner \<times> DB" where
  "handlePairComplete now unix rnd fault ow db r =
     (if req_method r \<noteq> MethodPost
      then ((StatusMethodNotAllowed, OwnerError ''method not allowed''), ow, db)
      else case req_json r of
             JsonObject body \<Rightarrow>
               let pid = body ''pairing_id'';
                   ow1 = sweepAttempts now ow
               in (case o_attempts ow1 pid of
                     None \<Rightarrow> ((StatusNotFound, OwnerError ''unknown pairing attempt''), ow1, db)
                   | Some rec \<Rightarrow>
                       (case Complete now (pr_attempt rec) of
                          (Some e, a') \<Rightarrow>
                            let ow2 = ow1\<lparr>o_attempts := (o_attempts ow1)(pid \<mapsto> rec\<lparr>pr_attempt := a'\<rparr>)\<rparr>
                            in ((case e of
                                   ErrPairingIncomplete _ \<Rightarrow> (StatusConflict, Incomplete (Outstanding a'))
                                 | ErrPairingExpired \<Rightarrow> (StatusGone, OwnerError ''pairing attempt expired'')
                                 | ErrPairingConsumed \<Rightarrow>
                                     (StatusConflict, OwnerError ''pairing attempt already completed'')
                                 | _ \<Rightarrow> (StatusInternalServerError, OwnerError ''failed to complete pairing'')),
                                ow2, db)
                        | (None, a') \<Rightarrow>
                            let ow2 = ow1\<lparr>o_attempts := map_delete (o_attempts ow1) pid\<rparr>
                            in (case randomID rnd of
                                  None \<Rightarrow> ((StatusInternalServerError, OwnerError ''failed to complete pairing''), ow2, db)
                                | Some did \<Rightarrow>
                                    (case StorePairDevice fault unix db did (pr_deviceName rec)
                                            (pr_platform rec) (a_DevicePub a') of
                                       (Inl _, db') \<Rightarrow>
                                         ((StatusInternalServerError, OwnerError ''failed to store paired device''), ow2, db')
                                     | (Inr _, db') \<Rightarrow> ((StatusOK, PairedDevice did), ow2, db')))))
           | _ \<Rightarrow> ((StatusBadRequest, OwnerError ''invalid JSON body''), ow, db))"

definition handleDevices ::
    "(device_row list \<Rightarrow> device_row list) \<Rightarrow> bool \<Rightarrow> DB \<Rightarrow> http_request \<Rightarrow> owner_resp" where
  "handleDevices order fault db r =
     (if req_method r \<noteq> MethodGet then (StatusMethodNotAllowed, OwnerError ''method not allowed'')
      else case StoreListDevices order fault db of
             Inl _ \<Rightarrow> (StatusInternalServerError, OwnerError ''failed to list devices'')
           | Inr ds \<Rightarrow> (StatusOK, DeviceList ds))"

definition handleDevicesRevoke :: "bool \<Rightarrow> DB \<Rightarrow> http_request \<Rightarrow> owner_resp \<times> DB" where
  "handleDevicesRevoke fault db r =
     (if req_method r \<noteq> MethodPost then ((StatusMethodNotAllowed, OwnerError ''method not allowed''), db)
      else case req_json r of
             JsonObject body \<Rightarrow>
               if body ''device_id'' = [] then ((StatusBadRequest, OwnerError ''device_id is required''), db)
               else (case StoreRevokeDevice fault db (body ''device_id'') of
                       (Inl NoRows, db') \<Rightarrow> ((StatusNotFound, OwnerError ''no such device''), db')
                     | (Inl _, db') \<Rightarrow> ((StatusInternalServerError, OwnerError ''failed to revoke device''), db')
                     | (Inr _, db') \<Rightarrow> ((StatusNoContent, NoBody), db'))
           | _ \<Rightarrow> ((StatusBadRequest, OwnerError ''device_id is required''), db))"

text \<open>
  The routes. A call carries the request and what the daemon draws from its environment while it
  serves it: the instant, the Unix time, the random bytes and whether the database fails.
\<close>

record owner_call =
  oc_now :: instant
  oc_unix :: int
  oc_rnd :: "string option"
  oc_fault :: bool
  oc_req :: http_request

definition RegisterPairing ::
    "('wa, 'user, 'sess, 'parsed) identity_env \<Rightarrow> owner_call \<Rightarrow> ('wa, 'user, 'sess) Owner \<Rightarrow> DB \<Rightarrow>
     owner_resp \<times> ('wa, 'user, 'sess) Owner \<times> DB" where
  "RegisterPairing env c ow db =
     (let r = oc_req c; now = oc_now c; pure = (\<lambda>(resp, ow'). (resp, ow', db))
      in if req_path r = ''/owner/pair/start'' then pure (handlePairStart now (oc_rnd c) ow r)
         else if req_path r = ''/owner/pair/password'' then pure (handlePairPassword env now ow r)
         else if req_path r = ''/owner/pair/totp'' then pure (handlePairTOTP env now ow r)
         else if req_path r = ''/owner/pair/passkey'' then pure (handlePairPasskey env now ow r)
         else if req_path r = ''/owner/pair/complete''
              then handlePairComplete now (oc_unix c) (oc_rnd c) (oc_fault c) ow db r
         else ((StatusNotFound, NoBody), ow, db))"

definition RegisterDeviceManagement ::
    "(device_row list \<Rightarrow> device_row list) \<Rightarrow> bool \<Rightarrow> DB \<Rightarrow> http_request \<Rightarrow> owner_resp \<times> DB" where
  "RegisterDeviceManagement order fault db r =
     (if req_path r = ''/owner/devices'' then (handleDevices order fault db r, db)
      else if req_path r = ''/owner/devices/revoke'' then handleDevicesRevoke fault db r
      else ((StatusNotFound, NoBody), db))"


section \<open>What each handler does to the attempts\<close>

lemma Expired_cong: "a_StartedAt a = a_StartedAt b \<Longrightarrow> Expired now a = Expired now b"
  by (simp add: Expired_def)

lemma sweepAttempts_simps [simp]:
  "o_heap (sweepAttempts now ow) = o_heap ow"
  "o_limiter (sweepAttempts now ow) = o_limiter ow"
  "o_email (sweepAttempts now ow) = o_email ow"
  by (simp_all add: sweepAttempts_def)

lemma sweepAttempts_Some:
  "o_attempts (sweepAttempts now ow) pid = Some rec \<longleftrightarrow>
     o_attempts ow pid = Some rec \<and> \<not> Expired now (pr_attempt rec)"
  by (simp add: sweepAttempts_def sweep_simps)

lemma limiter_frame [simp]:
  "o_attempts (limiterFailure now ip ow) = o_attempts ow" "o_attempts (limiterSuccess ip ow) = o_attempts ow"
  "o_heap (limiterFailure now ip ow) = o_heap ow" "o_heap (limiterSuccess ip ow) = o_heap ow"
  "o_email (limiterFailure now ip ow) = o_email ow" "o_email (limiterSuccess ip ow) = o_email ow"
  by (simp_all add: limiterFailure_def limiterSuccess_def)

text \<open>
  The whole of \<open>satisfyFactor\<close> in one rule: the attempt is unknown, or it is checked and one of
  the five answers is given. The status determines what happened to the limiter.
\<close>

lemma satisfyFactor_cases:
  assumes "satisfyFactor env now ow ip pid f ev = ((st, b), ow')"
  obtains (unknown) "o_attempts (sweepAttempts now ow) pid = None" "st = StatusNotFound"
      "ow' = sweepAttempts now ow"
  | (known) rec err heap' a' ow2 where
      "o_attempts (sweepAttempts now ow) pid = Some rec"
      "Satisfy (owner_dispatch env) now (o_heap ow) (pr_attempt rec) f ev = (err, heap', a')"
      "ow2 = (sweepAttempts now ow)\<lparr>o_heap := heap',
               o_attempts := (o_attempts (sweepAttempts now ow))(pid \<mapsto> rec\<lparr>pr_attempt := a'\<rparr>)\<rparr>"
      "st = StatusOK \<longleftrightarrow> err = None"
      "st \<in> {StatusOK, StatusGone, StatusConflict, StatusBadRequest, StatusUnauthorized}"
      "ow' = (if st = StatusOK then limiterSuccess ip ow2
              else if st = StatusUnauthorized then limiterFailure now ip ow2 else ow2)"
proof (cases "o_attempts (sweepAttempts now ow) pid")
  case None
  with assms show ?thesis by (intro unknown) (auto simp: satisfyFactor_def)
next
  case (Some rec)
  obtain err heap' a' where sat:
    "Satisfy (owner_dispatch env) now (o_heap ow) (pr_attempt rec) f ev = (err, heap', a')"
    by (metis prod_cases3)
  show ?thesis
    by (rule known [OF Some sat refl]; insert assms Some sat)
      (auto simp: satisfyFactor_def Let_def split: option.splits auth_error.splits)
qed

end
