(* ===== verification/Owner_Chain.thy ===== *)
theory Owner_Chain
  imports Owner
begin

text \<open>
  The pairing service as a whole: sequences of requests to the routes of \<^verbatim>\<open>RegisterPairing\<close>,
  interleaved with revocations and with calls of \<^verbatim>\<open>BindSession\<close>, and what a paired device or a
  lockout says about the requests that came before.
\<close>


section \<open>Histories of requests\<close>

datatype ('user, 'sess) owner_event =
    Pair owner_call
  | Bind 'user 'sess
  | Revoke bool http_request

type_synonym ('wa, 'user, 'sess) owner_state = "('wa, 'user, 'sess) Owner \<times> DB"

definition BindPasskey ::
    "('wa, 'user, 'sess) Owner \<Rightarrow> 'user \<Rightarrow> 'sess \<Rightarrow> ('wa, 'user, 'sess) Owner" where
  "BindPasskey ow u s = ow\<lparr>o_heap := (o_heap ow)\<lparr>h_passkey := BindSession (h_passkey (o_heap ow)) u s\<rparr>\<rparr>"

fun owner_step ::
    "('wa, 'user, 'sess, 'parsed) identity_env \<Rightarrow> ('wa, 'user, 'sess) owner_state \<Rightarrow>
     ('user, 'sess) owner_event \<Rightarrow> ('wa, 'user, 'sess) owner_state" where
  "owner_step env (ow, db) (Pair c) = snd (RegisterPairing env c ow db)"
| "owner_step env (ow, db) (Bind u s) = (BindPasskey ow u s, db)"
| "owner_step env (ow, db) (Revoke fault r) = (ow, snd (handleDevicesRevoke fault db r))"

abbreviation owner_run ::
    "('wa, 'user, 'sess, 'parsed) identity_env \<Rightarrow> ('wa, 'user, 'sess) owner_state \<Rightarrow>
     ('user, 'sess) owner_event list \<Rightarrow> ('wa, 'user, 'sess) owner_state" where
  "owner_run env \<equiv> run_steps (owner_step env)"

definition answer ::
    "('wa, 'user, 'sess, 'parsed) identity_env \<Rightarrow> ('wa, 'user, 'sess) owner_state \<Rightarrow> owner_call \<Rightarrow> owner_resp"
  where "answer env s c = fst (RegisterPairing env c (fst s) (snd s))"

definition call_body :: "owner_call \<Rightarrow> string \<Rightarrow> string" where
  "call_body c k = (case req_json (oc_req c) of JsonObject body \<Rightarrow> body k | _ \<Rightarrow> [])"

text \<open>The factor an endpoint checks, and the evidence the request brings for it.\<close>

definition endpoint_factor :: "owner_call \<Rightarrow> factor option" where
  "endpoint_factor c =
     (if req_path (oc_req c) = ''/owner/pair/password'' then Some FactorPassword
      else if req_path (oc_req c) = ''/owner/pair/totp'' then Some FactorTOTP
      else if req_path (oc_req c) = ''/owner/pair/passkey'' then Some FactorPasskey
      else None)"

definition evidence :: "owner_call \<Rightarrow> string" where
  "evidence c = call_body c (if endpoint_factor c = Some FactorPassword then ''password''
                             else if endpoint_factor c = Some FactorTOTP then ''code'' else ''assertion'')"

lemma endpoint_factor_simps [simp]:
  "req_path (oc_req c) = ''/owner/pair/password'' \<Longrightarrow> endpoint_factor c = Some FactorPassword"
  "req_path (oc_req c) = ''/owner/pair/totp'' \<Longrightarrow> endpoint_factor c = Some FactorTOTP"
  "req_path (oc_req c) = ''/owner/pair/passkey'' \<Longrightarrow> endpoint_factor c = Some FactorPasskey"
  "req_path (oc_req c) = ''/owner/pair/start'' \<Longrightarrow> endpoint_factor c = None"
  "req_path (oc_req c) = ''/owner/pair/complete'' \<Longrightarrow> endpoint_factor c = None"
  by (simp_all add: endpoint_factor_def)

lemma factorEndpoint_cases:
  assumes "factorEndpoint now ow r k = (resp, ow')"
  obtains (refused) "ow' = ow" "fst resp \<in> {StatusMethodNotAllowed, StatusTooManyRequests, StatusBadRequest}"
  | (served) body where "req_json r = JsonObject body"
      "Allow now (o_limiter ow) (clientIP (req_remote r)) (o_email ow) = Inr ()"
      "k (clientIP (req_remote r)) body = (resp, ow')"
  using assms that
  by (fastforce simp: factorEndpoint_def Let_def split: if_splits json_body.splits sum.splits)

text \<open>
  The three factor endpoints are one: a refusal that changes nothing, a failure for the email, or
  \<open>satisfyFactor\<close> on the factor and the evidence of the endpoint.
\<close>

lemma factor_call_cases:
  assumes "endpoint_factor c = Some f"
    and "RegisterPairing env c ow db = ((st, b), ow', db')"
  obtains (refused) "ow' = ow" "db' = db"
      "st \<in> {StatusMethodNotAllowed, StatusTooManyRequests, StatusBadRequest}"
  | (email) "ow' = limiterFailure (oc_now c) (clientIP (req_remote (oc_req c))) ow" "db' = db"
      "st = StatusUnauthorized"
  | (checked)
      "satisfyFactor env (oc_now c) ow (clientIP (req_remote (oc_req c))) (call_body c ''pairing_id'') f (evidence c)
         = ((st, b), ow')" "db' = db"
      "f = FactorPassword \<longrightarrow> o_email ow \<noteq> [] \<and> EqualFold (env_fold env) (call_body c ''email'') (o_email ow)"
proof -
  let ?r = "oc_req c" and ?now = "oc_now c"
  consider (pw) "req_path ?r = ''/owner/pair/password''" "f = FactorPassword"
    | (totp) "req_path ?r = ''/owner/pair/totp''" "f = FactorTOTP"
    | (passkey) "req_path ?r = ''/owner/pair/passkey''" "f = FactorPasskey"
    using assms(1) by (auto simp: endpoint_factor_def split: if_splits)
  then show ?thesis
  proof cases
    case pw
    then have db: "db' = db" and h: "handlePairPassword env ?now ow ?r = ((st, b), ow')"
      using assms(2) by (auto simp: RegisterPairing_def split: prod.splits)
    show ?thesis
      using h unfolding handlePairPassword_def
    proof (cases rule: factorEndpoint_cases)
      case refused
      with db that(1) show ?thesis by simp
    next
      case (served body)
      with db pw show ?thesis
        using that(2,3) by (auto simp: call_body_def evidence_def split: if_splits)
    qed
  next
    case totp
    then have db: "db' = db" and h: "handlePairTOTP env ?now ow ?r = ((st, b), ow')"
      using assms(2) by (auto simp: RegisterPairing_def split: prod.splits)
    show ?thesis
      using h unfolding handlePairTOTP_def
    proof (cases rule: factorEndpoint_cases)
      case refused
      with db that(1) show ?thesis by simp
    next
      case (served body)
      with db totp show ?thesis
        using that(3) required_distinct by (auto simp: call_body_def evidence_def)
    qed
  next
    case passkey
    then have db: "db' = db" and h: "handlePairPasskey env ?now ow ?r = ((st, b), ow')"
      using assms(2) by (auto simp: RegisterPairing_def split: prod.splits)
    show ?thesis
      using h unfolding handlePairPasskey_def
    proof (cases rule: factorEndpoint_cases)
      case refused
      with db that(1) show ?thesis by simp
    next
      case (served body)
      with db passkey show ?thesis
        using that(3) required_distinct by (auto simp: call_body_def evidence_def)
    qed
  qed
qed

text \<open>Starting and completing an attempt, case by case.\<close>

lemma start_call_cases:
  assumes "req_path (oc_req c) = ''/owner/pair/start''"
    and "RegisterPairing env c ow db = ((st, b), ow', db')"
  obtains (refused) "ow' = ow" "db' = db" "st \<noteq> StatusOK"
  | (started) pid raw where
      "st = StatusOK" "StdDecode (call_body c ''device_pubkey'') = Some raw" "length raw = PublicKeySize"
      "b = Started pid (Outstanding (NewAttempt (oc_now c) pid (call_body c ''device_pubkey'') (verifiers ow)))"
      "db' = db"
      "ow' = (sweepAttempts (oc_now c) ow)\<lparr>o_attempts := (o_attempts (sweepAttempts (oc_now c) ow))(pid \<mapsto>
               \<lparr>pr_attempt = NewAttempt (oc_now c) pid (call_body c ''device_pubkey'') (verifiers ow),
                pr_deviceName = call_body c ''device_name'', pr_platform = call_body c ''platform''\<rparr>)\<rparr>"
  using assms that
  by (fastforce simp: RegisterPairing_def handlePairStart_def call_body_def Let_def
      split: if_splits json_body.splits option.splits)

lemma StorePairDevice_error: "StorePairDevice fault now db did name platform pub = (Inl e, db') \<Longrightarrow> db' = db"
  by (auto simp: StorePairDevice_def PairDevice_def Let_def split: if_splits)

lemma complete_call_cases:
  assumes "req_path (oc_req c) = ''/owner/pair/complete''"
    and "RegisterPairing env c ow db = ((st, b), ow', db')"
  obtains (refused) "ow' = ow" "db' = db" "st \<noteq> StatusOK"
  | (swept) "ow' = sweepAttempts (oc_now c) ow" "db' = db" "st \<noteq> StatusOK"
  | (completed) rec where
      "o_attempts ow (call_body c ''pairing_id'') = Some rec"
      "\<forall>f \<in> set RequiredFactors. is_satisfied (pr_attempt rec) f"
      "o_attempts ow' = map_delete (o_attempts (sweepAttempts (oc_now c) ow)) (call_body c ''pairing_id'')"
      "o_heap ow' = o_heap ow" "o_limiter ow' = o_limiter ow" "o_email ow' = o_email ow"
      "st \<noteq> StatusOK \<and> db' = db \<or>
         (\<exists>did. st = StatusOK \<and> b = PairedDevice did \<and>
            StorePairDevice (oc_fault c) (oc_unix c) db did (pr_deviceName rec) (pr_platform rec)
              (a_DevicePub (pr_attempt rec)) = (Inr (), db'))"
proof (cases "req_method (oc_req c) = MethodPost \<and> (\<exists>body. req_json (oc_req c) = JsonObject body)")
  case False
  with assms show ?thesis
    by (intro refused) (auto simp: RegisterPairing_def handlePairComplete_def Let_def split: json_body.splits if_splits)
next
  case True
  then obtain body where body: "req_json (oc_req c) = JsonObject body" "req_method (oc_req c) = MethodPost"
    by blast
  let ?pid = "body ''pairing_id''" and ?sw = "sweepAttempts (oc_now c) ow"
  have pid: "call_body c ''pairing_id'' = ?pid" using body by (simp add: call_body_def)
  note serve = assms body
  show ?thesis
  proof (cases "o_attempts ?sw ?pid")
    case None
    with serve show ?thesis by (intro swept) (auto simp: RegisterPairing_def handlePairComplete_def Let_def)
  next
    case (Some rec)
    then have rec: "o_attempts ow ?pid = Some rec" by (simp add: sweepAttempts_Some)
    obtain e a' where ca: "Complete (oc_now c) (pr_attempt rec) = (e, a')" by fastforce
    show ?thesis
    proof (cases e)
      case (Some err)
      with ca have a': "a' = pr_attempt rec" by (auto simp: Complete_def split: if_splits)
      have "(o_attempts ?sw)(?pid \<mapsto> rec) = o_attempts ?sw"
        using \<open>o_attempts ?sw ?pid = Some rec\<close> by (simp add: map_upd_triv)
      then show ?thesis using serve Some ca a' \<open>o_attempts ?sw ?pid = Some rec\<close>
        by (intro swept) (auto simp: RegisterPairing_def handlePairComplete_def Let_def
            split: auth_error.splits)
    next
      case None
      with ca have every: "\<forall>f \<in> set RequiredFactors. is_satisfied (pr_attempt rec) f"
        using Complete_success_iff [of "oc_now c" "pr_attempt rec"] by simp
      have pub: "a_DevicePub a' = a_DevicePub (pr_attempt rec)"
        using Complete_frame(3) [of "oc_now c" "pr_attempt rec"] ca by simp
      show ?thesis
        by (rule completed [of rec, unfolded pid, OF rec every]; insert serve None ca pub Some)
          (auto simp: RegisterPairing_def handlePairComplete_def Let_def dest: StorePairDevice_error
            split: option.splits sum.splits prod.splits)
    qed
  qed
qed

lemma other_call:
  assumes "endpoint_factor c = None" "req_path (oc_req c) \<noteq> ''/owner/pair/start''"
    "req_path (oc_req c) \<noteq> ''/owner/pair/complete''"
  shows "RegisterPairing env c ow db = ((StatusNotFound, NoBody), ow, db)"
  using assms by (auto simp: RegisterPairing_def endpoint_factor_def split: if_splits)


section \<open>The configuration never changes\<close>

definition factor_ref :: "factor \<Rightarrow> vref" where
  "factor_ref f = (if f = FactorPassword then RefPassword else if f = FactorTOTP then RefTOTP else RefPasskey)"

definition attempt_ok :: "vref Attempt \<Rightarrow> bool" where
  "attempt_ok a \<longleftrightarrow>
     (\<exists>raw. StdDecode (a_DevicePub a) = Some raw \<and> length raw = PublicKeySize) \<and>
     (\<forall>f \<in> set RequiredFactors. a_verifiers a f \<in> {Some (Impl (factor_ref f)), Some (notImplemented f)})"

definition owner_ok :: "OwnerConfig \<Rightarrow> ('wa, 'user, 'sess) Owner \<Rightarrow> bool" where
  "owner_ok cfg ow \<longleftrightarrow>
     o_email ow = c_Email cfg \<and>
     (\<forall>p. h_password (o_heap ow) = Some p \<longrightarrow> p = NewPasswordVerifier (c_PasswordHash cfg)) \<and>
     (\<forall>t. h_totp (o_heap ow) = Some t \<longrightarrow> tv_secret t = c_TOTPSecret cfg) \<and>
     (\<forall>pid rec. o_attempts ow pid = Some rec \<longrightarrow> attempt_ok (pr_attempt rec))"

lemma NewOwner_ok [simp]: "owner_ok cfg (NewOwner env cfg limiter)"
  by (simp add: owner_ok_def NewOwner_def NewTOTPVerifier_def)

lemma owner_ok_limiter [simp]:
  "owner_ok cfg (limiterFailure now ip ow) = owner_ok cfg ow" "owner_ok cfg (limiterSuccess ip ow) = owner_ok cfg ow"
  by (simp_all add: owner_ok_def)

lemma dispatch_config:
  assumes "owner_dispatch env now v h ev = (h', r)"
  shows "h_password h' = h_password h" "h_passkey h' = h_passkey h"
    "\<forall>t'. h_totp h' = Some t' \<longrightarrow> (\<exists>t. h_totp h = Some t \<and> tv_secret t' = tv_secret t)"
proof -
  have secret: "tv_secret t' = tv_secret t" if "TOTPVerify val now t ev = (t', r)" for val t t'
    using that TOTPVerify_secret [of val now t ev] by simp
  show "h_password h' = h_password h" "h_passkey h' = h_passkey h"
    "\<forall>t'. h_totp h' = Some t' \<longrightarrow> (\<exists>t. h_totp h = Some t \<and> tv_secret t' = tv_secret t)"
    using assms by (cases v; auto split: option.splits prod.splits dest: secret)+
qed

lemma Satisfy_config:
  assumes "Satisfy (owner_dispatch env) now h a f ev = (r, h', a')"
  shows "h_password h' = h_password h" "h_passkey h' = h_passkey h"
    "\<forall>t'. h_totp h' = Some t' \<longrightarrow> (\<exists>t. h_totp h = Some t \<and> tv_secret t' = tv_secret t)"
proof -
  have "h' = h \<or> (\<exists>v. \<exists>r'. owner_dispatch env now v h ev = (h', r'))"
    using assms
    by (auto simp: Satisfy_def split: if_splits option.splits prod.splits elim!: Verify.elims; metis)
  then show "h_password h' = h_password h" "h_passkey h' = h_passkey h"
    "\<forall>t'. h_totp h' = Some t' \<longrightarrow> (\<exists>t. h_totp h = Some t \<and> tv_secret t' = tv_secret t)"
    using dispatch_config [of env now _ h ev h'] by (blast, blast, metis)
qed

lemma NewAttempt_ok:
  "StdDecode pub = Some raw \<Longrightarrow> length raw = PublicKeySize \<Longrightarrow> attempt_ok (NewAttempt now pid pub (verifiers ow))"
  using required_distinct
  by (auto simp: attempt_ok_def NewAttempt_def full_verifiers_apply verifiers_def factor_ref_def Let_def
      RequiredFactors_def)

lemma satisfyFactor_ok:
  assumes "satisfyFactor env now ow ip pid f ev = ((st, b), ow')" "owner_ok cfg ow"
  shows "owner_ok cfg ow'"
  using assms(1)
proof (cases rule: satisfyFactor_cases)
  case unknown
  with assms(2) show ?thesis by (auto simp: owner_ok_def sweepAttempts_Some)
next
  case (known rec err heap' a' ow2)
  note config = Satisfy_config [OF known(2)] and frame = Satisfy_frame [OF known(2)]
  have "attempt_ok (pr_attempt rec)" using known(1) assms(2) by (auto simp: owner_ok_def sweepAttempts_Some)
  then have "attempt_ok a'" using frame by (simp add: attempt_ok_def)
  then have "owner_ok cfg ow2"
    using assms(2) config known(3) by (auto simp: owner_ok_def sweepAttempts_Some)
  then show ?thesis using known(6) by (simp add: owner_ok_def)
qed

lemma RegisterPairing_ok:
  assumes "RegisterPairing env c ow db = ((st, b), ow', db')" "owner_ok cfg ow"
  shows "owner_ok cfg ow'"
proof -
  consider (factor) f where "endpoint_factor c = Some f" | (start) "req_path (oc_req c) = ''/owner/pair/start''"
    | (complete) "req_path (oc_req c) = ''/owner/pair/complete''"
    | (other) "endpoint_factor c = None" "req_path (oc_req c) \<noteq> ''/owner/pair/start''"
      "req_path (oc_req c) \<noteq> ''/owner/pair/complete''"
    by (cases "endpoint_factor c") auto
  then show ?thesis
  proof cases
    case (factor f)
    from factor assms(1) show ?thesis
      by (cases rule: factor_call_cases) (use assms(2) in \<open>auto dest: satisfyFactor_ok\<close>)
  next
    case start
    from start assms(1) show ?thesis
      by (cases rule: start_call_cases) (use assms(2) NewAttempt_ok in \<open>auto simp: owner_ok_def sweepAttempts_Some\<close>)
  next
    case complete
    from complete assms(1) show ?thesis
      by (cases rule: complete_call_cases) (use assms(2) in \<open>auto simp: owner_ok_def sweepAttempts_Some\<close>)
  next
    case other
    with assms other_call [OF other, of env ow db] show ?thesis by simp
  qed
qed

lemma owner_step_ok: "owner_ok cfg (fst s) \<Longrightarrow> owner_ok cfg (fst (owner_step env s e))"
proof (cases s)
  case (Pair ow db)
  assume ok: "owner_ok cfg (fst s)"
  show ?thesis
  proof (cases e)
    case (Pair c)
    obtain st b ow' db' where "RegisterPairing env c ow db = ((st, b), ow', db')" by (metis prod.collapse)
    with ok \<open>s = (ow, db)\<close> Pair RegisterPairing_ok show ?thesis by fastforce
  qed (use ok \<open>s = (ow, db)\<close> in \<open>auto simp: owner_ok_def BindPasskey_def\<close>)
qed

lemma owner_run_ok: "owner_ok cfg (fst s) \<Longrightarrow> owner_ok cfg (fst (owner_run env s es))"
  by (rule run_steps_invariant) (simp_all add: owner_step_ok)


section \<open>A paired device has passed the whole chain\<close>

text \<open>What it means that evidence proves a factor of the configured owner.\<close>

definition proves ::
    "('wa, 'user, 'sess, 'parsed) identity_env \<Rightarrow> OwnerConfig \<Rightarrow> ('wa, 'user, 'sess) Owner \<Rightarrow> owner_call \<Rightarrow>
     factor \<Rightarrow> bool" where
  "proves env cfg ow c f \<longleftrightarrow>
     (if f = FactorPassword
      then c_Email cfg \<noteq> [] \<and> EqualFold (env_fold env) (call_body c ''email'') (c_Email cfg) \<and>
           ComparePassword (env_idkey env) (evidence c) (c_PasswordHash cfg) = None
      else if f = FactorTOTP
      then env_totp env (evidence c) (c_TOTPSecret cfg) (oc_now c) totp_options = Some True
      else WebAuthnVerify (env_wa env) (h_passkey (o_heap ow)) (evidence c) = None)"

text \<open>
  Some request of the history went to the endpoint of the factor, for the pairing id, was answered
  with success, and proved the factor.
\<close>

definition factor_passed ::
    "('wa, 'user, 'sess, 'parsed) identity_env \<Rightarrow> OwnerConfig \<Rightarrow> ('wa, 'user, 'sess) owner_state \<Rightarrow>
     ('user, 'sess) owner_event list \<Rightarrow> string \<Rightarrow> factor \<Rightarrow> bool" where
  "factor_passed env cfg s es pid f \<longleftrightarrow>
     (\<exists>before c after. es = before @ Pair c # after \<and> endpoint_factor c = Some f \<and>
        call_body c ''pairing_id'' = pid \<and> fst (answer env (owner_run env s before) c) = StatusOK \<and>
        proves env cfg (fst (owner_run env s before)) c f)"

lemma factor_passed_snoc: "factor_passed env cfg s es pid f \<Longrightarrow> factor_passed env cfg s (es @ [e]) pid f"
  by (fastforce simp: factor_passed_def)

lemma endpoint_factor_required: "endpoint_factor c = Some f \<Longrightarrow> f \<in> set RequiredFactors"
  by (auto simp: endpoint_factor_def RequiredFactors_def split: if_splits)

lemma satisfyFactor_proves:
  assumes ok: "owner_ok cfg ow" and f: "endpoint_factor c = Some f"
    and sf: "satisfyFactor env (oc_now c) ow ip pid f (evidence c) = ((StatusOK, b), ow')"
    and email: "f = FactorPassword \<longrightarrow> o_email ow \<noteq> [] \<and> EqualFold (env_fold env) (call_body c ''email'') (o_email ow)"
  shows "proves env cfg ow c f"
  using sf
proof (cases rule: satisfyFactor_cases)
  case unknown
  then show ?thesis by simp
next
  case (known rec err heap' a' ow2)
  then have "err = None" by simp
  with known obtain v where v: "a_verifiers (pr_attempt rec) f = Some (Impl v)"
    "owner_dispatch env (oc_now c) v (o_heap ow) (evidence c) = (heap', None)"
    using Satisfy_accepts(3) by metis
  have "attempt_ok (pr_attempt rec)" using known(1) ok by (auto simp: owner_ok_def sweepAttempts_Some)
  then have ref: "v = factor_ref f"
    using endpoint_factor_required [OF f] v(1) by (auto simp: attempt_ok_def)
  have f3: "f = FactorPassword \<or> f = FactorTOTP \<or> f = FactorPasskey"
    using endpoint_factor_required [OF f] by (simp add: RequiredFactors_def)
  show ?thesis
  proof (cases "f = FactorTOTP")
    case True
    with ref v(2) required_distinct obtain t t' where
      t: "h_totp (o_heap ow) = Some t" "TOTPVerify (env_totp env) (oc_now c) t (evidence c) = (t', None)"
      by (auto simp: factor_ref_def split: option.splits prod.splits)
    have "tv_secret t = c_TOTPSecret cfg" using ok t(1) by (simp add: owner_ok_def)
    with TOTPVerify_accept [OF t(2)] True required_distinct show ?thesis by (simp add: proves_def)
  next
    case False
    with f3 v(2) ref ok email required_distinct show ?thesis
      by (auto simp: factor_ref_def proves_def owner_ok_def PasswordVerify_def NewPasswordVerifier_def
          split: option.splits)
  qed
qed

lemma satisfied_after_call:
  assumes ok: "owner_ok cfg ow" and call: "RegisterPairing env c ow db = ((st, b), ow', db')"
    and rec': "o_attempts ow' pid = Some rec'" and sat: "is_satisfied (pr_attempt rec') f"
  shows "(\<exists>rec. o_attempts ow pid = Some rec \<and> is_satisfied (pr_attempt rec) f) \<or>
         (endpoint_factor c = Some f \<and> call_body c ''pairing_id'' = pid \<and> st = StatusOK \<and> proves env cfg ow c f)"
proof (cases "endpoint_factor c")
  case (Some g)
  from Some call show ?thesis
  proof (cases rule: factor_call_cases)
    case checked
    from checked(1) show ?thesis
    proof (cases rule: satisfyFactor_cases)
      case unknown
      with rec' sat show ?thesis by (auto simp: sweepAttempts_Some)
    next
      case (known rec err heap' a' ow2)
      have pv: "proves env cfg ow c g" if "st = StatusOK"
        using satisfyFactor_proves [OF ok Some] checked that by blast
      have at: "o_attempts ow' = (o_attempts (sweepAttempts (oc_now c) ow))
          (call_body c ''pairing_id'' \<mapsto> rec\<lparr>pr_attempt := a'\<rparr>)"
        using known(3,6) by simp
      show ?thesis
      proof (cases "pid = call_body c ''pairing_id''")
        case True
        then have "is_satisfied a' f" using at rec' sat by auto
        then have "is_satisfied (pr_attempt rec) f \<or> st = StatusOK \<and> f = g"
          using Satisfy_satisfied [OF known(2)] known(4) by simp
        with True known(1) Some pv show ?thesis by (auto simp: sweepAttempts_Some)
      next
        case False
        with at rec' sat show ?thesis by (auto simp: sweepAttempts_Some)
      qed
    qed
  qed (use rec' sat in auto)
next
  case None
  consider "req_path (oc_req c) = ''/owner/pair/start''" | "req_path (oc_req c) = ''/owner/pair/complete''"
    | "RegisterPairing env c ow db = ((StatusNotFound, NoBody), ow, db)"
    using other_call [OF None] by blast
  then show ?thesis
  proof cases
    case 1
    from 1 call show ?thesis
      by (cases rule: start_call_cases)
        (use rec' sat in \<open>auto simp: sweepAttempts_Some NewAttempt_def is_satisfied_def split: if_splits\<close>)
  next
    case 2
    from 2 call show ?thesis
      by (cases rule: complete_call_cases) (use rec' sat in \<open>auto simp: sweepAttempts_Some split: if_splits\<close>)
  qed (use call rec' sat in auto)
qed

lemma satisfied_means_passed:
  assumes "o_attempts (fst (owner_run env (NewOwner env cfg limiter, db) es)) pid = Some rec"
    and "is_satisfied (pr_attempt rec) f"
  shows "factor_passed env cfg (NewOwner env cfg limiter, db) es pid f"
  using assms
proof (induction es arbitrary: rec rule: rev_induct)
  case Nil
  then show ?case by (simp add: NewOwner_def)
next
  case (snoc e es)
  let ?s0 = "(NewOwner env cfg limiter, db)"
  obtain ow db1 where s: "owner_run env ?s0 es = (ow, db1)" by fastforce
  have ok: "owner_ok cfg ow" using owner_run_ok [of cfg ?s0 env es] s by simp
  have old: "factor_passed env cfg ?s0 (es @ [e]) pid f"
    if "o_attempts ow pid = Some rec0" "is_satisfied (pr_attempt rec0) f" for rec0
    using snoc.IH that s factor_passed_snoc by (metis fst_conv)
  show ?case
  proof (cases e)
    case (Pair c)
    obtain st b ow' db' where call: "RegisterPairing env c ow db1 = ((st, b), ow', db')"
      by (metis prod.collapse)
    have "o_attempts ow' pid = Some rec" using snoc.prems(1) s Pair call by simp
    from satisfied_after_call [OF ok call this snoc.prems(2)] show ?thesis
    proof
      assume new: "endpoint_factor c = Some f \<and> call_body c ''pairing_id'' = pid \<and> st = StatusOK \<and> proves env cfg ow c f"
      then have "fst (answer env (owner_run env ?s0 es) c) = StatusOK"
        using s call by (simp add: answer_def)
      with new s Pair show ?thesis unfolding factor_passed_def by (metis append_Nil2 fst_conv)
    qed (use old in blast)
  qed (use snoc.prems s old in \<open>auto simp: BindPasskey_def\<close>)
qed

lemma paired_passed:
  assumes "answer env (owner_run env (NewOwner env cfg limiter, db) es) c = (StatusOK, PairedDevice did)"
    and "f \<in> set RequiredFactors"
  shows "factor_passed env cfg (NewOwner env cfg limiter, db) es (call_body c ''pairing_id'') f"
proof -
  let ?s0 = "(NewOwner env cfg limiter, db)"
  obtain ow db1 where s: "owner_run env ?s0 es = (ow, db1)" by fastforce
  obtain ow' db' where call: "RegisterPairing env c ow db1 = ((StatusOK, PairedDevice did), ow', db')"
    using assms(1) s by (auto simp: answer_def) (metis prod.collapse)
  have "req_path (oc_req c) = ''/owner/pair/complete''"
  proof (rule ccontr)
    assume other: "req_path (oc_req c) \<noteq> ''/owner/pair/complete''"
    show False
    proof (cases "endpoint_factor c")
      case (Some g)
      from Some call show False
        by (cases rule: factor_call_cases)
          (auto simp: satisfyFactor_def Let_def split: option.splits auth_error.splits prod.splits)
    next
      case None
      then show False
        using call other other_call [OF None, of env ow db1]
        by (cases "req_path (oc_req c) = ''/owner/pair/start''") (auto elim!: start_call_cases)
    qed
  qed
  from this call obtain rec where "o_attempts ow (call_body c ''pairing_id'') = Some rec"
    "\<forall>f \<in> set RequiredFactors. is_satisfied (pr_attempt rec) f"
    by (cases rule: complete_call_cases) auto
  with satisfied_means_passed [where pid = "call_body c ''pairing_id''" and f = f] assms(2) s
  show ?thesis by (metis fst_conv)
qed

section \<open>What a well-formed factor request does\<close>

lemma factor_call_served:
  assumes "endpoint_factor c = Some f" "req_method (oc_req c) = MethodPost" "req_json (oc_req c) = JsonObject body"
    and "Allow (oc_now c) (o_limiter ow) (clientIP (req_remote (oc_req c))) (o_email ow) = Inr ()"
    and "f = FactorPassword \<longrightarrow> o_email ow \<noteq> [] \<and> EqualFold (env_fold env) (call_body c ''email'') (o_email ow)"
  shows "RegisterPairing env c ow db =
     (let (resp, ow') = satisfyFactor env (oc_now c) ow (clientIP (req_remote (oc_req c)))
                          (call_body c ''pairing_id'') f (evidence c)
      in (resp, ow', db))"
  using assms required_distinct
  by (auto simp: endpoint_factor_def RegisterPairing_def handlePairPassword_def handlePairTOTP_def
      handlePairPasskey_def factorEndpoint_def call_body_def evidence_def Let_def split: if_splits prod.splits)

lemma satisfyFactor_accept:
  assumes "o_attempts ow pid = Some rec" "\<not> Expired now (pr_attempt rec)" "\<not> a_consumed (pr_attempt rec)"
    and "a_verifiers (pr_attempt rec) f = Some (Impl v)"
    and "owner_dispatch env now v (o_heap ow) ev = (h', None)"
  shows "\<exists>b. satisfyFactor env now ow ip pid f ev =
     ((StatusOK, b), limiterSuccess ip ((sweepAttempts now ow)\<lparr>o_heap := h', o_attempts :=
        (o_attempts (sweepAttempts now ow))(pid \<mapsto> rec\<lparr>pr_attempt := (pr_attempt rec)
           \<lparr>a_satisfied := (a_satisfied (pr_attempt rec))(f \<mapsto> True)\<rparr>\<rparr>)\<rparr>))"
  using assms sweepAttempts_Some [of now ow pid rec] by (auto simp: satisfyFactor_def Satisfy_def Let_def)

lemma sweepAttempts_same_heap [simp]: "(sweepAttempts now ow)\<lparr>o_heap := o_heap ow\<rparr> = sweepAttempts now ow"
  by (simp add: sweepAttempts_def)

lemma satisfyFactor_reject:
  assumes "o_attempts ow pid = Some rec" "\<not> Expired now (pr_attempt rec)" "\<not> a_consumed (pr_attempt rec)"
    and "a_verifiers (pr_attempt rec) f = Some (Impl v)"
    and "owner_dispatch env now v (o_heap ow) ev = (o_heap ow, Some e)"
    and "e \<notin> {ErrPairingExpired, ErrPairingConsumed} \<union> range ErrUnknownFactor"
  shows "\<exists>b. satisfyFactor env now ow ip pid f ev =
     ((StatusUnauthorized, b), limiterFailure now ip (sweepAttempts now ow))"
proof -
  have "o_attempts (sweepAttempts now ow) pid = Some rec" using assms(1,2) by (simp add: sweepAttempts_Some)
  moreover from this have "(o_attempts (sweepAttempts now ow))(pid \<mapsto> rec) = o_attempts (sweepAttempts now ow)"
    by (simp add: map_upd_triv)
  ultimately show ?thesis
    using assms(2-6) by (auto simp: satisfyFactor_def Satisfy_def Let_def split: auth_error.splits)
qed

text \<open>
  The attempt \<open>pid\<close> is under way since \<open>t0\<close>, with the factors \<open>fs\<close> done, in an installation with
  every factor configured.
\<close>

definition under_way ::
    "OwnerConfig \<Rightarrow> instant \<Rightarrow> string \<Rightarrow> factor set \<Rightarrow> ('wa, 'user, 'sess) Owner \<Rightarrow> bool" where
  "under_way cfg t0 pid fs ow \<longleftrightarrow>
     o_email ow = c_Email cfg \<and>
     h_password (o_heap ow) = Some (NewPasswordVerifier (c_PasswordHash cfg)) \<and>
     (\<exists>rec. o_attempts ow pid = Some rec \<and> a_StartedAt (pr_attempt rec) = t0 \<and> \<not> a_consumed (pr_attempt rec) \<and>
        (\<forall>f \<in> set RequiredFactors. a_verifiers (pr_attempt rec) f = Some (Impl (factor_ref f))) \<and>
        (\<forall>f \<in> fs. is_satisfied (pr_attempt rec) f))"

lemma under_way_limiter [simp]:
  "under_way cfg t0 pid fs (limiterFailure now ip ow) = under_way cfg t0 pid fs ow"
  "under_way cfg t0 pid fs (limiterSuccess ip ow) = under_way cfg t0 pid fs ow"
  by (simp_all add: under_way_def)

lemma started_under_way:
  assumes "answer env (NewOwner env cfg limiter, db) c = (StatusOK, Started pid fs)"
    and "c_PasswordHash cfg \<noteq> []" "c_TOTPSecret cfg \<noteq> []"
  obtains ow where "RegisterPairing env c (NewOwner env cfg limiter) db = ((StatusOK, Started pid fs), ow, db)"
    "under_way cfg (oc_now c) pid {} ow" "o_heap ow = o_heap (NewOwner env cfg limiter)" "o_limiter ow = limiter"
proof -
  let ?o = "NewOwner env cfg limiter"
  obtain ow db' where call: "RegisterPairing env c ?o db = ((StatusOK, Started pid fs), ow, db')"
    using assms(1) by (auto simp: answer_def) (metis prod.collapse)
  have path: "req_path (oc_req c) = ''/owner/pair/start''"
    using call
    by (auto simp: RegisterPairing_def handlePairPassword_def handlePairTOTP_def handlePairPasskey_def
        factorEndpoint_def handlePairComplete_def satisfyFactor_def Let_def
        split: if_splits prod.splits json_body.splits sum.splits option.splits auth_error.splits)
  from path call show ?thesis
  proof (cases rule: start_call_cases)
    case (started pid' raw)
    have "\<forall>f \<in> set RequiredFactors. a_verifiers (NewAttempt (oc_now c) pid (call_body c ''device_pubkey'') (verifiers ?o)) f
        = Some (Impl (factor_ref f))"
      using assms(2,3) required_distinct
      by (simp add: NewAttempt_def full_verifiers_apply verifiers_def NewOwner_def factor_ref_def Let_def
          RequiredFactors_def)
    with started assms(2,3) call show ?thesis
      by (intro that [of ow]) (auto simp: under_way_def NewOwner_def NewAttempt_def)
  qed simp
qed

lemma under_way_accept:
  assumes way: "under_way cfg t0 pid fs ow" and now: "oc_now c \<le> t0 + PairingTTL"
    and c: "endpoint_factor c = Some f" "req_method (oc_req c) = MethodPost" "req_json (oc_req c) = JsonObject body"
      "call_body c ''pairing_id'' = pid"
    and allow: "Allow (oc_now c) (o_limiter ow) (clientIP (req_remote (oc_req c))) (o_email ow) = Inr ()"
    and email: "f = FactorPassword \<longrightarrow> o_email ow \<noteq> [] \<and> EqualFold (env_fold env) (call_body c ''email'') (o_email ow)"
    and disp: "owner_dispatch env (oc_now c) (factor_ref f) (o_heap ow) (evidence c) = (h', None)"
  obtains b ow' where "RegisterPairing env c ow db = ((StatusOK, b), ow', db)"
    "under_way cfg t0 pid (insert f fs) ow'" "o_heap ow' = h'"
    "o_limiter ow' = RecordSuccess (o_limiter ow) (clientIP (req_remote (oc_req c))) (o_email ow)"
proof -
  let ?ip = "clientIP (req_remote (oc_req c))" and ?now = "oc_now c"
  obtain rec where rec: "o_attempts ow pid = Some rec" "a_StartedAt (pr_attempt rec) = t0"
    "\<not> a_consumed (pr_attempt rec)"
    "\<forall>f \<in> set RequiredFactors. a_verifiers (pr_attempt rec) f = Some (Impl (factor_ref f))"
    "\<forall>f \<in> fs. is_satisfied (pr_attempt rec) f"
    using way unfolding under_way_def by blast
  have live: "\<not> Expired ?now (pr_attempt rec)" using now rec(2) by (simp add: Expired_iff)
  have ver: "a_verifiers (pr_attempt rec) f = Some (Impl (factor_ref f))"
    using rec(4) endpoint_factor_required [OF c(1)] by blast
  obtain b where b: "satisfyFactor env ?now ow ?ip pid f (evidence c) =
     ((StatusOK, b), limiterSuccess ?ip ((sweepAttempts ?now ow)\<lparr>o_heap := h', o_attempts :=
        (o_attempts (sweepAttempts ?now ow))(pid \<mapsto> rec\<lparr>pr_attempt := (pr_attempt rec)
           \<lparr>a_satisfied := (a_satisfied (pr_attempt rec))(f \<mapsto> True)\<rparr>\<rparr>)\<rparr>))"
    using satisfyFactor_accept [OF rec(1) live rec(3) ver disp] by blast
  show ?thesis
    by (rule that [of b], subst factor_call_served [OF c(1-3) allow email], simp add: c(4) b,
        insert way rec dispatch_config(1) [OF disp])
      (auto simp: under_way_def is_satisfied_def limiterSuccess_def)
qed

text \<open>A request with a JSON object for the attempt, sent before the attempt expires.\<close>

definition timely_post :: "instant \<Rightarrow> string \<Rightarrow> owner_call \<Rightarrow> bool" where
  "timely_post t0 pid c \<longleftrightarrow> req_method (oc_req c) = MethodPost \<and> (\<exists>body. req_json (oc_req c) = JsonObject body) \<and>
     call_body c ''pairing_id'' = pid \<and> oc_now c \<le> t0 + PairingTTL"

lemma fresh_limiter:
  "Allow now NewRateLimiter ip acct = Inr ()" "RecordSuccess NewRateLimiter ip acct = NewRateLimiter"
  by (simp_all add: Allow_def locked_def NewRateLimiter_def RecordSuccess_def map_delete_def fun_eq_iff)

lemma fresh_accept:
  assumes way: "under_way cfg t0 pid fs ow" and lim: "o_limiter ow = NewRateLimiter"
    and c: "timely_post t0 pid c" "endpoint_factor c = Some f"
    and email: "f = FactorPassword \<longrightarrow> c_Email cfg \<noteq> [] \<and> EqualFold (env_fold env) (call_body c ''email'') (c_Email cfg)"
    and disp: "owner_dispatch env (oc_now c) (factor_ref f) (o_heap ow) (evidence c) = (h', None)"
  shows "\<exists>b ow'. RegisterPairing env c ow db = ((StatusOK, b), ow', db) \<and>
     under_way cfg t0 pid (insert f fs) ow' \<and> o_heap ow' = h' \<and> o_limiter ow' = NewRateLimiter"
proof -
  obtain body where body: "req_json (oc_req c) = JsonObject body" using c(1) by (auto simp: timely_post_def)
  have e: "o_email ow = c_Email cfg" using way by (simp add: under_way_def)
  show ?thesis
    by (rule under_way_accept [OF way _ c(2) _ body _ _ _ disp, where db = db])
      (use c(1) email lim e in \<open>auto simp: timely_post_def fresh_limiter\<close>)
qed

lemma under_way_complete:
  assumes way: "under_way cfg t0 pid (set RequiredFactors) ow" and post: "timely_post t0 pid c"
    and c: "req_path (oc_req c) = ''/owner/pair/complete''"
    and store: "oc_rnd c = Some rnd" "\<not> oc_fault c" "hex_encode rnd \<notin> dr_id ` set (devices db)"
  shows "fst (RegisterPairing env c ow db) = (StatusOK, PairedDevice (hex_encode rnd))"
proof -
  obtain rec where rec: "o_attempts ow pid = Some rec" "a_StartedAt (pr_attempt rec) = t0"
    "\<not> a_consumed (pr_attempt rec)" "\<forall>f \<in> set RequiredFactors. is_satisfied (pr_attempt rec) f"
    using way unfolding under_way_def by blast
  have live: "\<not> Expired (oc_now c) (pr_attempt rec)" using post rec(2) by (simp add: Expired_iff timely_post_def)
  have "fst (Complete (oc_now c) (pr_attempt rec)) = None"
    using live rec(3,4) by (simp add: Complete_success_iff)
  then obtain a' where "Complete (oc_now c) (pr_attempt rec) = (None, a')" by (metis prod.collapse)
  moreover have "o_attempts (sweepAttempts (oc_now c) ow) pid = Some rec" using rec(1) live by (simp add: sweepAttempts_Some)
  moreover have "\<not> (\<exists>q \<in> set (devices db). dr_id q = hex_encode rnd)" using store(3) by force
  ultimately show ?thesis
    using c store post
    by (auto simp: RegisterPairing_def handlePairComplete_def timely_post_def call_body_def randomID_def StorePairDevice_def
        PairDevice_def Let_def)
qed


text \<open>
  An owner who plays by the rules: every factor is configured, the attempt is started, the passkey
  ceremony is bound to \<open>u\<close> and \<open>s\<close>, each endpoint receives the right evidence in time, and the
  store can take the device.
\<close>

definition honest_chain ::
    "('wa, 'user, 'sess, 'parsed) identity_env \<Rightarrow> OwnerConfig \<Rightarrow> DB \<Rightarrow> owner_call \<Rightarrow> string \<Rightarrow> 'user \<Rightarrow> 'sess \<Rightarrow>
     owner_call \<Rightarrow> owner_call \<Rightarrow> owner_call \<Rightarrow> owner_call \<Rightarrow> string \<Rightarrow> bool" where
  "honest_chain env cfg db start pid u s pw code key fin rnd \<longleftrightarrow>
     (\<exists>fs. answer env (NewOwner env cfg NewRateLimiter, db) start = (StatusOK, Started pid fs)) \<and>
     c_Email cfg \<noteq> [] \<and> c_PasswordHash cfg \<noteq> [] \<and> c_TOTPSecret cfg \<noteq> [] \<and>
     timely_post (oc_now start) pid pw \<and> timely_post (oc_now start) pid code \<and>
     timely_post (oc_now start) pid key \<and> timely_post (oc_now start) pid fin \<and>
     endpoint_factor pw = Some FactorPassword \<and> endpoint_factor code = Some FactorTOTP \<and>
     endpoint_factor key = Some FactorPasskey \<and> req_path (oc_req fin) = ''/owner/pair/complete'' \<and>
     EqualFold (env_fold env) (call_body pw ''email'') (c_Email cfg) \<and>
     ComparePassword (env_idkey env) (evidence pw) (c_PasswordHash cfg) = None \<and>
     evidence code \<noteq> [] \<and>
     env_totp env (evidence code) (c_TOTPSecret cfg) (oc_now code) totp_options = Some True \<and>
     WebAuthnVerify (env_wa env) (BindSession (NewWebAuthnVerifier (env_wa env) (c_WebAuthnRPID cfg)
       (c_WebAuthnDisplayName cfg) (c_WebAuthnOrigins cfg)) u s) (evidence key) = None \<and>
     oc_rnd fin = Some rnd \<and> \<not> oc_fault fin \<and> hex_encode rnd \<notin> dr_id ` set (devices db)"

lemma honest_chain_pairs:
  assumes chain: "honest_chain env cfg db start pid u s pw code key fin rnd"
  shows "answer env (owner_run env (NewOwner env cfg NewRateLimiter, db)
           [Pair start, Bind u s, Pair pw, Pair code, Pair key]) fin = (StatusOK, PairedDevice (hex_encode rnd))"
proof -
  let ?o = "NewOwner env cfg NewRateLimiter"
  obtain fs where start: "answer env (?o, db) start = (StatusOK, Started pid fs)"
    using chain unfolding honest_chain_def by blast
  have cfg: "c_Email cfg \<noteq> []" "c_PasswordHash cfg \<noteq> []" "c_TOTPSecret cfg \<noteq> []"
    and posts: "timely_post (oc_now start) pid pw" "timely_post (oc_now start) pid code"
      "timely_post (oc_now start) pid key" "timely_post (oc_now start) pid fin"
    and paths: "endpoint_factor pw = Some FactorPassword" "endpoint_factor code = Some FactorTOTP"
      "endpoint_factor key = Some FactorPasskey" "req_path (oc_req fin) = ''/owner/pair/complete''"
    and password: "EqualFold (env_fold env) (call_body pw ''email'') (c_Email cfg)"
      "ComparePassword (env_idkey env) (evidence pw) (c_PasswordHash cfg) = None"
    and totp: "evidence code \<noteq> []"
      "env_totp env (evidence code) (c_TOTPSecret cfg) (oc_now code) totp_options = Some True"
    and passkey: "WebAuthnVerify (env_wa env) (BindSession (NewWebAuthnVerifier (env_wa env) (c_WebAuthnRPID cfg)
                    (c_WebAuthnDisplayName cfg) (c_WebAuthnOrigins cfg)) u s) (evidence key) = None"
    and store: "oc_rnd fin = Some rnd" "\<not> oc_fault fin" "hex_encode rnd \<notin> dr_id ` set (devices db)"
    using chain unfolding honest_chain_def by blast+
  obtain ow1 where r1: "RegisterPairing env start ?o db = ((StatusOK, Started pid fs), ow1, db)"
    "under_way cfg (oc_now start) pid {} ow1" "o_heap ow1 = o_heap ?o" "o_limiter ow1 = NewRateLimiter"
    by (rule started_under_way [OF start cfg(2,3)])
  let ?ow2 = "BindPasskey ow1 u s"
  have w2: "under_way cfg (oc_now start) pid {} ?ow2" "o_limiter ?ow2 = NewRateLimiter"
    using r1(2,4) by (simp_all add: under_way_def BindPasskey_def)
  have d2: "owner_dispatch env (oc_now pw) (factor_ref FactorPassword) (o_heap ?ow2) (evidence pw) = (o_heap ?ow2, None)"
    using r1(3) cfg(2) password(2)
    by (simp add: BindPasskey_def NewOwner_def factor_ref_def PasswordVerify_def NewPasswordVerifier_def)
  obtain b3 ow3 where r3: "RegisterPairing env pw ?ow2 db = ((StatusOK, b3), ow3, db)"
    "under_way cfg (oc_now start) pid {FactorPassword} ow3" "o_heap ow3 = o_heap ?ow2" "o_limiter ow3 = NewRateLimiter"
    using fresh_accept [OF w2 posts(1) paths(1) _ d2, of db] password(1) cfg(1) by auto
  have d3: "owner_dispatch env (oc_now code) (factor_ref FactorTOTP) (o_heap ow3) (evidence code) =
      ((o_heap ow3)\<lparr>h_totp := Some \<lparr>tv_secret = c_TOTPSecret cfg, tv_lastAccepted = evidence code\<rparr>\<rparr>, None)"
    using r1(3) r3(3) cfg(3) totp required_distinct
    by (simp add: BindPasskey_def NewOwner_def factor_ref_def TOTPVerify_def NewTOTPVerifier_def)
  obtain b4 ow4 where r4: "RegisterPairing env code ow3 db = ((StatusOK, b4), ow4, db)"
    "under_way cfg (oc_now start) pid {FactorTOTP, FactorPassword} ow4"
    "h_passkey (o_heap ow4) = h_passkey (o_heap ow3)" "o_limiter ow4 = NewRateLimiter"
    using fresh_accept [OF r3(2,4) posts(2) paths(2) _ d3, of db] required_distinct by auto
  have d4: "owner_dispatch env (oc_now key) (factor_ref FactorPasskey) (o_heap ow4) (evidence key) = (o_heap ow4, None)"
    using r1(3) r3(3) r4(3) passkey required_distinct
    by (simp add: BindPasskey_def NewOwner_def factor_ref_def)
  obtain b5 ow5 where r5: "RegisterPairing env key ow4 db = ((StatusOK, b5), ow5, db)"
    "under_way cfg (oc_now start) pid {FactorPasskey, FactorTOTP, FactorPassword} ow5"
    using fresh_accept [OF r4(2,4) posts(3) paths(3) _ d4, of db] required_distinct by auto
  have "fst (RegisterPairing env fin ow5 db) = (StatusOK, PairedDevice (hex_encode rnd))"
    using under_way_complete [OF _ posts(4) paths(4) store] r5(2) by (simp add: RequiredFactors_def insert_commute)
  then show ?thesis using r1(1) r3(1) r4(1) r5(1) by (simp add: answer_def)
qed

text \<open>Only a call of \<^verbatim>\<open>BindSession\<close> binds the passkey verifier.\<close>

lemma passkey_after_call:
  assumes "RegisterPairing env c ow db = ((st, b), ow', db')"
  shows "h_passkey (o_heap ow') = h_passkey (o_heap ow)"
proof (cases "endpoint_factor c")
  case (Some f)
  from Some assms show ?thesis
  proof (cases rule: factor_call_cases)
    case checked
    from checked(1) show ?thesis
      by (cases rule: satisfyFactor_cases) (auto dest: Satisfy_config(2))
  qed simp_all
next
  case None
  consider "req_path (oc_req c) = ''/owner/pair/start''" | "req_path (oc_req c) = ''/owner/pair/complete''"
    | "RegisterPairing env c ow db = ((StatusNotFound, NoBody), ow, db)"
    using other_call [OF None] by blast
  then show ?thesis
  proof cases
    case 1
    from 1 assms show ?thesis by (cases rule: start_call_cases) simp_all
  next
    case 2
    from 2 assms show ?thesis by (cases rule: complete_call_cases) simp_all
  qed (use assms in simp)
qed

lemma passkey_frame: "h_passkey (o_heap (fst (snd (RegisterPairing env c ow db)))) = h_passkey (o_heap ow)"
  by (cases "RegisterPairing env c ow db" rule: prod_cases3) (metis fst_conv passkey_after_call prod.collapse snd_conv)

lemma unbound_step:
  assumes "wv_session (h_passkey (o_heap (fst s))) = None" and "\<And>u v. e \<noteq> Bind u v"
  shows "wv_session (h_passkey (o_heap (fst (owner_step env s e)))) = None"
  by (cases s; cases e) (use assms in \<open>simp_all add: passkey_frame\<close>)

lemma unbound_run:
  assumes "wv_session (h_passkey (o_heap (fst s))) = None" and "\<And>u v. Bind u v \<notin> set es"
  shows "wv_session (h_passkey (o_heap (fst (owner_run env s es)))) = None"
  by (rule run_steps_invariant [of "\<lambda>s. wv_session (h_passkey (o_heap (fst s))) = None"])
    (rule assms(1), rule unbound_step, assumption, metis assms(2))

text \<open>A small installation on which the witnesses run.\<close>

definition demo_env :: "(unit, unit, unit, string) identity_env" where
  "demo_env =
     \<lparr>env_idkey = (\<lambda>p s t m q l. replicate l (if p = ''pw'' then CHR 0x00 else CHR 0x01)),
      env_totp = (\<lambda>code secret now opts. Some (code = ''123456'')),
      env_wa = \<lparr>wa_new = (\<lambda>_ _ _. Some ()), wa_beginRegistration = (\<lambda>_ _. None),
                wa_beginLogin = (\<lambda>_ _. Some (''options'', ())), wa_parse = Some,
                wa_login = (\<lambda>_ _ _ p. p = ''assertion'')\<rparr>,
      env_fold = ascii_fold\<rparr>"

definition demo_cfg :: OwnerConfig where
  "demo_cfg =
     \<lparr>c_Email = ''me@ex.org'', c_PasswordHash = ''$argon2id$v=19$m=1,t=1,p=1$AAAA$AAAA'',
      c_TOTPSecret = ''S'', c_WebAuthnRPID = ''ex.org'', c_WebAuthnDisplayName = ''ex'',
      c_WebAuthnOrigins = [''https://ex.org'']\<rparr>"

definition demo_rnd :: string where "demo_rnd = ''0123456789abcdef''"

definition demo_call :: "instant \<Rightarrow> string \<Rightarrow> (string \<times> string) list \<Rightarrow> owner_call" where
  "demo_call now path kvs =
     \<lparr>oc_now = now, oc_unix = 1700000000, oc_rnd = Some demo_rnd, oc_fault = False,
      oc_req = \<lparr>req_method = ''POST'', req_path = path, req_remote = ''10.0.0.1:5000'', req_host = ''ex.org'',
        req_header = (\<lambda>_. []), req_query = (\<lambda>_. []),
        req_json = JsonObject (\<lambda>k. case map_of kvs k of None \<Rightarrow> [] | Some v \<Rightarrow> v), req_device = None\<rparr>\<rparr>"

definition demo_id :: string where "demo_id = ''30313233343536373839616263646566''"

definition demo_start :: owner_call where
  "demo_start = demo_call 1 ''/owner/pair/start''
     [(''device_pubkey'', ''AAAAAAAAAAAAAAAAAAAAAAAAAAAAAAAAAAAAAAAAAAA=''), (''device_name'', ''phone''),
      (''platform'', ''android'')]"

definition demo_events :: "(unit, unit) owner_event list" where
  "demo_events =
     [Pair demo_start, Bind () (),
      Pair (demo_call 2 ''/owner/pair/password''
        [(''pairing_id'', demo_id), (''email'', ''Me@ex.org''), (''password'', ''pw'')]),
      Pair (demo_call 3 ''/owner/pair/totp'' [(''pairing_id'', demo_id), (''code'', ''123456'')]),
      Pair (demo_call 4 ''/owner/pair/passkey'' [(''pairing_id'', demo_id), (''assertion'', ''assertion'')])]"

lemma demo_decode:
  "decodeArgon2id ''$argon2id$v=19$m=1,t=1,p=1$AAAA$AAAA'' =
     Some (\<lparr>p_memoryKiB = 1, p_iterations = 1, p_parallelism = 1\<rparr>, replicate 3 (CHR 0x00), replicate 3 (CHR 0x00))"
proof -
  have parts: "split_byte (CHR ''$'') ''$argon2id$v=19$m=1,t=1,p=1$AAAA$AAAA''
      = [[], ''argon2id'', ''v=19'', ''m=1,t=1,p=1'', ''AAAA'', ''AAAA'']"
    by simp
  have version: "scan_version ''v=19'' = Some (int argon2idVersion)"
    by (simp add: scan_simps argon2idVersion_def)
  have params: "scan_params ''m=1,t=1,p=1'' = Some (1, 1, 1)"
    by (simp add: scan_simps)
  have raw: "RawStdDecode ''AAAA'' = Some [CHR 0x00, CHR 0x00, CHR 0x00]"
    by (simp add: b64_decode_def b64_val_def quantum3_def char_of_def)
  show ?thesis using decode_parts [OF parts version params raw raw] by (simp add: numeral_3_eq_3)
qed

lemma demo_password:
  "ComparePassword (env_idkey demo_env) pw ''$argon2id$v=19$m=1,t=1,p=1$AAAA$AAAA'' =
     (if pw = ''pw'' then None else Some ErrPasswordMismatch)"
  by (simp add: ComparePassword_def demo_decode demo_env_def Let_def)

lemma demo_key: "StdDecode ''AAAAAAAAAAAAAAAAAAAAAAAAAAAAAAAAAAAAAAAAAAA='' = Some (replicate 32 (CHR 0x00))"
  by code_simp

lemma demo_email: "EqualFold ascii_fold ''Me@ex.org'' ''me@ex.org''"
  by code_simp

lemma demo_hex: "hex_encode demo_rnd = demo_id"
  by code_simp

lemma demo_ip: "clientIP ''10.0.0.1:5000'' = ''10.0.0.1''"
  by code_simp

lemma demo_world:
  "oc_now demo_start = 1" "env_fold demo_env = ascii_fold"
  "env_totp demo_env code secret now opts = Some (code = ''123456'')"
  "wa_new (env_wa demo_env) i n os = Some ()" "wa_parse (env_wa demo_env) = Some"
  "wa_login (env_wa demo_env) a b d p \<longleftrightarrow> p = ''assertion''"
  by (simp_all add: demo_start_def demo_call_def demo_env_def)

lemmas demo_simps = demo_call_def demo_cfg_def call_body_def endpoint_factor_def evidence_def

lemma demo_start_answer:
  "answer demo_env (NewOwner demo_env demo_cfg NewRateLimiter, emptyDB) demo_start = (StatusOK, Started demo_id RequiredFactors)"
  by (simp add: answer_def RegisterPairing_def handlePairStart_def demo_start_def demo_call_def demo_key demo_hex
      randomID_def PublicKeySize_def Let_def Outstanding_def is_satisfied_def NewAttempt_def)

lemma demo_chain:
  "honest_chain demo_env demo_cfg emptyDB demo_start demo_id () ()
     (demo_call 2 ''/owner/pair/password''
        [(''pairing_id'', demo_id), (''email'', ''Me@ex.org''), (''password'', ''pw'')])
     (demo_call 3 ''/owner/pair/totp'' [(''pairing_id'', demo_id), (''code'', ''123456'')])
     (demo_call 4 ''/owner/pair/passkey'' [(''pairing_id'', demo_id), (''assertion'', ''assertion'')])
     (demo_call 5 ''/owner/pair/complete'' [(''pairing_id'', demo_id)]) demo_rnd"
  unfolding honest_chain_def using demo_start_answer
  by (simp add: demo_simps demo_password demo_email demo_world timely_post_def time_simps
      emptyDB_def WebAuthnVerify_def NewWebAuthnVerifier_def BindSession_def
      required_distinct required_distinct [symmetric])

lemma demo_paired:
  "answer demo_env (owner_run demo_env (NewOwner demo_env demo_cfg NewRateLimiter, emptyDB) demo_events)
     (demo_call 5 ''/owner/pair/complete'' [(''pairing_id'', demo_id)]) = (StatusOK, PairedDevice demo_id)"
  using honest_chain_pairs [OF demo_chain] by (simp add: demo_events_def demo_hex)

text \<open>
  C5. A device is paired only through the whole chain: whatever requests the daemon has served
  since it started, in whatever order and for whatever attempts, if a request to complete a pairing
  is answered with a device id, then for that very pairing id the password endpoint was given the
  configured email and a password that matches the configured hash, the TOTP endpoint a code valid
  for the configured secret at that moment, and the passkey endpoint an assertion the relying party
  accepts.
\<close>

theorem paired_device_proved_every_factor:
  assumes "answer env (owner_run env (NewOwner env cfg limiter, db) es) c = (StatusOK, PairedDevice did)"
  shows "\<forall>f \<in> set RequiredFactors.
           factor_passed env cfg (NewOwner env cfg limiter, db) es (call_body c ''pairing_id'') f"
  using paired_passed [OF assms] by blast


theorem paired_device_proved_every_factor_witness:
  "factor_passed demo_env demo_cfg (NewOwner demo_env demo_cfg NewRateLimiter, emptyDB) demo_events demo_id FactorTOTP"
  using paired_device_proved_every_factor [OF demo_paired]
  by (simp add: RequiredFactors_def call_body_def demo_call_def)

text \<open>
  C6. The chain can be completed: from a fresh start, once an attempt has been started in an
  installation with all factors configured and the passkey ceremony has been bound, a matching
  email and password, a valid code and a valid assertion, presented in time, followed by the
  completion request, pair the device under the random id drawn for it, unless the database fails
  or holds that id already.
\<close>

theorem chain_completes:
  assumes "honest_chain env cfg db start pid u s pw code key fin rnd"
  shows "answer env (owner_run env (NewOwner env cfg NewRateLimiter, db)
           [Pair start, Bind u s, Pair pw, Pair code, Pair key]) fin = (StatusOK, PairedDevice (hex_encode rnd))"
  using assms by (rule honest_chain_pairs)

theorem chain_completes_witness:
  "\<exists>s. answer demo_env s (demo_call 5 ''/owner/pair/complete'' [(''pairing_id'', demo_id)]) = (StatusOK, PairedDevice demo_id)"
  using chain_completes [OF demo_chain] unfolding demo_hex by blast

text \<open>
  A pairing is usable and final: when a completion is answered with a device id, the store has
  the device under that id with the very key the attempt was started with, of the right size and
  not revoked, so the device can authenticate from then on, and the attempt is gone.
\<close>

lemma paired_device_is_stored:
  assumes "owner_run env (NewOwner env cfg limiter, db) es = (ow, db1)"
    and "RegisterPairing env c ow db1 = ((StatusOK, PairedDevice did), ow', db2)"
    and "req_path (oc_req c) = ''/owner/pair/complete''"
  shows "\<exists>rec raw. o_attempts ow (call_body c ''pairing_id'') = Some rec \<and>
     StdDecode (a_DevicePub (pr_attempt rec)) = Some raw \<and> length raw = PublicKeySize \<and>
     StoreDevice False db2 did = Some (raw, False) \<and> StoreDevice False db1 did = None \<and>
     o_attempts ow' (call_body c ''pairing_id'') = None"
  using assms(3,2)
proof (cases rule: complete_call_cases)
  case (completed rec)
  have "owner_ok cfg ow" using owner_run_ok [of cfg "(NewOwner env cfg limiter, db)" env es] assms(1) by simp
  then obtain raw where raw: "StdDecode (a_DevicePub (pr_attempt rec)) = Some raw" "length raw = PublicKeySize"
    using completed(1) unfolding owner_ok_def attempt_ok_def by blast
  have st: "StorePairDevice (oc_fault c) (oc_unix c) db1 did (pr_deviceName rec) (pr_platform rec)
      (a_DevicePub (pr_attempt rec)) = (Inr (), db2)"
    using completed(7) by auto
  then have new: "find (\<lambda>r. dr_id r = did) (devices db1) = None"
    by (auto simp: StorePairDevice_def PairDevice_def Let_def find_None_iff split: if_splits)
  have "StoreDevice False db2 did = Some (raw, False)"
    using st new raw
    by (auto simp: StorePairDevice_def PairDevice_def StoreDevice_def GetDevice_def scan_device_def Let_def
        find_snoc split: if_splits)
  moreover have "StoreDevice False db1 did = None" using new by (simp add: StoreDevice_def GetDevice_def)
  ultimately show ?thesis using completed(1,3) raw by auto
qed simp_all

lemma paired_device_is_stored_example:
  "\<exists>raw. length raw = 32 \<and> StoreDevice False
     (snd (owner_run demo_env (NewOwner demo_env demo_cfg NewRateLimiter, emptyDB)
       (demo_events @ [Pair (demo_call 5 ''/owner/pair/complete'' [(''pairing_id'', demo_id)])])))
     demo_id = Some (raw, False)"
proof -
  let ?fin = "demo_call 5 ''/owner/pair/complete'' [(''pairing_id'', demo_id)]"
  obtain ow db1 where run: "owner_run demo_env (NewOwner demo_env demo_cfg NewRateLimiter, emptyDB) demo_events = (ow, db1)"
    by fastforce
  obtain ow' db2 where call: "RegisterPairing demo_env ?fin ow db1 = ((StatusOK, PairedDevice demo_id), ow', db2)"
    using demo_paired unfolding run answer_def by (metis fst_conv prod.collapse snd_conv)
  have "req_path (oc_req ?fin) = ''/owner/pair/complete''" by (simp add: demo_call_def)
  from paired_device_is_stored [OF run call this] run call show ?thesis
    by (auto simp: PublicKeySize_def)
qed

text \<open>
  As the program stands no device can ever be paired: only \<^verbatim>\<open>BindSession\<close> attaches the user
  and the session a passkey is checked against, and without a call of it no history of requests
  whatsoever makes the completion endpoint answer with a device id. The daemon contains no such
  call outside its tests.
\<close>

lemma unbound_passkey_never_pairs:
  assumes "\<And>u s. Bind u s \<notin> set es"
  shows "answer env (owner_run env (NewOwner env cfg limiter, db) es) c \<noteq> (StatusOK, PairedDevice did)"
proof
  let ?s0 = "(NewOwner env cfg limiter, db)"
  assume "answer env (owner_run env ?s0 es) c = (StatusOK, PairedDevice did)"
  then have "factor_passed env cfg ?s0 es (call_body c ''pairing_id'') FactorPasskey"
    by (rule paired_passed) (simp add: RequiredFactors_def)
  then obtain before c' after where split: "es = before @ Pair c' # after"
    and acc: "proves env cfg (fst (owner_run env ?s0 before)) c' FactorPasskey"
    unfolding factor_passed_def by blast
  have "wv_session (h_passkey (o_heap (fst (owner_run env ?s0 before)))) = None"
    using assms split by (intro unbound_run) (auto simp: NewOwner_def)
  from unbound_rejects [OF this, of "env_wa env" "evidence c'"] acc show False
    using required_distinct(2,3) [symmetric] by (simp add: proves_def)
qed

lemma unbound_passkey_never_pairs_example:
  "answer demo_env (owner_run demo_env (NewOwner demo_env demo_cfg NewRateLimiter, emptyDB) [Pair demo_start])
     (demo_call 5 ''/owner/pair/complete'' [(''pairing_id'', demo_id)]) \<noteq> (StatusOK, PairedDevice demo_id)"
  by (rule unbound_passkey_never_pairs) simp

end
