(* ===== verification/Owner_Limits.thy ===== *)
theory Owner_Limits
  imports Owner_Chain
begin

text \<open>
  What the rate limiter behind the factor endpoints gives an attacker: lockouts as a function of
  the answers seen so far, the effect of a right password on the count of wrong codes, and what
  the password endpoint tells about the email.
\<close>


section \<open>Lockouts are a function of the answers\<close>

text \<open>
  Each answer of a factor endpoint leaves at most one mark in the limiter: 401 a failure, 200 a
  success, everything else nothing. The log lists the marks of a history, newest first.
\<close>

definition limit_mark ::
    "('wa, 'user, 'sess, 'parsed) identity_env \<Rightarrow> ('wa, 'user, 'sess) owner_state \<Rightarrow> owner_call \<Rightarrow>
     limiter_event list" where
  "limit_mark env s c =
     (let ip = clientIP (req_remote (oc_req c)); status = fst (answer env s c)
      in if endpoint_factor c = None then []
         else if status = StatusUnauthorized then [Failed (oc_now c) ip (o_email (fst s))]
         else if status = StatusOK then [Succeeded ip (o_email (fst s))]
         else [])"

fun limit_log ::
    "('wa, 'user, 'sess, 'parsed) identity_env \<Rightarrow> ('wa, 'user, 'sess) owner_state \<Rightarrow>
     ('user, 'sess) owner_event list \<Rightarrow> limiter_event list" where
  "limit_log env s [] = []"
| "limit_log env s (Pair c # es) = limit_log env (owner_step env s (Pair c)) es @ limit_mark env s c"
| "limit_log env s (e # es) = limit_log env (owner_step env s e) es"

lemma limit_log_length: "length (limit_log env s es) \<le> length es"
proof (induction env s es rule: limit_log.induct)
  case (2 env s c es)
  have "length (limit_mark env s c) \<le> 1" by (simp add: limit_mark_def Let_def)
  with 2 show ?case by simp
qed simp_all

lemma limiter_after_call:
  assumes "RegisterPairing env c ow db = ((st, b), ow', db')"
  shows "o_limiter ow' = run_steps limiter_step (o_limiter ow) (rev (limit_mark env (ow, db) c)) \<and>
         o_email ow' = o_email ow"
proof (cases "endpoint_factor c")
  case (Some f)
  have mark: "limit_mark env (ow, db) c =
      (let ip = clientIP (req_remote (oc_req c))
       in if st = StatusUnauthorized then [Failed (oc_now c) ip (o_email ow)]
          else if st = StatusOK then [Succeeded ip (o_email ow)] else [])"
    using Some assms by (simp add: limit_mark_def answer_def Let_def)
  from Some assms show ?thesis
  proof (cases rule: factor_call_cases)
    case refused
    then show ?thesis by (auto simp: mark)
  next
    case email
    then show ?thesis by (simp add: mark limiterFailure_def Let_def)
  next
    case checked
    from checked(1) show ?thesis
    proof (cases rule: satisfyFactor_cases)
      case unknown
      then show ?thesis by (simp add: mark Let_def)
    next
      case (known rec err heap' a' ow2)
      have "o_limiter ow2 = o_limiter ow" "o_email ow2 = o_email ow" using known(3) by simp_all
      then show ?thesis using known(6) by (simp add: mark limiterFailure_def limiterSuccess_def Let_def)
    qed
  qed
next
  case None
  then have mark: "limit_mark env (ow, db) c = []" by (simp add: limit_mark_def)
  consider "req_path (oc_req c) = ''/owner/pair/start''" | "req_path (oc_req c) = ''/owner/pair/complete''"
    | "RegisterPairing env c ow db = ((StatusNotFound, NoBody), ow, db)"
    using other_call [OF None] by blast
  then show ?thesis
  proof cases
    case 1
    from 1 assms show ?thesis by (cases rule: start_call_cases) (simp_all add: mark)
  next
    case 2
    from 2 assms show ?thesis by (cases rule: complete_call_cases) (simp_all add: mark)
  qed (use assms mark in simp)
qed

lemma limiter_after_run:
  "o_limiter (fst (owner_run env s es)) = run_steps limiter_step (o_limiter (fst s)) (rev (limit_log env s es)) \<and>
   o_email (fst (owner_run env s es)) = o_email (fst s)"
proof (induction env s es rule: limit_log.induct)
  case (2 env s c es)
  obtain ow db where s: "s = (ow, db)" by fastforce
  obtain st b ow' db' where "RegisterPairing env c ow db = ((st, b), ow', db')" by (metis prod.collapse)
  with 2 limiter_after_call [OF this] s show ?case by simp
qed (auto simp: BindPasskey_def)

text \<open>
  C22. The lockout is exactly what the answers announce: a well-formed request to a factor endpoint
  is answered 429 if and only if, counting the 401 answers since the last 200 answer of the factor
  endpoints, either the failures from the caller's address or the failures on the account are in
  a lockout of the reference schedule at that moment.
\<close>

theorem lockout_from_answers:
  assumes "endpoint_factor c = Some f" "req_method (oc_req c) = MethodPost" "req_json (oc_req c) = JsonObject body"
    and "int (length es) \<le> max_int64"
  shows "fst (answer env (owner_run env (NewOwner env cfg NewRateLimiter, db) es) c) = StatusTooManyRequests \<longleftrightarrow>
     blocked (oc_now c) (ip_history (clientIP (req_remote (oc_req c)))
       (limit_log env (NewOwner env cfg NewRateLimiter, db) es)) \<or>
     blocked (oc_now c) (acct_history (c_Email cfg) (limit_log env (NewOwner env cfg NewRateLimiter, db) es))"
proof -
  let ?s0 = "(NewOwner env cfg NewRateLimiter, db)"
  let ?log = "limit_log env ?s0 es" and ?ip = "clientIP (req_remote (oc_req c))"
  obtain ow db1 where run: "owner_run env ?s0 es = (ow, db1)" by fastforce
  have lim: "o_limiter ow = limiter_after ?log" "o_email ow = c_Email cfg"
    using limiter_after_run [of env ?s0 es] run by (simp_all add: limiter_after_def NewOwner_def)
  have len: "int (length ?log) \<le> max_int64" using limit_log_length [of env ?s0 es] assms(4) by simp
  have sf: "satisfyFactor env now ow i pid f ev \<noteq> ((StatusTooManyRequests, b), x)" for now i pid ev b x
    by (auto simp: satisfyFactor_def Let_def split: option.splits auth_error.splits prod.splits)
  have "fst (fst (RegisterPairing env c ow db1)) = StatusTooManyRequests \<longleftrightarrow>
      Allow (oc_now c) (o_limiter ow) ?ip (o_email ow) \<noteq> Inr ()"
    using assms(1-3) sf required_distinct
    by (auto simp: endpoint_factor_def RegisterPairing_def handlePairPassword_def handlePairTOTP_def
        handlePairPasskey_def factorEndpoint_def Let_def split: if_splits prod.splits sum.splits)
  then show ?thesis
    using limiter_after_key_spec [OF len, of "c_Email cfg" ?ip] run lim
    by (simp add: answer_def Allow_def locked_key_spec)
qed

theorem lockout_from_answers_witness:
  "fst (answer demo_env (owner_run demo_env (NewOwner demo_env demo_cfg NewRateLimiter, emptyDB) [])
     (demo_call 1 ''/owner/pair/totp'' [(''code'', ''1'')])) \<noteq> StatusTooManyRequests"
  by (subst lockout_from_answers [OF endpoint_factor_simps(2)])
    (simp_all add: demo_call_def blocked_def deadline_def before_until_def)


section \<open>Guessing codes with the password in hand\<close>

definition totp_guess :: "instant \<Rightarrow> string \<Rightarrow> string \<Rightarrow> string \<Rightarrow> owner_call" where
  "totp_guess now remote pid code =
     \<lparr>oc_now = now, oc_unix = 0, oc_rnd = None, oc_fault = False,
      oc_req = \<lparr>req_method = MethodPost, req_path = ''/owner/pair/totp'', req_remote = remote, req_host = [],
        req_header = (\<lambda>_. []), req_query = (\<lambda>_. []),
        req_json = JsonObject ((\<lambda>_. [])(''pairing_id'' := pid, ''code'' := code)), req_device = None\<rparr>\<rparr>"

definition password_login :: "instant \<Rightarrow> string \<Rightarrow> string \<Rightarrow> string \<Rightarrow> string \<Rightarrow> owner_call" where
  "password_login now remote pid email pw =
     \<lparr>oc_now = now, oc_unix = 0, oc_rnd = None, oc_fault = False,
      oc_req = \<lparr>req_method = MethodPost, req_path = ''/owner/pair/password'', req_remote = remote, req_host = [],
        req_header = (\<lambda>_. []), req_query = (\<lambda>_. []),
        req_json = JsonObject ((\<lambda>_. [])(''pairing_id'' := pid, ''email'' := email, ''password'' := pw)),
        req_device = None\<rparr>\<rparr>"

fun statuses ::
    "('wa, 'user, 'sess, 'parsed) identity_env \<Rightarrow> ('wa, 'user, 'sess) owner_state \<Rightarrow> owner_call list \<Rightarrow> nat list" where
  "statuses env s [] = []"
| "statuses env s (c # cs) = fst (answer env s c) # statuses env (owner_step env s (Pair c)) cs"

lemma totp_guess_simps [simp]:
  "endpoint_factor (totp_guess now remote pid code) = Some FactorTOTP"
  "evidence (totp_guess now remote pid code) = code"
  "call_body (totp_guess now remote pid code) ''pairing_id'' = pid"
  "oc_now (totp_guess now remote pid code) = now"
  "req_remote (oc_req (totp_guess now remote pid code)) = remote"
  "req_method (oc_req (totp_guess now remote pid code)) = MethodPost"
  "req_json (oc_req (totp_guess now remote pid code)) = JsonObject ((\<lambda>_. [])(''pairing_id'' := pid, ''code'' := code))"
  using required_distinct
  by (simp_all add: totp_guess_def evidence_def call_body_def endpoint_factor_def)

lemma password_login_simps [simp]:
  "endpoint_factor (password_login now remote pid email pw) = Some FactorPassword"
  "evidence (password_login now remote pid email pw) = pw"
  "call_body (password_login now remote pid email pw) ''pairing_id'' = pid"
  "call_body (password_login now remote pid email pw) ''email'' = email"
  "oc_now (password_login now remote pid email pw) = now"
  "req_remote (oc_req (password_login now remote pid email pw)) = remote"
  "req_method (oc_req (password_login now remote pid email pw)) = MethodPost"
  "req_json (oc_req (password_login now remote pid email pw)) =
     JsonObject ((\<lambda>_. [])(''pairing_id'' := pid, ''email'' := email, ''password'' := pw))"
  by (simp_all add: password_login_def evidence_def call_body_def endpoint_factor_def)

text \<open>A key with \<open>n\<close> failures on its count and no lockout behind it.\<close>

definition few_failures :: "nat \<Rightarrow> (string \<rightharpoonup> lockState) \<Rightarrow> string \<Rightarrow> bool" where
  "few_failures n m k \<longleftrightarrow>
     (case m k of None \<Rightarrow> n = 0 | Some s \<Rightarrow> failures s = int n \<and> lockedUntil s = None)"

lemma few_failures_step:
  assumes "few_failures n m k" "n < 4"
  shows "few_failures (Suc n) (recordFailure m k now) k"
proof -
  have "int64 (1 + int n) = 1 + int n" using assms(2) by (intro int64_id) simp_all
  moreover have "int64 1 = 1" by (intro int64_id) simp_all
  ultimately show ?thesis
    using assms by (auto simp: few_failures_def recordFailure_def FailureThreshold_def Let_def add.commute
        split: option.splits)
qed

lemma few_failures_allowed: "few_failures n m k \<Longrightarrow> \<not> locked now m k"
  by (auto simp: few_failures_def locked_def before_until_def split: option.splits)

text \<open>The attacker's position: an attempt under way and \<open>n\<close> failures counted against it so far.\<close>

definition siege ::
    "OwnerConfig \<Rightarrow> instant \<Rightarrow> string \<Rightarrow> string \<Rightarrow> nat \<Rightarrow> ('wa, 'user, 'sess) Owner \<Rightarrow> bool" where
  "siege cfg t0 pid ip n ow \<longleftrightarrow>
     under_way cfg t0 pid {} ow \<and>
     (\<exists>t. h_totp (o_heap ow) = Some t \<and> tv_secret t = c_TOTPSecret cfg) \<and>
     few_failures n (byIP (o_limiter ow)) ip \<and> few_failures n (byAcct (o_limiter ow)) (c_Email cfg)"

lemma siege_allowed: "siege cfg t0 pid ip n ow \<Longrightarrow> Allow now (o_limiter ow) ip (o_email ow) = Inr ()"
  by (auto simp: siege_def under_way_def Allow_def dest: few_failures_allowed)

lemma wrong_code_rejected:
  assumes "env_totp env code (tv_secret t) now totp_options \<noteq> Some True" and "h_totp h = Some t"
  shows "\<exists>e \<in> {ErrTOTPCodeInvalid, ErrTOTPCodeReused}. owner_dispatch env now RefTOTP h code = (h, Some e)"
proof -
  have h: "h\<lparr>h_totp := Some t\<rparr> = h" using assms(2) by simp
  have "\<exists>e \<in> {ErrTOTPCodeInvalid, ErrTOTPCodeReused}. TOTPVerify (env_totp env) now t code = (t, Some e)"
    using assms(1) by (auto simp: TOTPVerify_def split: option.splits bool.splits)
  then show ?thesis using assms(2) h by fastforce
qed

lemma siege_guess:
  assumes siege: "siege cfg t0 pid (clientIP remote) n ow" and n: "n < 4" and now: "now \<le> t0 + PairingTTL"
    and wrong: "env_totp env code (c_TOTPSecret cfg) now totp_options \<noteq> Some True"
  obtains b ow' where "RegisterPairing env (totp_guess now remote pid code) ow db = ((StatusUnauthorized, b), ow', db)"
    "siege cfg t0 pid (clientIP remote) (Suc n) ow'"
proof -
  obtain rec where rec: "o_attempts ow pid = Some rec" "a_StartedAt (pr_attempt rec) = t0"
    "\<not> a_consumed (pr_attempt rec)"
    "\<forall>f \<in> set RequiredFactors. a_verifiers (pr_attempt rec) f = Some (Impl (factor_ref f))"
    using siege unfolding siege_def under_way_def by blast
  have live: "\<not> Expired now (pr_attempt rec)" using now rec(2) by (simp add: Expired_iff)
  have ver: "a_verifiers (pr_attempt rec) FactorTOTP = Some (Impl RefTOTP)"
    using rec(4) required_distinct by (simp add: RequiredFactors_def factor_ref_def)
  obtain t where t: "h_totp (o_heap ow) = Some t" "tv_secret t = c_TOTPSecret cfg"
    using siege unfolding siege_def by blast
  obtain e where e: "owner_dispatch env now RefTOTP (o_heap ow) code = (o_heap ow, Some e)"
    "e \<in> {ErrTOTPCodeInvalid, ErrTOTPCodeReused}"
    using wrong_code_rejected [OF _ t(1), of env code now] wrong t(2) by auto
  obtain b where b: "satisfyFactor env now ow (clientIP remote) pid FactorTOTP code =
     ((StatusUnauthorized, b), limiterFailure now (clientIP remote) (sweepAttempts now ow))"
    using satisfyFactor_reject [OF rec(1) live rec(3) ver e(1)] e(2) by blast
  show ?thesis
  proof (rule that)
    show "RegisterPairing env (totp_guess now remote pid code) ow db =
        ((StatusUnauthorized, b), limiterFailure now (clientIP remote) (sweepAttempts now ow), db)"
      using siege_allowed [OF siege] required_distinct b
      by (subst factor_call_served [where f = FactorTOTP]) auto
    show "siege cfg t0 pid (clientIP remote) (Suc n) (limiterFailure now (clientIP remote) (sweepAttempts now ow))"
      using siege rec live t few_failures_step n
      by (auto simp: siege_def under_way_def limiterFailure_def RecordFailure_def sweepAttempts_Some)
  qed
qed

lemma siege_login:
  assumes siege: "siege cfg t0 pid (clientIP remote) n ow" and now: "now \<le> t0 + PairingTTL"
    and right: "c_Email cfg \<noteq> []" "EqualFold (env_fold env) email (c_Email cfg)"
      "ComparePassword (env_idkey env) pw (c_PasswordHash cfg) = None"
  obtains b ow' where "RegisterPairing env (password_login now remote pid email pw) ow db = ((StatusOK, b), ow', db)"
    "siege cfg t0 pid (clientIP remote) 0 ow'"
proof -
  let ?c = "password_login now remote pid email pw"
  have way: "under_way cfg t0 pid {} ow" and e: "o_email ow = c_Email cfg"
    using siege by (simp_all add: siege_def under_way_def)
  have d: "owner_dispatch env now (factor_ref FactorPassword) (o_heap ow) pw = (o_heap ow, None)"
    using way right(3) by (simp add: under_way_def factor_ref_def PasswordVerify_def NewPasswordVerifier_def)
  obtain b ow' where r: "RegisterPairing env ?c ow db = ((StatusOK, b), ow', db)"
    "under_way cfg t0 pid {FactorPassword} ow'" "o_heap ow' = o_heap ow"
    "o_limiter ow' = RecordSuccess (o_limiter ow) (clientIP remote) (o_email ow)"
    by (rule under_way_accept [OF way, where c = ?c and env = env and db = db and h' = "o_heap ow" and f = FactorPassword])
      (use now right e d siege_allowed [OF siege] in auto)
  have "siege cfg t0 pid (clientIP remote) 0 ow'"
    using siege r(2-4) by (auto simp: siege_def under_way_def RecordSuccess_def few_failures_def)
  with r(1) that show ?thesis by blast
qed

lemma statuses_append:
  "statuses env s (cs @ ds) = statuses env s cs @ statuses env (owner_run env s (map Pair cs)) ds"
  by (induction cs arbitrary: s) simp_all

lemma siege_guesses:
  assumes "siege cfg t0 pid (clientIP remote) n ow" "n + length codes \<le> 4" "now \<le> t0 + PairingTTL"
    and "\<forall>code \<in> set codes. env_totp env code (c_TOTPSecret cfg) now totp_options \<noteq> Some True"
  shows "statuses env (ow, db) (map (totp_guess now remote pid) codes) = replicate (length codes) StatusUnauthorized \<and>
     (\<exists>ow'. owner_run env (ow, db) (map Pair (map (totp_guess now remote pid) codes)) = (ow', db) \<and>
        siege cfg t0 pid (clientIP remote) (n + length codes) ow')"
  using assms
proof (induction codes arbitrary: n ow)
  case Nil
  then show ?case by simp
next
  case (Cons code codes)
  obtain b ow1 where r: "RegisterPairing env (totp_guess now remote pid code) ow db = ((StatusUnauthorized, b), ow1, db)"
    "siege cfg t0 pid (clientIP remote) (Suc n) ow1"
    by (rule siege_guess [OF Cons.prems(1) _ Cons.prems(3), of env code db]) (use Cons.prems(2,4) in auto)
  from Cons.IH [OF r(2) _ Cons.prems(3)] Cons.prems(2,4) r(1) show ?case by (simp add: answer_def)
qed

text \<open>Each round of the attack is a few guesses and one login with the known password.\<close>

definition siege_round :: "instant \<Rightarrow> string \<Rightarrow> string \<Rightarrow> string \<Rightarrow> string \<Rightarrow> string list \<Rightarrow> owner_call list" where
  "siege_round now remote pid email pw codes =
     map (totp_guess now remote pid) codes @ [password_login now remote pid email pw]"

lemma siege_rounds:
  assumes "siege cfg t0 pid (clientIP remote) 0 ow" "now \<le> t0 + PairingTTL"
    and right: "c_Email cfg \<noteq> []" "EqualFold (env_fold env) email (c_Email cfg)"
      "ComparePassword (env_idkey env) pw (c_PasswordHash cfg) = None"
    and "\<forall>codes \<in> set rounds. length codes \<le> 4 \<and>
           (\<forall>code \<in> set codes. env_totp env code (c_TOTPSecret cfg) now totp_options \<noteq> Some True)"
  shows "statuses env (ow, db) (concat (map (siege_round now remote pid email pw) rounds)) =
     concat (map (\<lambda>codes. replicate (length codes) StatusUnauthorized @ [StatusOK]) rounds)"
  using assms(1,6)
proof (induction rounds arbitrary: ow)
  case Nil
  then show ?case by simp
next
  case (Cons codes rounds)
  obtain ow1 where g: "statuses env (ow, db) (map (totp_guess now remote pid) codes) = replicate (length codes) StatusUnauthorized"
    "owner_run env (ow, db) (map Pair (map (totp_guess now remote pid) codes)) = (ow1, db)"
    "siege cfg t0 pid (clientIP remote) (length codes) ow1"
    using siege_guesses [OF Cons.prems(1) _ assms(2), of codes env db] Cons.prems(2) by auto
  obtain b ow2 where l: "RegisterPairing env (password_login now remote pid email pw) ow1 db = ((StatusOK, b), ow2, db)"
    "siege cfg t0 pid (clientIP remote) 0 ow2"
    by (rule siege_login [OF g(3) assms(2) right])
  from Cons.IH [OF l(2)] Cons.prems(2) g l(1) show ?case
    by (simp add: siege_round_def statuses_append answer_def comp_def)
qed

text \<open>
  C34. Whoever knows the password can try codes without end: in rounds of up to four wrong codes
  followed by one request with the right password, every wrong code is answered 401 and every
  password 200, so no request is ever refused for too many failures, however many rounds are
  played, all at one instant and from one address. Each accepted password clears the counts that
  the wrong codes left.
\<close>

theorem password_resets_code_lockout:
  assumes "answer env (NewOwner env cfg NewRateLimiter, db) start = (StatusOK, Started pid fs)"
    and "c_Email cfg \<noteq> []" "c_PasswordHash cfg \<noteq> []" "c_TOTPSecret cfg \<noteq> []"
    and "EqualFold (env_fold env) email (c_Email cfg)" "ComparePassword (env_idkey env) pw (c_PasswordHash cfg) = None"
    and "now \<le> oc_now start + PairingTTL"
    and "\<forall>codes \<in> set rounds. length codes \<le> 4 \<and>
           (\<forall>code \<in> set codes. env_totp env code (c_TOTPSecret cfg) now totp_options \<noteq> Some True)"
  shows "statuses env (owner_run env (NewOwner env cfg NewRateLimiter, db) [Pair start])
           (concat (map (siege_round now remote pid email pw) rounds)) =
         concat (map (\<lambda>codes. replicate (length codes) StatusUnauthorized @ [StatusOK]) rounds)"
proof -
  obtain ow where r: "RegisterPairing env start (NewOwner env cfg NewRateLimiter) db = ((StatusOK, Started pid fs), ow, db)"
    "under_way cfg (oc_now start) pid {} ow" "o_heap ow = o_heap (NewOwner env cfg NewRateLimiter)"
    "o_limiter ow = NewRateLimiter"
    by (rule started_under_way [OF assms(1,3,4)])
  have "siege cfg (oc_now start) pid (clientIP remote) 0 ow"
    using r(2-4) assms(4)
    by (simp add: siege_def NewOwner_def NewTOTPVerifier_def NewRateLimiter_def few_failures_def)
  from siege_rounds [OF this assms(7,2,5,6,8)] r(1) show ?thesis by simp
qed

theorem password_resets_code_lockout_witness:
  "statuses demo_env (owner_run demo_env (NewOwner demo_env demo_cfg NewRateLimiter, emptyDB) [Pair demo_start])
     (concat (map (siege_round 2 ''10.0.0.1:5000'' demo_id ''Me@ex.org'' ''pw'')
       [[''000000'', ''000001'', ''000002'', ''000003''], [''000004'', ''000005'', ''000006'', ''000007'']])) =
   [401, 401, 401, 401, 200, 401, 401, 401, 401, 200]"
  using password_resets_code_lockout [OF demo_start_answer, of "''Me@ex.org''" "''pw''" 2
      "[[''000000'', ''000001'', ''000002'', ''000003''], [''000004'', ''000005'', ''000006'', ''000007'']]"
      "''10.0.0.1:5000''"]
  by (simp add: demo_cfg_def demo_password demo_email demo_world time_simps numeral_nat)


section \<open>What the password endpoint tells about the email\<close>

text \<open>
  The password endpoint tells a wrong email from a right one: for a pairing id it does not know,
  a well-formed request outside a lockout is answered 401 when the email is wrong and 404 when it is
  right, whatever the password; and the second answer costs the caller no failure.
\<close>

lemma unknown_attempt_reveals_email:
  assumes "req_path (oc_req c) = ''/owner/pair/password''" "req_method (oc_req c) = MethodPost"
    "req_json (oc_req c) = JsonObject body" "o_email ow \<noteq> []"
    and "Allow (oc_now c) (o_limiter ow) (clientIP (req_remote (oc_req c))) (o_email ow) = Inr ()"
    and "o_attempts ow (body ''pairing_id'') = None"
  shows "fst (answer env (ow, db) c) =
      (if EqualFold (env_fold env) (body ''email'') (o_email ow) then StatusNotFound else StatusUnauthorized) \<and>
    (EqualFold (env_fold env) (body ''email'') (o_email ow) \<longrightarrow>
      o_limiter (fst (owner_step env (ow, db) (Pair c))) = o_limiter ow)"
proof -
  have "o_attempts (sweepAttempts (oc_now c) ow) (body ''pairing_id'') = None"
    using assms(6) by (simp add: sweepAttempts_def sweep_simps)
  with assms show ?thesis
    by (simp add: answer_def RegisterPairing_def handlePairPassword_def factorEndpoint_def satisfyFactor_def Let_def)
qed

lemma unknown_attempt_reveals_email_example:
  "fst (answer demo_env (NewOwner demo_env demo_cfg NewRateLimiter, emptyDB)
     (password_login 1 ''10.0.0.1:5000'' ''no such id'' ''me@ex.org'' ''anything'')) = StatusNotFound"
proof -
  let ?ow = "NewOwner demo_env demo_cfg NewRateLimiter"
  have ow: "o_email ?ow = ''me@ex.org''" "o_limiter ?ow = NewRateLimiter" "o_attempts ?ow = Map.empty"
    by (simp_all add: NewOwner_def demo_cfg_def)
  have path: "req_path (oc_req (password_login n r pid e pw)) = ''/owner/pair/password''" for n r pid e pw
    by (simp add: password_login_def)
  show ?thesis
    by (subst unknown_attempt_reveals_email [OF path password_login_simps(7,8), THEN conjunct1])
      (simp_all add: ow fresh_limiter)
qed

end
