(* ===== verification/Interleaving.thy ===== *)
theory Interleaving
  imports Prelude
begin

text \<open>
  Requests that run at the same time: a thread is a request with the point it has reached, and the
  threads take turns on the shared state, one atomic step at a time. A configuration is the list of
  threads with the state; a thread that has not taken its first step has not arrived yet. The locale
  \<open>obligations\<close> is the proof method: an invariant of the shared state up to what the running threads
  still owe.
\<close>


section \<open>Turns\<close>

type_synonym ('t, 's) config = "'t list \<times> 's"

inductive turn :: "('t \<Rightarrow> 's \<Rightarrow> ('t \<times> 's) option) \<Rightarrow> ('t, 's) config \<Rightarrow> ('t, 's) config \<Rightarrow> bool"
  for step where
  turn: "i < length ts \<Longrightarrow> step (ts ! i) s = Some (t, s') \<Longrightarrow> turn step (ts, s) (ts[i := t], s')"

inductive_cases turnE: "turn step (ts, s) cfg"

abbreviation interleaved ::
    "('t \<Rightarrow> 's \<Rightarrow> ('t \<times> 's) option) \<Rightarrow> ('t, 's) config \<Rightarrow> ('t, 's) config \<Rightarrow> bool" where
  "interleaved step \<equiv> (turn step)\<^sup>*\<^sup>*"

text \<open>The same as a schedule: whose turn it is, given as a list of indices.\<close>

fun take_turn :: "('t \<Rightarrow> 's \<Rightarrow> ('t \<times> 's) option) \<Rightarrow> ('t, 's) config \<Rightarrow> nat \<Rightarrow> ('t, 's) config" where
  "take_turn step (ts, s) i =
     (if i < length ts then case step (ts ! i) s of None \<Rightarrow> (ts, s) | Some (t, s') \<Rightarrow> (ts[i := t], s')
      else (ts, s))"

abbreviation follow :: "('t \<Rightarrow> 's \<Rightarrow> ('t \<times> 's) option) \<Rightarrow> nat list \<Rightarrow> ('t, 's) config \<Rightarrow> ('t, 's) config" where
  "follow step is cfg \<equiv> run_steps (take_turn step) cfg is"

lemma take_turn_cases: "take_turn step cfg i = cfg \<or> turn step cfg (take_turn step cfg i)"
  by (cases cfg) (auto split: option.split intro: turn.intros)

lemma follow_interleaved: "interleaved step cfg (follow step is cfg)"
proof (induction "is" arbitrary: cfg)
  case (Cons i "is")
  have "interleaved step cfg (take_turn step cfg i)" using take_turn_cases [of step cfg i] by auto
  with Cons.IH [of "take_turn step cfg i"] show ?case by simp
qed simp

lemma turn_take_turn: "turn step cfg cfg' \<Longrightarrow> \<exists>i. take_turn step cfg i = cfg'"
  by (induction rule: turn.induct) (metis take_turn.simps option.case(2) case_prod_conv)

lemma interleaved_iff_follow: "interleaved step cfg cfg' \<longleftrightarrow> (\<exists>is. follow step is cfg = cfg')"
proof
  assume "interleaved step cfg cfg'"
  then show "\<exists>is. follow step is cfg = cfg'"
  proof (induction rule: rtranclp_induct)
    case base
    have "follow step [] cfg = cfg" by simp
    then show ?case by blast
  next
    case (step y z)
    then obtain "is" i where "follow step is cfg = y" "take_turn step y i = z" using turn_take_turn by metis
    then have "follow step (is @ [i]) cfg = z" by simp
    then show ?case by blast
  qed
qed (use follow_interleaved in blast)

lemma interleaved_length: "interleaved step cfg cfg' \<Longrightarrow> length (fst cfg') = length (fst cfg)"
proof (induction rule: rtranclp_induct)
  case (step y z)
  then show ?case by (cases y) (auto elim: turnE)
qed simp


text \<open>A thread that takes up to \<open>n\<close> turns in a row, with nobody in between.\<close>

fun alone :: "('t \<Rightarrow> 's \<Rightarrow> ('t \<times> 's) option) \<Rightarrow> nat \<Rightarrow> 't \<Rightarrow> 's \<Rightarrow> 't \<times> 's" where
  "alone step 0 t s = (t, s)"
| "alone step (Suc n) t s = (case step t s of None \<Rightarrow> (t, s) | Some (t', s') \<Rightarrow> alone step n t' s')"

lemma alone_interleaved:
  assumes "alone step n t s = (t', s')" "i < length ts" "ts ! i = t"
  shows "interleaved step (ts, s) (ts[i := t'], s')"
  using assms
proof (induction n arbitrary: t s ts)
  case 0
  then show ?case by auto
next
  case (Suc n)
  show ?case
  proof (cases "step t s")
    case None
    with Suc.prems show ?thesis by auto
  next
    case (Some p)
    obtain t1 s1 where p: "p = (t1, s1)" by fastforce
    have "turn step (ts, s) (ts[i := t1], s1)" using Suc.prems Some p by (auto intro: turn.intros)
    moreover have "interleaved step (ts[i := t1], s1) ((ts[i := t1])[i := t'], s')"
      using Suc.prems Some p by (intro Suc.IH) simp_all
    ultimately show ?thesis by (simp add: converse_rtranclp_into_rtranclp)
  qed
qed


lemma then_alone:
  assumes "interleaved step cfg (ts, s)" "alone step n t s = (t', s')" "ts ! i = t" "i < length ts" "ts' = ts[i := t']"
  shows "interleaved step cfg (ts', s')"
  unfolding assms(5) by (rule rtranclp_trans [OF assms(1) alone_interleaved [OF assms(2,4,3)]])

text \<open>
  A sweep: every thread of the list can take a step that keeps \<open>P\<close>, so all of them may take it, in
  turn, before any takes another.
\<close>

lemma sweep:
  assumes "list_all2 (\<lambda>t u. \<forall>s. P s \<longrightarrow> (\<exists>s'. step t s = Some (u, s') \<and> P s')) ts us" "P s"
  shows "\<exists>s'. interleaved step (ps @ ts @ qs, s) (ps @ us @ qs, s') \<and> P s'"
  using assms
proof (induction ts us arbitrary: ps s rule: list_all2_induct)
  case Nil
  then show ?case by auto
next
  case (Cons t ts u us)
  obtain s1 where s1: "step t s = Some (u, s1)" "P s1" using Cons.hyps(1) Cons.prems by blast
  have "turn step (ps @ t # ts @ qs, s) ((ps @ t # ts @ qs)[length ps := u], s1)"
    using s1(1) by (intro turn.intros) simp_all
  then have "turn step (ps @ (t # ts) @ qs, s) ((ps @ [u]) @ ts @ qs, s1)" by simp
  moreover obtain s' where "interleaved step ((ps @ [u]) @ ts @ qs, s1) ((ps @ [u]) @ us @ qs, s')" "P s'"
    using Cons.IH [OF s1(2), of "ps @ [u]"] by blast
  ultimately show ?case using converse_rtranclp_into_rtranclp by (metis append.assoc append_Cons append_Nil)
qed


section \<open>Invariants of all interleavings\<close>

text \<open>
  What a thread relies on is \<open>A\<close>, what it still has to do for the invariant is the set of keys it owes.
  A step of a thread settles its own account and does not disturb what the others rely on.
\<close>

locale obligations =
  fixes step :: "'t \<Rightarrow> 's \<Rightarrow> ('t \<times> 's) option"
    and J :: "'k set \<Rightarrow> 's \<Rightarrow> bool"
    and owes :: "'t \<Rightarrow> 'k set"
    and A :: "'t \<Rightarrow> 's \<Rightarrow> bool"
  assumes keeps: "J (owes t \<union> K) s \<Longrightarrow> A t s \<Longrightarrow> step t s = Some (t', s') \<Longrightarrow> J (owes t' \<union> K) s' \<and> A t' s'"
    and stable: "J (owes t \<union> K) s \<Longrightarrow> A t s \<Longrightarrow> A u s \<Longrightarrow> step t s = Some (t', s') \<Longrightarrow> A u s'"
begin

definition sound :: "('t, 's) config \<Rightarrow> bool" where
  "sound cfg \<longleftrightarrow> J (\<Union> (owes ` set (fst cfg))) (snd cfg) \<and> (\<forall>t \<in> set (fst cfg). A t (snd cfg))"

lemma sound_turn:
  assumes "sound cfg" "turn step cfg cfg'"
  shows "sound cfg'"
  using assms(2,1)
proof (induction rule: turn.induct)
  case (turn i ts s t s')
  have split: "ts = take i ts @ ts ! i # drop (Suc i) ts" and
    upd: "ts[i := t] = take i ts @ t # drop (Suc i) ts"
    using turn(1) by (simp_all add: id_take_nth_drop upd_conv_take_nth_drop)
  let ?rest = "take i ts @ drop (Suc i) ts"
  let ?K = "\<Union> (owes ` set ?rest)"
  have sets: "set ts = insert (ts ! i) (set ?rest)" "set (ts[i := t]) = insert t (set ?rest)"
    by (subst split; simp) (subst upd; simp)
  have J: "J (owes (ts ! i) \<union> ?K) s" and A: "A (ts ! i) s" "\<forall>u \<in> set ?rest. A u s"
    using turn(3) unfolding sound_def sets fst_conv snd_conv by auto
  from keeps [OF J A(1) turn(2)] stable [OF J A(1) _ turn(2)] A(2)
  show ?case unfolding sound_def sets fst_conv snd_conv by (simp only: image_insert Union_insert ball_simps) blast
qed

lemma sound_interleaved: "interleaved step cfg cfg' \<Longrightarrow> sound cfg \<Longrightarrow> sound cfg'"
  by (induction rule: rtranclp_induct) (blast intro: sound_turn)+

lemma interleaved_J:
  assumes "interleaved step (ts, s) (ts', s')"
    and "\<And>t. t \<in> set ts \<Longrightarrow> owes t = {} \<and> A t s" and "J {} s"
  shows "J (\<Union> (owes ` set ts')) s'"
proof -
  have "(\<Union> (owes ` set ts)) = {}" using assms(2) by simp
  with assms(2,3) have "sound (ts, s)" by (simp add: sound_def)
  from sound_interleaved [OF assms(1) this] show ?thesis by (simp add: sound_def)
qed

end

end
