(* ===== verification/Owner_Race.thy ===== *)
theory Owner_Race
  imports Owner_Limits Interleaving
begin

text \<open>
  Pairing requests that run at the same time. A factor endpoint of \<^verbatim>\<open>identity/owner.go\<close> asks the limiter,
  checks the evidence under the owner's mutex, and records the outcome, in three critical sections;
  the completion endpoint consumes the attempt under the mutex and stores the device after it. Each
  critical section is one step.
\<close>


section \<open>A request as a thread\<close>

datatype owner_thread =
    OwnerArrived owner_call
  | FactorAllowed owner_call factor
  | FactorChecked owner_call "bool option" owner_resp
  | CompleteStore owner_call pairingRecord
  | OwnerAnswered owner_resp

text \<open>
  \<^verbatim>\<open>satisfyFactor\<close> in two parts: what happens under the mutex, with the answer and the outcome to be
  recorded (\<open>Some True\<close> a success, \<open>Some False\<close> a failure), and the record.
\<close>

definition checkFactor ::
    "('wa, 'user, 'sess, 'parsed) identity_env \<Rightarrow> instant \<Rightarrow> ('wa, 'user, 'sess) Owner \<Rightarrow>
     string \<Rightarrow> factor \<Rightarrow> string \<Rightarrow> (owner_resp \<times> bool option) \<times> ('wa, 'user, 'sess) Owner" where
  "checkFactor env now ow pid f ev =
     (let ow1 = sweepAttempts now ow
      in case o_attempts ow1 pid of
           None \<Rightarrow> (((StatusNotFound, OwnerError ''unknown pairing attempt''), None), ow1)
         | Some rec \<Rightarrow>
             let (err, heap', attempt') =
                   Satisfy (owner_dispatch env) now (o_heap ow1) (pr_attempt rec) f ev
             in ((case err of
                    None \<Rightarrow> ((StatusOK, OutstandingFactors (Outstanding attempt')), Some True)
                  | Some ErrPairingExpired \<Rightarrow> ((StatusGone, OwnerError ''pairing attempt expired''), None)
                  | Some ErrPairingConsumed \<Rightarrow>
                      ((StatusConflict, OwnerError ''pairing attempt already completed''), None)
                  | Some (ErrUnknownFactor _) \<Rightarrow> ((StatusBadRequest, OwnerError ''unknown factor''), None)
                  | Some _ \<Rightarrow> ((StatusUnauthorized, OwnerError ''invalid credentials''), Some False)),
                 ow1\<lparr>o_heap := heap',
                     o_attempts := (o_attempts ow1)(pid \<mapsto> rec\<lparr>pr_attempt := attempt'\<rparr>)\<rparr>))"

definition recordOutcome ::
    "owner_call \<Rightarrow> bool option \<Rightarrow> ('wa, 'user, 'sess) Owner \<Rightarrow> ('wa, 'user, 'sess) Owner" where
  "recordOutcome c outcome ow =
     (let ip = clientIP (req_remote (oc_req c))
      in case outcome of
           None \<Rightarrow> ow
         | Some ok \<Rightarrow> if ok then limiterSuccess ip ow else limiterFailure (oc_now c) ip ow)"

definition factor_arrive ::
    "('wa, 'user, 'sess, 'parsed) identity_env \<Rightarrow> owner_call \<Rightarrow> factor \<Rightarrow> ('wa, 'user, 'sess) Owner \<Rightarrow> owner_thread" where
  "factor_arrive env c f ow =
     (if req_method (oc_req c) \<noteq> MethodPost
      then OwnerAnswered (StatusMethodNotAllowed, OwnerError ''method not allowed'')
      else case req_json (oc_req c) of
             JsonObject body \<Rightarrow>
               (case Allow (oc_now c) (o_limiter ow) (clientIP (req_remote (oc_req c))) (o_email ow) of
                  Inl _ \<Rightarrow> OwnerAnswered (StatusTooManyRequests, OwnerError ''too many failed attempts'')
                | Inr _ \<Rightarrow>
                    if f = FactorPassword \<and>
                       (o_email ow = [] \<or> \<not> EqualFold (env_fold env) (body ''email'') (o_email ow))
                    then FactorChecked c (Some False) (StatusUnauthorized, OwnerError ''invalid credentials'')
                    else FactorAllowed c f)
           | _ \<Rightarrow> OwnerAnswered (StatusBadRequest, OwnerError ''invalid JSON body''))"

definition complete_arrive ::
    "owner_call \<Rightarrow> ('wa, 'user, 'sess) Owner \<Rightarrow> owner_thread \<times> ('wa, 'user, 'sess) Owner" where
  "complete_arrive c ow =
     (if req_method (oc_req c) \<noteq> MethodPost
      then (OwnerAnswered (StatusMethodNotAllowed, OwnerError ''method not allowed''), ow)
      else case req_json (oc_req c) of
             JsonObject body \<Rightarrow>
               let pid = body ''pairing_id'';
                   ow1 = sweepAttempts (oc_now c) ow
               in (case o_attempts ow1 pid of
                     None \<Rightarrow> (OwnerAnswered (StatusNotFound, OwnerError ''unknown pairing attempt''), ow1)
                   | Some rec \<Rightarrow>
                       (case Complete (oc_now c) (pr_attempt rec) of
                          (Some e, a') \<Rightarrow>
                            (OwnerAnswered
                               (case e of
                                  ErrPairingIncomplete _ \<Rightarrow> (StatusConflict, Incomplete (Outstanding a'))
                                | ErrPairingExpired \<Rightarrow> (StatusGone, OwnerError ''pairing attempt expired'')
                                | ErrPairingConsumed \<Rightarrow>
                                    (StatusConflict, OwnerError ''pairing attempt already completed'')
                                | _ \<Rightarrow> (StatusInternalServerError, OwnerError ''failed to complete pairing'')),
                             ow1\<lparr>o_attempts := (o_attempts ow1)(pid \<mapsto> rec\<lparr>pr_attempt := a'\<rparr>)\<rparr>)
                        | (None, a') \<Rightarrow>
                            (CompleteStore c (rec\<lparr>pr_attempt := a'\<rparr>),
                             ow1\<lparr>o_attempts := map_delete (o_attempts ow1) pid\<rparr>)))
           | _ \<Rightarrow> (OwnerAnswered (StatusBadRequest, OwnerError ''invalid JSON body''), ow))"

text \<open>The device is stored after the mutex is released.\<close>

definition complete_store :: "owner_call \<Rightarrow> pairingRecord \<Rightarrow> DB \<Rightarrow> owner_resp \<times> DB" where
  "complete_store c rec db =
     (case randomID (oc_rnd c) of
        None \<Rightarrow> ((StatusInternalServerError, OwnerError ''failed to complete pairing''), db)
      | Some did \<Rightarrow>
          (case StorePairDevice (oc_fault c) (oc_unix c) db did (pr_deviceName rec) (pr_platform rec)
                  (a_DevicePub (pr_attempt rec)) of
             (Inl _, db') \<Rightarrow> ((StatusInternalServerError, OwnerError ''failed to store paired device''), db')
           | (Inr _, db') \<Rightarrow> ((StatusOK, PairedDevice did), db')))"

fun owner_thread_step ::
    "('wa, 'user, 'sess, 'parsed) identity_env \<Rightarrow> owner_thread \<Rightarrow> ('wa, 'user, 'sess) owner_state \<Rightarrow>
     (owner_thread \<times> ('wa, 'user, 'sess) owner_state) option" where
  "owner_thread_step env (OwnerArrived c) (ow, db) = Some
     (case endpoint_factor c of
        Some f \<Rightarrow> (factor_arrive env c f ow, ow, db)
      | None \<Rightarrow>
          if req_path (oc_req c) = ''/owner/pair/complete''
          then (let (t, ow') = complete_arrive c ow in (t, ow', db))
          else (let (resp, s') = RegisterPairing env c ow db in (OwnerAnswered resp, s')))"
| "owner_thread_step env (FactorAllowed c f) (ow, db) = Some
     (let ((resp, outcome), ow') = checkFactor env (oc_now c) ow (call_body c ''pairing_id'') f (evidence c)
      in (FactorChecked c outcome resp, ow', db))"
| "owner_thread_step env (FactorChecked c outcome resp) (ow, db) = Some
     (OwnerAnswered resp, recordOutcome c outcome ow, db)"
| "owner_thread_step env (CompleteStore c rec) (ow, db) = Some
     (let (resp, db') = complete_store c rec db in (OwnerAnswered resp, ow, db'))"
| "owner_thread_step env (OwnerAnswered resp) s = None"


section \<open>A request on its own\<close>

lemma satisfyFactor_split:
  "satisfyFactor env now ow (clientIP (req_remote (oc_req c))) pid f ev =
     (let ((resp, outcome), ow') = checkFactor env now ow pid f ev in (resp, recordOutcome c outcome ow'))"
  if "oc_now c = now"
  using that
  by (auto simp: satisfyFactor_def checkFactor_def recordOutcome_def Let_def
      split: option.split auth_error.split prod.split)

lemma owner_alone_answered [simp]:
  "alone (owner_thread_step env) n (OwnerAnswered resp) s = (OwnerAnswered resp, s)"
  by (cases n) simp_all

lemma owner_alone_steps:
  "alone (owner_thread_step env) (Suc n) (FactorChecked c outcome resp) (ow, db) =
     (OwnerAnswered resp, recordOutcome c outcome ow, db)"
  "alone (owner_thread_step env) (Suc (Suc n)) (FactorAllowed c f) (ow, db) =
     (case satisfyFactor env (oc_now c) ow (clientIP (req_remote (oc_req c))) (call_body c ''pairing_id'') f (evidence c) of
        (resp, ow') \<Rightarrow> (OwnerAnswered resp, ow', db))"
  "alone (owner_thread_step env) (Suc n) (CompleteStore c rec) (ow, db) =
     (case complete_store c rec db of (resp, db') \<Rightarrow> (OwnerAnswered resp, ow, db'))"
  by (simp_all add: satisfyFactor_split Let_def split: prod.split)

lemma handlePairComplete_split:
  "handlePairComplete (oc_now c) (oc_unix c) (oc_rnd c) (oc_fault c) ow db (oc_req c) =
     (case complete_arrive c ow of
        (CompleteStore c' rec, ow') \<Rightarrow> (case complete_store c' rec db of (resp, db') \<Rightarrow> (resp, ow', db'))
      | (OwnerAnswered resp, ow') \<Rightarrow> (resp, ow', db))"
  by (simp add: handlePairComplete_def complete_arrive_def complete_store_def Let_def
      split: json_body.split option.split prod.split sum.split)

lemma complete_arrive_cases:
  obtains (answered) resp ow' where "complete_arrive c ow = (OwnerAnswered resp, ow')" "\<forall>d. snd resp \<noteq> PairedDevice d"
  | (consumed) rec a' ow' where "complete_arrive c ow = (CompleteStore c (rec\<lparr>pr_attempt := a'\<rparr>), ow')"
      "req_method (oc_req c) = MethodPost"
      "o_attempts (sweepAttempts (oc_now c) ow) (call_body c ''pairing_id'') = Some rec"
      "Complete (oc_now c) (pr_attempt rec) = (None, a')"
      "ow' = (sweepAttempts (oc_now c) ow)
         \<lparr>o_attempts := map_delete (o_attempts (sweepAttempts (oc_now c) ow)) (call_body c ''pairing_id'')\<rparr>"
proof (cases "\<exists>body. req_method (oc_req c) = MethodPost \<and> req_json (oc_req c) = JsonObject body")
  case False
  then have "\<exists>st msg. complete_arrive c ow = (OwnerAnswered (st, OwnerError msg), ow)"
    by (cases "req_json (oc_req c)") (auto simp: complete_arrive_def)
  then show ?thesis using answered by fastforce
next
  case True
  then obtain body where r: "req_method (oc_req c) = MethodPost" "req_json (oc_req c) = JsonObject body" by blast
  then have pid: "call_body c ''pairing_id'' = body ''pairing_id''" by (simp add: call_body_def)
  show ?thesis
  proof (cases "o_attempts (sweepAttempts (oc_now c) ow) (body ''pairing_id'')")
    case None
    with r show ?thesis by (intro answered) (auto simp: complete_arrive_def Let_def)
  next
    case (Some rec)
    obtain err a' where C: "Complete (oc_now c) (pr_attempt rec) = (err, a')" by fastforce
    show ?thesis
    proof (cases err)
      case None
      with r Some C pid show ?thesis by (intro consumed [where rec = rec and a' = a']) (auto simp: complete_arrive_def Let_def)
    next
      case (Some e)
      with r C \<open>o_attempts (sweepAttempts (oc_now c) ow) (body ''pairing_id'') = Some rec\<close> show ?thesis
        by (intro answered) (auto simp: complete_arrive_def Let_def split: auth_error.splits)
    qed
  qed
qed

lemma owner_alone_first:
  "alone (owner_thread_step env) 3 (OwnerArrived c) s =
     (case owner_thread_step env (OwnerArrived c) s of
        None \<Rightarrow> (OwnerArrived c, s) | Some (t, s1) \<Rightarrow> alone (owner_thread_step env) (Suc (Suc 0)) t s1)"
  by (simp add: numeral_3_eq_3)

lemma factor_alone:
  assumes "endpoint_factor c = Some f"
  shows "alone (owner_thread_step env) (Suc (Suc 0)) (factor_arrive env c f ow) (ow, db) =
     (case RegisterPairing env c ow db of (resp, s') \<Rightarrow> (OwnerAnswered resp, s'))"
proof -
  note owner_alone_steps [simp] and alone.simps(2) [simp del]
  have "RegisterPairing env c ow db =
      (let (resp, ow') = factorEndpoint (oc_now c) ow (oc_req c) (\<lambda>ip body.
         if f = FactorPassword \<and> (o_email ow = [] \<or> \<not> EqualFold (env_fold env) (body ''email'') (o_email ow))
         then ((StatusUnauthorized, OwnerError ''invalid credentials''), limiterFailure (oc_now c) ip ow)
         else satisfyFactor env (oc_now c) ow ip (call_body c ''pairing_id'') f (evidence c)) in (resp, ow', db))"
    using assms required_distinct
    by (auto simp: RegisterPairing_def endpoint_factor_def handlePairPassword_def handlePairTOTP_def
        handlePairPasskey_def factorEndpoint_def call_body_def evidence_def Let_def
        split: if_splits json_body.split sum.split prod.split)
  then show ?thesis
    by (auto simp: factor_arrive_def factorEndpoint_def recordOutcome_def Let_def
        split: json_body.split sum.split prod.split)
qed

text \<open>
  Run without interruption, the three steps of a pairing request are the handler of the sequential
  model, with its answer and its effect on the owner and the database.
\<close>

lemma owner_alone:
  "alone (owner_thread_step env) 3 (OwnerArrived c) (ow, db) =
     (case RegisterPairing env c ow db of (resp, s') \<Rightarrow> (OwnerAnswered resp, s'))"
proof (cases "endpoint_factor c")
  case (Some f)
  then show ?thesis by (simp add: owner_alone_first factor_alone del: alone.simps(2))
next
  case None
  show ?thesis
  proof (cases "req_path (oc_req c) = ''/owner/pair/complete''")
    case True
    then have reg: "RegisterPairing env c ow db =
        handlePairComplete (oc_now c) (oc_unix c) (oc_rnd c) (oc_fault c) ow db (oc_req c)"
      by (simp add: RegisterPairing_def Let_def)
    show ?thesis
      by (cases rule: complete_arrive_cases [where c = c and ow = ow])
        (use None True in \<open>simp_all add: owner_alone_first reg handlePairComplete_split owner_alone_steps case_prod_beta
            del: alone.simps(2)\<close>)
  next
    case False
    with None show ?thesis by (simp add: owner_alone_first case_prod_beta del: alone.simps(2))
  qed
qed


section \<open>Wrong codes at the same time\<close>

text \<open>The first step of a guess asks the limiter, which knows of no failure yet.\<close>

lemma guess_arrives:
  assumes "Allow now (o_limiter ow) (clientIP remote) (o_email ow) = Inr ()"
  shows "owner_thread_step env (OwnerArrived (totp_guess now remote pid code)) (ow, db) =
     Some (FactorAllowed (totp_guess now remote pid code) FactorTOTP, ow, db)"
  using assms required_distinct by (simp add: factor_arrive_def)

abbreviation InvalidCredentials :: owner_resp where
  "InvalidCredentials \<equiv> (StatusUnauthorized, OwnerError ''invalid credentials'')"

text \<open>The second step finds the code wrong and leaves the owner's state as it is.\<close>

lemma wrong_guess_checked:
  assumes "siege cfg t0 pid ip n ow" "now \<le> t0 + PairingTTL"
    and "env_totp env code (c_TOTPSecret cfg) now totp_options \<noteq> Some True"
  shows "\<exists>ow'. owner_thread_step env (FactorAllowed (totp_guess now remote pid code) FactorTOTP) (ow, db) =
       Some (FactorChecked (totp_guess now remote pid code) (Some False) InvalidCredentials, ow', db) \<and>
     siege cfg t0 pid ip n ow' \<and> o_heap ow' = o_heap ow"
proof -
  obtain rec where rec: "o_attempts ow pid = Some rec" "a_StartedAt (pr_attempt rec) = t0"
    "\<not> a_consumed (pr_attempt rec)"
    "\<forall>f \<in> set RequiredFactors. a_verifiers (pr_attempt rec) f = Some (Impl (factor_ref f))"
    using assms(1) unfolding siege_def under_way_def by blast
  have live: "\<not> Expired now (pr_attempt rec)" using assms(2) rec(2) by (simp add: Expired_iff)
  have ver: "a_verifiers (pr_attempt rec) FactorTOTP = Some (Impl RefTOTP)"
    using rec(4) required_distinct by (simp add: RequiredFactors_def factor_ref_def)
  obtain t where t: "h_totp (o_heap ow) = Some t" "tv_secret t = c_TOTPSecret cfg"
    using assms(1) unfolding siege_def by blast
  obtain e where e: "owner_dispatch env now RefTOTP (o_heap ow) code = (o_heap ow, Some e)"
    "e \<in> {ErrTOTPCodeInvalid, ErrTOTPCodeReused}"
    using wrong_code_rejected [OF _ t(1), of env code now] assms(3) t(2) by auto
  have some: "o_attempts (sweepAttempts now ow) pid = Some rec" using rec(1) live by (simp add: sweepAttempts_Some)
  then have "(o_attempts (sweepAttempts now ow))(pid \<mapsto> rec) = o_attempts (sweepAttempts now ow)" by (rule map_upd_triv)
  then have "checkFactor env now ow pid FactorTOTP code = ((InvalidCredentials, Some False), sweepAttempts now ow)"
    using some live rec(3) ver e by (auto simp: checkFactor_def Satisfy_def Let_def)
  moreover have "siege cfg t0 pid ip n (sweepAttempts now ow)"
    using assms(1) rec live by (auto simp: siege_def under_way_def sweepAttempts_Some)
  ultimately show ?thesis by simp
qed

lemma right_guess_checked:
  assumes "siege cfg t0 pid ip n ow" "now \<le> t0 + PairingTTL"
    and "owner_dispatch env now RefTOTP (o_heap ow) code = (h', None)"
  shows "\<exists>b ow'. owner_thread_step env (FactorAllowed (totp_guess now remote pid code) FactorTOTP) (ow, db) =
       Some (FactorChecked (totp_guess now remote pid code) (Some True) (StatusOK, b), ow', db)"
proof -
  obtain rec where rec: "o_attempts ow pid = Some rec" "a_StartedAt (pr_attempt rec) = t0"
    "\<not> a_consumed (pr_attempt rec)"
    "\<forall>f \<in> set RequiredFactors. a_verifiers (pr_attempt rec) f = Some (Impl (factor_ref f))"
    using assms(1) unfolding siege_def under_way_def by blast
  have live: "\<not> Expired now (pr_attempt rec)" using assms(2) rec(2) by (simp add: Expired_iff)
  have ver: "a_verifiers (pr_attempt rec) FactorTOTP = Some (Impl RefTOTP)"
    using rec(4) required_distinct by (simp add: RequiredFactors_def factor_ref_def)
  have "o_attempts (sweepAttempts now ow) pid = Some rec" using rec(1) live by (simp add: sweepAttempts_Some)
  then have "\<exists>b ow'. checkFactor env now ow pid FactorTOTP code = (((StatusOK, b), Some True), ow')"
    using live rec(3) ver assms(3) by (auto simp: checkFactor_def Satisfy_def Let_def)
  then show ?thesis by auto
qed

text \<open>The three sweeps: all ask, all are checked, all are recorded.\<close>

lemma guesses_race:
  assumes siege: "siege cfg t0 pid (clientIP remote) 0 ow" and now: "now \<le> t0 + PairingTTL"
    and wrong: "\<forall>code \<in> set wrong. env_totp env code (c_TOTPSecret cfg) now totp_options \<noteq> Some True"
    and right: "owner_dispatch env now RefTOTP (o_heap ow) right = (h', None)"
  shows "\<exists>b s'. interleaved (owner_thread_step env)
     (map (\<lambda>code. OwnerArrived (totp_guess now remote pid code)) (wrong @ [right]), ow, db)
     (map (\<lambda>_. OwnerAnswered InvalidCredentials) wrong @ [OwnerAnswered (StatusOK, b)], s')"
proof -
  let ?step = "owner_thread_step env" and ?g = "totp_guess now remote pid"
  let ?asked = "map (\<lambda>code. FactorAllowed (?g code) FactorTOTP)"
  let ?failed = "map (\<lambda>code. FactorChecked (?g code) (Some False) InvalidCredentials) wrong"
  have "list_all2 (\<lambda>t u. \<forall>s. s = (ow, db) \<longrightarrow> (\<exists>s'. ?step t s = Some (u, s') \<and> s' = (ow, db)))
      (map (\<lambda>code. OwnerArrived (?g code)) (wrong @ [right])) (?asked (wrong @ [right]))"
    unfolding list.rel_map
    by (rule list.rel_refl) (simp add: guess_arrives [OF siege_allowed [OF siege]] del: owner_thread_step.simps)
  from sweep [where P = "\<lambda>s. s = (ow, db)" and ps = "[]" and qs = "[]", OF this]
  have asked: "interleaved ?step (map (\<lambda>code. OwnerArrived (?g code)) (wrong @ [right]), ow, db) (?asked (wrong @ [right]), ow, db)"
    by auto
  let ?P = "\<lambda>s. \<exists>ow'. s = (ow', db) \<and> siege cfg t0 pid (clientIP remote) 0 ow' \<and> o_heap ow' = o_heap ow"
  have "list_all2 (\<lambda>t u. \<forall>s. ?P s \<longrightarrow> (\<exists>s'. ?step t s = Some (u, s') \<and> ?P s')) (?asked wrong) ?failed"
    unfolding list.rel_map
  proof (rule list.rel_refl_strong, intro allI impI)
    fix code s
    assume "code \<in> set wrong" "?P s"
    then obtain ow' where s: "s = (ow', db)" "siege cfg t0 pid (clientIP remote) 0 ow'" "o_heap ow' = o_heap ow" by blast
    from wrong_guess_checked [OF s(2) now, of env code remote db] wrong \<open>code \<in> set wrong\<close> s(1,3)
    show "\<exists>s'. ?step (FactorAllowed (?g code) FactorTOTP) s =
        Some (FactorChecked (?g code) (Some False) InvalidCredentials, s') \<and> ?P s'"
      by (auto simp del: owner_thread_step.simps)
  qed
  from sweep [where P = ?P and ps = "[]" and qs = "?asked [right]" and s = "(ow, db)", OF this] siege
  obtain ow1 where failed: "interleaved ?step (?asked (wrong @ [right]), ow, db) (?failed @ ?asked [right], ow1, db)"
    and ow1: "siege cfg t0 pid (clientIP remote) 0 ow1" "o_heap ow1 = o_heap ow"
    by auto
  obtain b ow2 where "?step (FactorAllowed (?g right) FactorTOTP) (ow1, db) =
      Some (FactorChecked (?g right) (Some True) (StatusOK, b), ow2, db)"
    using right_guess_checked [OF ow1(1) now, of env right] right ow1(2) by fastforce
  then have "turn ?step (?failed @ ?asked [right], ow1, db)
      ((?failed @ ?asked [right])[length wrong := FactorChecked (?g right) (Some True) (StatusOK, b)], ow2, db)"
    by (intro turn.intros) (simp_all add: nth_append del: owner_thread_step.simps)
  then have won: "interleaved ?step (?failed @ ?asked [right], ow1, db)
      (?failed @ [FactorChecked (?g right) (Some True) (StatusOK, b)], ow2, db)"
    by (simp add: list_update_append r_into_rtranclp)
  have "list_all2 (\<lambda>t u. \<forall>s. True \<longrightarrow> (\<exists>s'. ?step t s = Some (u, s') \<and> True))
      (?failed @ [FactorChecked (?g right) (Some True) (StatusOK, b)])
      (map (\<lambda>_. OwnerAnswered InvalidCredentials) wrong @ [OwnerAnswered (StatusOK, b)])"
    by (auto simp: list.rel_map intro!: list_all2_appendI list.rel_refl_strong)
  from sweep [where P = "\<lambda>_. True" and ps = "[]" and qs = "[]" and s = "(ow2, db)", OF this]
  obtain s' where "interleaved ?step (?failed @ [FactorChecked (?g right) (Some True) (StatusOK, b)], ow2, db)
      (map (\<lambda>_. OwnerAnswered InvalidCredentials) wrong @ [OwnerAnswered (StatusOK, b)], s')"
    by auto
  from rtranclp_trans [OF rtranclp_trans [OF rtranclp_trans [OF asked failed] won] this] show ?thesis by blast
qed


section \<open>Completing the same attempt twice\<close>

text \<open>A request to complete the attempt \<open>pid\<close>, and one that could create it anew.\<close>

definition completes :: "string \<Rightarrow> owner_call \<Rightarrow> bool" where
  "completes pid c \<longleftrightarrow> req_path (oc_req c) = ''/owner/pair/complete'' \<and> call_body c ''pairing_id'' = pid"

definition starts :: "string \<Rightarrow> owner_call \<Rightarrow> bool" where
  "starts pid c \<longleftrightarrow> req_path (oc_req c) = ''/owner/pair/start'' \<and> randomID (oc_rnd c) = Some pid"

text \<open>A thread that has consumed the attempt: it is about to store a device, or has answered with it.\<close>

fun redeems :: "owner_thread \<Rightarrow> bool" where
  "redeems (CompleteStore c rec) \<longleftrightarrow> True"
| "redeems (OwnerAnswered resp) \<longleftrightarrow> (\<exists>d. snd resp = PairedDevice d)"
| "redeems t \<longleftrightarrow> False"

fun belongs :: "owner_call \<Rightarrow> owner_thread \<Rightarrow> bool" where
  "belongs c (OwnerArrived c') \<longleftrightarrow> c' = c"
| "belongs c (FactorAllowed c' f) \<longleftrightarrow> c' = c \<and> endpoint_factor c \<noteq> None"
| "belongs c (FactorChecked c' outcome resp) \<longleftrightarrow> c' = c \<and> endpoint_factor c \<noteq> None"
| "belongs c (CompleteStore c' rec) \<longleftrightarrow> c' = c"
| "belongs c (OwnerAnswered resp) \<longleftrightarrow> True"

lemma checkFactor_attempts:
  "o_attempts (snd (checkFactor env now ow pid f ev)) k \<noteq> None \<Longrightarrow> o_attempts ow k \<noteq> None"
  by (auto simp: checkFactor_def Let_def sweepAttempts_Some split: option.splits prod.splits if_splits)

lemma recordOutcome_attempts [simp]: "o_attempts (recordOutcome c outcome ow) = o_attempts ow"
  by (simp add: recordOutcome_def Let_def split: option.split)

lemma start_call_attempts:
  assumes "RegisterPairing env c ow db = (resp, ow', db')" "endpoint_factor c = None"
    and "req_path (oc_req c) \<noteq> ''/owner/pair/complete''"
  shows "(o_attempts ow' k \<noteq> None \<longrightarrow> o_attempts ow k \<noteq> None \<or> starts k c) \<and> (\<forall>d. snd resp \<noteq> PairedDevice d)"
  using assms
  by (auto simp: RegisterPairing_def endpoint_factor_def handlePairStart_def starts_def sweepAttempts_Some Let_def
      split: if_splits json_body.splits option.splits)

lemma factor_arrive_props:
  "endpoint_factor c \<noteq> None \<Longrightarrow> belongs c (factor_arrive env c f ow)" "\<not> redeems (factor_arrive env c f ow)"
  by (auto simp: factor_arrive_def split: json_body.split sum.split)

text \<open>
  One step: the thread stays with its call; the attempt is only brought back by a start; and only a step
  that takes the attempt away redeems it.
\<close>

lemma owner_thread_redeem:
  assumes step: "owner_thread_step env t (ow, db) = Some (t', ow', db')" and own: "belongs c t"
  shows "belongs c t'"
    and "o_attempts ow' pid \<noteq> None \<Longrightarrow> o_attempts ow pid \<noteq> None \<or> starts pid c"
    and "completes pid c \<Longrightarrow> redeems t' \<Longrightarrow> redeems t \<or> o_attempts ow pid \<noteq> None \<and> o_attempts ow' pid = None"
proof -
  have "belongs c t' \<and> (o_attempts ow' pid \<noteq> None \<longrightarrow> o_attempts ow pid \<noteq> None \<or> starts pid c) \<and>
      (completes pid c \<longrightarrow> redeems t' \<longrightarrow> redeems t \<or> o_attempts ow pid \<noteq> None \<and> o_attempts ow' pid = None)"
  proof (cases t)
    case (OwnerArrived c')
    with own have t: "t = OwnerArrived c" by simp
    show ?thesis
    proof (cases "endpoint_factor c")
      case (Some f)
      with step t factor_arrive_props [where c = c and env = env and f = f and ow = ow] show ?thesis by auto
    next
      case None
      show ?thesis
      proof (cases "req_path (oc_req c) = ''/owner/pair/complete''")
        case complete: True
        show ?thesis
        proof (cases rule: complete_arrive_cases [where c = c and ow = ow])
          case (answered resp ow1)
          have "o_attempts ow1 k \<noteq> None \<Longrightarrow> o_attempts ow k \<noteq> None" for k
            using answered(1)
            by (auto simp: complete_arrive_def Let_def sweepAttempts_Some
                split: if_splits json_body.splits option.splits prod.splits)
          with step t None complete answered show ?thesis by auto
        next
          case (consumed rec a' ow1)
          have "o_attempts ow (call_body c ''pairing_id'') = Some rec"
            using consumed(3) by (simp add: sweepAttempts_Some)
          with step t None complete consumed show ?thesis by (auto simp: completes_def sweepAttempts_Some split: if_splits)
        qed
      next
        case False
        obtain resp ow1 db1 where R: "RegisterPairing env c ow db = (resp, ow1, db1)" by (metis prod_cases3)
        from start_call_attempts [OF R None False, of pid] step t None False R show ?thesis
          by (auto simp: completes_def)
      qed
    qed
  next
    case (FactorAllowed c' f)
    obtain resp outcome ow1 where C:
      "checkFactor env (oc_now c') ow (call_body c' ''pairing_id'') f (evidence c') = ((resp, outcome), ow1)"
      by (metis prod_cases3 surj_pair)
    have "o_attempts ow1 k \<noteq> None \<Longrightarrow> o_attempts ow k \<noteq> None" for k
      using checkFactor_attempts [of env "oc_now c'" ow "call_body c' ''pairing_id''" f "evidence c'" k] C by simp
    with step own FactorAllowed C show ?thesis by auto
  next
    case (FactorChecked c' outcome resp)
    with step own show ?thesis by (auto simp: completes_def endpoint_factor_def split: if_splits)
  next
    case (CompleteStore c' rec)
    with step own show ?thesis by (auto split: prod.splits)
  next
    case (OwnerAnswered resp)
    with step show ?thesis by simp
  qed
  then show "belongs c t'" "o_attempts ow' pid \<noteq> None \<Longrightarrow> o_attempts ow pid \<noteq> None \<or> starts pid c"
    "completes pid c \<Longrightarrow> redeems t' \<Longrightarrow> redeems t \<or> o_attempts ow pid \<noteq> None \<and> o_attempts ow' pid = None"
    by blast+
qed

text \<open>The invariant of the configurations: \<open>cs\<close> are the calls that the threads serve.\<close>

definition redeemed_at :: "owner_call list \<Rightarrow> string \<Rightarrow> owner_thread list \<Rightarrow> nat set" where
  "redeemed_at cs pid ts = {i. i < length cs \<and> completes pid (cs ! i) \<and> redeems (ts ! i)}"

definition once :: "owner_call list \<Rightarrow> string \<Rightarrow> (owner_thread, ('wa, 'user, 'sess) owner_state) config \<Rightarrow> bool" where
  "once cs pid cfg \<longleftrightarrow>
     list_all2 belongs cs (fst cfg) \<and>
     (\<forall>i \<in> redeemed_at cs pid (fst cfg). \<forall>j \<in> redeemed_at cs pid (fst cfg). i = j) \<and>
     (o_attempts (fst (snd cfg)) pid \<noteq> None \<longrightarrow> redeemed_at cs pid (fst cfg) = {})"

lemma once_turn:
  assumes "turn (owner_thread_step env) cfg cfg'" "once cs pid cfg" "\<forall>c \<in> set cs. \<not> starts pid c"
  shows "once cs pid cfg'"
  using assms(1,2)
proof (induction rule: turn.induct)
  case (turn i ts s t s')
  obtain ow db ow' db' where s: "s = (ow, db)" "s' = (ow', db')" by fastforce
  have own: "list_all2 belongs cs ts" and len: "length cs = length ts"
    using turn(3) by (auto simp: once_def dest: list_all2_lengthD)
  then have ci: "cs ! i \<in> set cs" "belongs (cs ! i) (ts ! i)"
    using turn(1) by (simp_all add: list_all2_conv_all_nth)
  note step = owner_thread_redeem [OF turn(2) [unfolded s] ci(2)]
  let ?old = "redeemed_at cs pid ts" and ?new = "redeemed_at cs pid (ts[i := t])"
  have new: "?new \<subseteq> ?old \<or> o_attempts ow pid \<noteq> None \<and> o_attempts ow' pid = None \<and> ?new \<subseteq> insert i ?old"
    using step(3) [of pid] turn(1) len by (auto simp: redeemed_at_def nth_list_update split: if_splits)
  have kept: "o_attempts ow pid \<noteq> None" if "o_attempts ow' pid \<noteq> None"
    using step(2) [of pid] that assms(3) ci(1) by blast
  have old: "\<forall>j \<in> ?old. \<forall>k \<in> ?old. j = k" "o_attempts ow pid \<noteq> None \<longrightarrow> ?old = {}"
    using turn(3) s by (simp_all add: once_def)
  from new have "(\<forall>j \<in> ?new. \<forall>k \<in> ?new. j = k) \<and> (o_attempts ow' pid \<noteq> None \<longrightarrow> ?new = {})"
  proof (elim disjE conjE)
    assume "?new \<subseteq> ?old"
    then show ?thesis using old kept by (metis subset_empty subsetD)
  next
    assume "o_attempts ow pid \<noteq> None" "o_attempts ow' pid = None" "?new \<subseteq> insert i ?old"
    moreover from this(1) old(2) have "?old = {}" by simp
    ultimately show ?thesis by auto
  qed
  moreover have "list_all2 belongs cs (ts[i := t])"
    using list_all2_update_cong [OF own step(1), of i] by (simp add: list_update_id)
  ultimately show ?case by (simp add: once_def s)
qed

lemma once_interleaved:
  assumes "interleaved (owner_thread_step env) cfg cfg'" "once cs pid cfg" "\<forall>c \<in> set cs. \<not> starts pid c"
  shows "once cs pid cfg'"
  using assms(1,2) by (induction rule: rtranclp_induct) (auto intro: once_turn [OF _ _ assms(3)])


section \<open>Properties\<close>

text \<open>
  C17. The lockout does not hold against requests sent at the same time: the limiter is asked before the
  evidence is checked and told of the failure after it, so any number of wrong codes, sent at once from
  one address, can all be checked, each answered 401 and none 429, and the right code among them is
  still accepted. Sequentially five wrong codes lock the account.
\<close>

theorem parallel_guesses_escape_lockout:
  assumes "answer env (NewOwner env cfg NewRateLimiter, db) start = (StatusOK, Started pid fs)"
    and "c_PasswordHash cfg \<noteq> []" "c_TOTPSecret cfg \<noteq> []" "now \<le> oc_now start + PairingTTL"
    and "\<forall>code \<in> set wrong. env_totp env code (c_TOTPSecret cfg) now totp_options \<noteq> Some True"
    and "snd (TOTPVerify (env_totp env) now (NewTOTPVerifier (c_TOTPSecret cfg)) right) = None"
  shows "\<exists>b s'. interleaved (owner_thread_step env)
     (map (\<lambda>code. OwnerArrived (totp_guess now remote pid code)) (wrong @ [right]),
      owner_run env (NewOwner env cfg NewRateLimiter, db) [Pair start])
     (map (\<lambda>_. OwnerAnswered InvalidCredentials) wrong @ [OwnerAnswered (StatusOK, b)], s')"
proof -
  obtain ow where r: "RegisterPairing env start (NewOwner env cfg NewRateLimiter) db = ((StatusOK, Started pid fs), ow, db)"
    "under_way cfg (oc_now start) pid {} ow" "o_heap ow = o_heap (NewOwner env cfg NewRateLimiter)"
    "o_limiter ow = NewRateLimiter"
    by (rule started_under_way [OF assms(1-3)])
  have "siege cfg (oc_now start) pid (clientIP remote) 0 ow"
    using r(2-4) assms(3)
    by (simp add: siege_def NewOwner_def NewTOTPVerifier_def NewRateLimiter_def few_failures_def)
  moreover have "\<exists>h'. owner_dispatch env now RefTOTP (o_heap ow) right = (h', None)"
    using r(3) assms(3,6) by (auto simp: NewOwner_def Let_def split: prod.split)
  ultimately show ?thesis using guesses_race [OF _ assms(4,5)] r(1) by auto
qed

theorem parallel_guesses_escape_lockout_witness:
  "\<exists>b s'. interleaved (owner_thread_step demo_env)
     (map (\<lambda>code. OwnerArrived (totp_guess 2 ''10.0.0.1:5000'' demo_id code))
        ([''000000'', ''000001'', ''000002'', ''000003'', ''000004'', ''000005''] @ [''123456'']),
      owner_run demo_env (NewOwner demo_env demo_cfg NewRateLimiter, emptyDB) [Pair demo_start])
     (map (\<lambda>_. OwnerAnswered InvalidCredentials) [''000000'', ''000001'', ''000002'', ''000003'', ''000004'', ''000005'']
        @ [OwnerAnswered (StatusOK, b)], s')"
  by (rule parallel_guesses_escape_lockout [OF demo_start_answer])
    (simp_all add: demo_cfg_def demo_world time_simps TOTPVerify_def NewTOTPVerifier_def)

text \<open>
  C15. However requests interleave, a pairing attempt is redeemed at most once: of any number of
  requests to complete the same attempt that run at the same time, at most one is answered with a
  device, as long as no new attempt is started under the same random id.
\<close>

theorem pairing_id_redeemed_once:
  assumes "interleaved (owner_thread_step env) (map OwnerArrived cs, s) (ts, s')"
    and "\<forall>c \<in> set cs. \<not> starts pid c"
  shows "card {i. i < length cs \<and> completes pid (cs ! i) \<and> (\<exists>st d. ts ! i = OwnerAnswered (st, PairedDevice d))} \<le> 1"
proof -
  have "once cs pid (map OwnerArrived cs, s)"
    by (auto simp: once_def redeemed_at_def list.rel_map intro!: list.rel_refl)
  from once_interleaved [OF assms(1) this assms(2)]
  have one: "\<forall>i \<in> redeemed_at cs pid ts. \<forall>j \<in> redeemed_at cs pid ts. i = j" by (simp add: once_def)
  let ?S = "{i. i < length cs \<and> completes pid (cs ! i) \<and> (\<exists>st d. ts ! i = OwnerAnswered (st, PairedDevice d))}"
  have "?S \<subseteq> redeemed_at cs pid ts" by (auto simp: redeemed_at_def)
  with one have "\<forall>i \<in> ?S. \<forall>j \<in> ?S. i = j" by blast
  moreover have "finite ?S" by simp
  ultimately show ?thesis by (metis (no_types, lifting) One_nat_def card_le_Suc0_iff_eq)
qed

definition demo_complete :: owner_call where
  "demo_complete = demo_call 5 ''/owner/pair/complete'' [(''pairing_id'', demo_id)]"

theorem pairing_id_redeemed_once_witness:
  "\<exists>r s'. interleaved (owner_thread_step demo_env)
       (map OwnerArrived [demo_complete, demo_complete], owner_run demo_env (NewOwner demo_env demo_cfg NewRateLimiter, emptyDB) demo_events)
       ([OwnerAnswered (StatusOK, PairedDevice demo_id), OwnerAnswered r], s') \<and>
     card {i. i < length [demo_complete, demo_complete] \<and> completes demo_id ([demo_complete, demo_complete] ! i) \<and>
       (\<exists>st d. [OwnerAnswered (StatusOK, PairedDevice demo_id), OwnerAnswered r] ! i = OwnerAnswered (st, PairedDevice d))} \<le> 1"
proof -
  let ?s = "owner_run demo_env (NewOwner demo_env demo_cfg NewRateLimiter, emptyDB) demo_events"
  have served: "alone (owner_thread_step demo_env) 3 (OwnerArrived c) s =
      (OwnerAnswered (answer demo_env s c), snd (RegisterPairing demo_env c (fst s) (snd s)))" for c s
    using owner_alone [of demo_env c "fst s" "snd s"] by (simp add: answer_def case_prod_beta)
  obtain s1 r s2 where
    "alone (owner_thread_step demo_env) 3 (OwnerArrived demo_complete) ?s = (OwnerAnswered (StatusOK, PairedDevice demo_id), s1)"
    "alone (owner_thread_step demo_env) 3 (OwnerArrived demo_complete) s1 = (OwnerAnswered r, s2)"
    using served demo_paired [folded demo_complete_def] by metis
  note first = this
  have run: "interleaved (owner_thread_step demo_env) (map OwnerArrived [demo_complete, demo_complete], ?s)
      ([OwnerAnswered (StatusOK, PairedDevice demo_id), OwnerAnswered r], s2)"
    by (rule then_alone [OF then_alone [OF rtranclp.rtrancl_refl first(1), where i = 0] first(2), where i = 1]) simp_all+
  have "\<forall>c \<in> set [demo_complete, demo_complete]. \<not> starts demo_id c"
    by (simp add: starts_def demo_complete_def demo_call_def)
  from pairing_id_redeemed_once [OF run this] run show ?thesis by blast
qed

end
