(* ===== verification/Go_Path.thy ===== *)
theory Go_Path
  imports Go_Codec
begin

text \<open>
  The lexical path functions of packages \<^verbatim>\<open>path\<close> and \<^verbatim>\<open>path/filepath\<close> on Unix, on strings as
  the code has them, and their meaning on lists of path components.
\<close>

abbreviation slash :: char where "slash \<equiv> CHR ''/''"


section \<open>Model\<close>

definition IsAbs :: "string \<Rightarrow> bool" where
  "IsAbs p = HasPrefix p ''/''"

text \<open>
  \<^verbatim>\<open>Clean\<close> keeps a stack of output elements (top first): empty and \<^verbatim>\<open>.\<close> elements are
  dropped, \<^verbatim>\<open>..\<close> pops an ordinary element, is dropped at the root and kept at the start of a
  relative path.
\<close>

fun clean_step :: "bool \<Rightarrow> string list \<Rightarrow> string \<Rightarrow> string list" where
  "clean_step rooted stack e =
     (if e = [] \<or> e = ''.'' then stack
      else if e = ''..'' then
        (case stack of
           [] \<Rightarrow> if rooted then [] else [''..'']
         | t # rest \<Rightarrow> if t = ''..'' then ''..'' # stack else rest)
      else e # stack)"

definition clean_elems :: "bool \<Rightarrow> string list \<Rightarrow> string list" where
  "clean_elems rooted es = rev (foldl (clean_step rooted) [] es)"

definition Clean :: "string \<Rightarrow> string" where
  "Clean p =
     (let rooted = IsAbs p;
          out = join_byte slash (clean_elems rooted (split_byte slash p))
      in if rooted then slash # out else if out = [] then ''.'' else out)"

text \<open>\<^verbatim>\<open>Join\<close> of two elements: nothing for two empty ones, else the cleaned concatenation.\<close>

definition Join :: "string \<Rightarrow> string \<Rightarrow> string" where
  "Join a b = (if a \<noteq> [] then Clean (a @ slash # b) else if b \<noteq> [] then Clean b else [])"

text \<open>\<^verbatim>\<open>Dir\<close>: all but the last element, cleaned. \<^verbatim>\<open>Base\<close>: the last element.\<close>

definition upto_last_slash :: "string \<Rightarrow> string" where
  "upto_last_slash p = rev (dropWhile (\<lambda>c. c \<noteq> slash) (rev p))"

definition after_last_slash :: "string \<Rightarrow> string" where
  "after_last_slash p = rev (takeWhile (\<lambda>c. c \<noteq> slash) (rev p))"

definition Dir :: "string \<Rightarrow> string" where
  "Dir p = Clean (upto_last_slash p)"

definition Base :: "string \<Rightarrow> string" where
  "Base p =
     (if p = [] then ''.''
      else let q = rev (dropWhile (\<lambda>c. c = slash) (rev p)); b = after_last_slash q
           in if b = [] then ''/'' else b)"


section \<open>Absolute paths as component lists\<close>

text \<open>An ordinary element: what a cleaned absolute path consists of.\<close>

definition plain_elem :: "string \<Rightarrow> bool" where
  "plain_elem e \<longleftrightarrow> e \<noteq> [] \<and> e \<noteq> ''.'' \<and> e \<noteq> ''..'' \<and> slash \<notin> set e"

definition abs_path :: "string list \<Rightarrow> string" where
  "abs_path cs = slash # join_byte slash cs"

definition clean_abs :: "string \<Rightarrow> bool" where
  "clean_abs p \<longleftrightarrow> (\<exists>cs. p = abs_path cs \<and> list_all plain_elem cs)"

lemma IsAbs_iff [simp]: "IsAbs p \<longleftrightarrow> (\<exists>q. p = slash # q)"
  by (cases p) (auto simp: IsAbs_def HasPrefix_def)

lemma IsAbs_abs_path [simp]: "IsAbs (abs_path cs)"
  by (simp add: abs_path_def)

lemma plain_elemD:
  "plain_elem e \<Longrightarrow> e \<noteq> []" "plain_elem e \<Longrightarrow> slash \<notin> set e"
  by (simp_all add: plain_elem_def)

lemma clean_step_plain [simp]: "plain_elem e \<Longrightarrow> clean_step rooted st e = e # st"
  by (simp add: plain_elem_def)

lemma clean_step_empty [simp]: "clean_step rooted st [] = st"
  by simp

declare clean_step.simps [simp del]

lemma foldl_clean_plain: "list_all plain_elem es \<Longrightarrow> foldl (clean_step rooted) st es = rev es @ st"
  by (induction es arbitrary: st) simp_all

lemma clean_elems_plain [simp]: "list_all plain_elem es \<Longrightarrow> clean_elems rooted es = es"
  by (simp add: clean_elems_def foldl_clean_plain)

lemma clean_elems_empty [simp]:
  "clean_elems rooted ([] # es) = clean_elems rooted es"
  "clean_elems rooted (es @ [[]]) = clean_elems rooted es"
  by (simp_all add: clean_elems_def)

lemma clean_step_rooted_plain:
  "list_all plain_elem st \<Longrightarrow> slash \<notin> set e \<Longrightarrow> list_all plain_elem (clean_step True st e)"
  by (auto simp: plain_elem_def clean_step.simps split: list.splits)

lemma foldl_clean_rooted:
  "list_all plain_elem st \<Longrightarrow> \<forall>e \<in> set es. slash \<notin> set e \<Longrightarrow>
     list_all plain_elem (foldl (clean_step True) st es)"
proof (induction es arbitrary: st)
  case Nil
  then show ?case by simp
next
  case (Cons e es)
  have "list_all plain_elem (clean_step True st e)"
    using Cons.prems by (intro clean_step_rooted_plain) simp_all
  with Cons show ?case by simp
qed

lemma Clean_IsAbs: "IsAbs p \<Longrightarrow> Clean p = abs_path (clean_elems True (split_byte slash p))"
  by (auto simp: Clean_def Let_def abs_path_def)

text \<open>Cleaning an absolute path leaves no empty, \<^verbatim>\<open>.\<close> or \<^verbatim>\<open>..\<close> element.\<close>

lemma Clean_abs:
  assumes "IsAbs p"
  shows "\<exists>cs. Clean p = abs_path cs \<and> list_all plain_elem cs"
proof -
  have "list_all plain_elem (clean_elems True (split_byte slash p))"
    unfolding clean_elems_def list_all_rev using split_byte_parts
    by (intro foldl_clean_rooted) auto
  with Clean_IsAbs [OF assms] show ?thesis by blast
qed

lemma clean_abs_Clean: "IsAbs p \<Longrightarrow> clean_abs (Clean p)"
  using Clean_abs by (auto simp: clean_abs_def)

lemma split_abs_path:
  assumes "list_all plain_elem cs"
  shows "split_byte slash (abs_path cs) = [] # (if cs = [] then [[]] else cs)"
proof (cases "cs = []")
  case True
  then show ?thesis by (simp add: abs_path_def)
next
  case False
  have "\<forall>c \<in> set cs. slash \<notin> set c"
    using assms by (auto simp: list_all_iff dest: plain_elemD)
  with False show ?thesis by (simp add: abs_path_def split_join)
qed

lemma Clean_abs_path [simp]: "list_all plain_elem cs \<Longrightarrow> Clean (abs_path cs) = abs_path cs"
  using clean_elems_empty(2) [of True "[]"]
  by (cases "cs = []") (simp_all add: Clean_IsAbs split_abs_path del: IsAbs_iff)

lemma Clean_clean_abs [simp]: "clean_abs p \<Longrightarrow> Clean p = p"
  by (auto simp: clean_abs_def)

lemma abs_path_inject:
  assumes "list_all plain_elem cs" "list_all plain_elem ds"
  shows "abs_path cs = abs_path ds \<longleftrightarrow> cs = ds"
proof
  assume "abs_path cs = abs_path ds"
  then have "split_byte slash (abs_path cs) = split_byte slash (abs_path ds)" by simp
  with assms show "cs = ds"
    by (auto simp: split_abs_path plain_elem_def split: if_splits)
qed simp

lemma join_byte_append:
  "cs \<noteq> [] \<Longrightarrow> ds \<noteq> [] \<Longrightarrow> join_byte sep (cs @ ds) = join_byte sep cs @ sep # join_byte sep ds"
proof (induction cs)
  case (Cons c cs)
  then show ?case by (cases "cs = []") (simp_all add: join_byte_Cons)
qed simp

text \<open>Joining one ordinary element to a clean absolute path goes one level down.\<close>

lemma Join_abs_path:
  assumes "list_all plain_elem cs" "plain_elem e"
  shows "Join (abs_path cs) e = abs_path (cs @ [e])"
proof -
  have e: "slash \<notin> set e" using assms(2) by (simp add: plain_elem_def)
  have cs: "\<forall>c \<in> set cs. slash \<notin> set c"
    using assms(1) by (auto simp: list_all_iff plain_elem_def)
  have sp: "split_byte slash (abs_path cs @ slash # e) = [] # (if cs = [] then [[]] else cs) @ [e]"
  proof (cases "cs = []")
    case True
    then show ?thesis using e by (simp add: abs_path_def)
  next
    case False
    have "abs_path cs @ slash # e = slash # join_byte slash (cs @ [e])"
      using False by (simp add: abs_path_def join_byte_append)
    moreover have "split_byte slash (join_byte slash (cs @ [e])) = cs @ [e]"
      using cs e by (intro split_join) auto
    ultimately show ?thesis using False by simp
  qed
  have abs: "IsAbs (abs_path cs @ slash # e)" by (simp add: abs_path_def)
  have "Join (abs_path cs) e = Clean (abs_path cs @ slash # e)"
    by (simp add: Join_def abs_path_def)
  also have "\<dots> = abs_path (cs @ [e])"
    unfolding Clean_IsAbs [OF abs] sp using assms by simp
  finally show ?thesis .
qed

lemma abs_path_snoc: "abs_path (cs @ [e]) = (if cs = [] then [slash] else abs_path cs @ [slash]) @ e"
  by (simp add: abs_path_def join_byte_append)

lemma dropWhile_rev_slash:
  "slash \<notin> set e \<Longrightarrow> dropWhile (\<lambda>c. c \<noteq> slash) (rev e @ slash # xs) = slash # xs"
  by (induction e rule: rev_induct) auto

lemma takeWhile_rev_slash:
  "slash \<notin> set e \<Longrightarrow> takeWhile (\<lambda>c. c \<noteq> slash) (rev e @ slash # xs) = rev e"
  by (induction e rule: rev_induct) auto

lemma Dir_abs_path:
  assumes "list_all plain_elem cs" "plain_elem e"
  shows "Dir (abs_path (cs @ [e])) = abs_path cs"
proof -
  have e: "slash \<notin> set e" using assms(2) by (simp add: plain_elem_def)
  have up: "upto_last_slash (abs_path (cs @ [e])) = (if cs = [] then [slash] else abs_path cs @ [slash])"
    using e by (simp add: upto_last_slash_def abs_path_snoc dropWhile_rev_slash)
  show ?thesis
  proof (cases "cs = []")
    case True
    then have "Dir (abs_path (cs @ [e])) = Clean (abs_path [])"
      unfolding Dir_def up by (simp add: abs_path_def)
    with True show ?thesis by simp
  next
    case False
    have cs: "\<forall>c \<in> set cs. slash \<notin> set c"
      using assms(1) by (auto simp: list_all_iff plain_elem_def)
    have "abs_path cs @ [slash] = slash # join_byte slash (cs @ [[]])"
      using False by (simp add: abs_path_def join_byte_append)
    moreover have "split_byte slash (join_byte slash (cs @ [[]])) = cs @ [[]]"
      using cs by (intro split_join) auto
    ultimately have "split_byte slash (abs_path cs @ [slash]) = [] # cs @ [[]]" by simp
    moreover have "IsAbs (abs_path cs @ [slash])" by (simp add: abs_path_def)
    ultimately show ?thesis
      using False assms(1) by (simp add: Dir_def up Clean_IsAbs del: IsAbs_iff)
  qed
qed

lemma Base_abs_path:
  assumes "plain_elem e"
  shows "Base (abs_path (cs @ [e])) = e"
proof -
  have e: "slash \<notin> set e" "e \<noteq> []" using assms by (simp_all add: plain_elem_def)
  then obtain f c where fc: "e = f @ [c]" "c \<noteq> slash" by (cases e rule: rev_cases) auto
  let ?p = "abs_path (cs @ [e])"
  have "rev (dropWhile (\<lambda>c. c = slash) (rev ?p)) = ?p"
    using fc by (simp add: abs_path_snoc)
  moreover have "after_last_slash ?p = e"
    using e by (simp add: after_last_slash_def abs_path_snoc takeWhile_rev_slash)
  ultimately show ?thesis using e by (simp add: Base_def Let_def abs_path_snoc)
qed

lemmas abs_path_simps = Join_abs_path Dir_abs_path Base_abs_path

lemma plain_elem_ident: "e \<noteq> [] \<Longrightarrow> ident_string e \<Longrightarrow> plain_elem e"
  using ident_string_no_slash [of e] ident_string_no_dot [of e] by (auto simp: plain_elem_def)


section \<open>Joining below an arbitrary directory\<close>

lemma split_byte_append_sep: "split_byte sep (a @ sep # b) = split_byte sep a @ split_byte sep b"
proof (induction a)
  case Nil
  then show ?case by simp
next
  case (Cons c a)
  obtain p ps where "split_byte sep a = p # ps" by (cases "split_byte sep a") simp_all
  with Cons show ?case by simp
qed

text \<open>Below a non-empty directory, an ordinary name is the last element of the joined path.\<close>

lemma Join_plain:
  assumes "dir \<noteq> []" and "plain_elem e"
  shows "Join dir e =
     (if IsAbs dir then [slash] else [])
     @ join_byte slash (clean_elems (IsAbs dir) (split_byte slash dir) @ [e])"
proof -
  have abs: "IsAbs (dir @ slash # e) = IsAbs dir" using assms(1) by (cases dir) auto
  have e: "slash \<notin> set e" "e \<noteq> []" using assms(2) by (simp_all add: plain_elem_def)
  have "clean_elems r (split_byte slash dir @ [e]) = clean_elems r (split_byte slash dir) @ [e]" for r
    using assms(2) by (simp add: clean_elems_def)
  moreover have "split_byte slash (dir @ slash # e) = split_byte slash dir @ [e]"
    using e by (simp add: split_byte_append_sep)
  moreover have "join_byte slash (xs @ [e]) \<noteq> []" for xs
    using e by (cases "xs = []") (simp_all add: join_byte_append)
  ultimately show ?thesis
    unfolding Join_def Clean_def Let_def abs using assms(1) by simp
qed

lemma Join_inject:
  assumes "dir \<noteq> []" "plain_elem e" "plain_elem f" "Join dir e = Join dir f"
  shows "e = f"
proof -
  have "join_byte slash (xs @ [e]) = join_byte slash (xs @ [f]) \<Longrightarrow> e = f" for xs
    by (cases "xs = []") (simp_all add: join_byte_append)
  then show ?thesis using assms by (simp add: Join_plain)
qed


section \<open>Joining several ordinary elements\<close>

lemma split_join_plain:
  "list_all plain_elem rs \<Longrightarrow> split_byte slash (join_byte slash rs) = (if rs = [] then [[]] else rs)"
  by (auto simp: list_all_iff plain_elem_def intro!: split_join)

lemma clean_elems_split_abs:
  assumes "list_all plain_elem cs" "list_all plain_elem rs"
  shows "clean_elems r (split_byte slash (abs_path cs) @ split_byte slash (join_byte slash rs)) = cs @ rs"
  using assms by (simp add: split_abs_path split_join_plain clean_elems_def foldl_clean_plain)

lemma Join_abs_join:
  assumes "list_all plain_elem cs" "list_all plain_elem rs"
  shows "Join (abs_path cs) (join_byte slash rs) = abs_path (cs @ rs)"
proof -
  have "IsAbs (abs_path cs @ slash # join_byte slash rs)" by (simp add: abs_path_def)
  moreover have "abs_path cs \<noteq> []" by (simp add: abs_path_def)
  ultimately show ?thesis
    using clean_elems_split_abs [OF assms] by (simp add: Join_def Clean_IsAbs split_byte_append_sep del: IsAbs_iff)
qed

lemma Join_elem_join:
  assumes "plain_elem e" "list_all plain_elem rs"
  shows "Join e (join_byte slash rs) = join_byte slash (e # rs)"
proof -
  have e: "e \<noteq> []" "slash \<notin> set e" using assms(1) by (simp_all add: plain_elem_def)
  then have "\<not> IsAbs (e @ slash # join_byte slash rs)" by (cases e) auto
  moreover have "clean_elems False (split_byte slash e @ split_byte slash (join_byte slash rs)) = e # rs"
    using assms e by (simp add: split_join_plain clean_elems_def foldl_clean_plain)
  moreover have "join_byte slash (e # rs) \<noteq> []" using e by (simp add: join_byte_Cons)
  ultimately show ?thesis
    using e by (simp add: Join_def Clean_def split_byte_append_sep Let_def del: IsAbs_iff)
qed

text \<open>The prefix test against a directory and a separator is the prefix test on components.\<close>

lemma HasPrefix_below:
  assumes "list_all plain_elem cs" "list_all plain_elem rs" "rs \<noteq> []"
  shows "HasPrefix (abs_path cs) (abs_path rs @ [slash]) \<longleftrightarrow> strict_prefix rs cs"
proof
  assume "HasPrefix (abs_path cs) (abs_path rs @ [slash])"
  then obtain t where "abs_path cs = abs_path rs @ slash # t" by (auto simp: HasPrefix_def prefix_def)
  then have "split_byte slash (abs_path cs) = split_byte slash (abs_path rs) @ split_byte slash t"
    by (simp add: split_byte_append_sep)
  then have "(if cs = [] then [[]] else cs) = rs @ split_byte slash t" using assms by (simp add: split_abs_path)
  moreover have "rs \<noteq> [[]]" using assms(2) by (auto simp: plain_elem_def)
  ultimately show "strict_prefix rs cs"
    using assms(3) by (auto simp: strict_prefix_def Cons_eq_append_conv split: if_splits)
next
  assume "strict_prefix rs cs"
  then obtain u where "cs = rs @ u" "u \<noteq> []" by (auto simp: strict_prefix_def prefix_def)
  then have "abs_path cs = abs_path rs @ slash # join_byte slash u"
    using assms(3) by (simp add: abs_path_def join_byte_append)
  then show "HasPrefix (abs_path cs) (abs_path rs @ [slash])" by (simp add: HasPrefix_def)
qed

end
