(* ===== verification/Locks.thy ===== *)
theory Locks
  imports Go_Path "HOL-Library.Char_ord" "HOL-Library.List_Lexorder"
begin

text \<open>
  The terminal locks of \<^verbatim>\<open>locks/locks.go\<close>: files below one directory whose presence keeps the
  idle updater away. The state is the list of paths of existing files; an operating-system fault
  of a call is an argument of the operation.
\<close>


section \<open>Model\<close>

definition DefaultDir :: string where "DefaultDir = ''/run/claudecode-locks''"
definition Prefix :: string where "Prefix = ''terminal-''"

record lock_manager =
  lm_dir :: string

type_synonym lock_fs = "string list"

datatype lock_error = MkdirFailed | AcquireFailed string | ReleaseFailed string | ListFailed

definition New :: "bool \<Rightarrow> string \<Rightarrow> lock_error + lock_manager" where
  "New fault dir =
     (let d = (if dir = [] then DefaultDir else dir)
      in if fault then Inl MkdirFailed else Inr \<lparr>lm_dir = d\<rparr>)"

definition sanitize :: "string \<Rightarrow> string" where
  "sanitize s = map (\<lambda>r. if ident_rune r then chr r else CHR ''_'') (runes s)"

definition Path :: "lock_manager \<Rightarrow> string \<Rightarrow> string" where
  "Path m sid = Join (lm_dir m) (Prefix @ sanitize sid)"

definition Acquire ::
    "lock_manager \<Rightarrow> bool \<Rightarrow> lock_fs \<Rightarrow> string \<Rightarrow> (lock_error + unit) \<times> lock_fs" where
  "Acquire m fault fs sid =
     (if fault then (Inl (AcquireFailed sid), fs)
      else (Inr (), List.insert (Path m sid) fs))"

definition Release ::
    "lock_manager \<Rightarrow> bool \<Rightarrow> lock_fs \<Rightarrow> string \<Rightarrow> (lock_error + unit) \<times> lock_fs" where
  "Release m fault fs sid =
     (if Path m sid \<notin> set fs then (Inr (), fs)
      else if fault then (Inl (ReleaseFailed sid), fs)
      else (Inr (), removeAll (Path m sid) fs))"

definition Held :: "lock_manager \<Rightarrow> lock_fs \<Rightarrow> string \<Rightarrow> bool" where
  "Held m fs sid \<longleftrightarrow> Path m sid \<in> set fs"

text \<open>\<^verbatim>\<open>os.ReadDir\<close> lists the names in a directory in order.\<close>

definition ReadDir :: "lock_fs \<Rightarrow> string \<Rightarrow> string list" where
  "ReadDir fs dir = sort (map Base (filter (\<lambda>p. Dir p = Clean dir) fs))"

definition ListLocks :: "lock_manager \<Rightarrow> bool \<Rightarrow> lock_fs \<Rightarrow> lock_error + string list" where
  "ListLocks m fault fs =
     (if fault then Inl ListFailed
      else Inr (map (\<lambda>name. TrimPrefix name Prefix)
                  (filter (\<lambda>name. HasPrefix name Prefix) (ReadDir fs (lm_dir m)))))"


section \<open>Sanitised names\<close>

lemma sanitize_ident: "ident_string (sanitize s)"
proof -
  have "ident_rune (byte (if ident_rune r then chr r else CHR ''_''))" for r
    using ident_rune_ascii [of r] by (auto simp: ident_rune_def)
  then show ?thesis unfolding ident_string_def sanitize_def set_map by blast
qed

lemma sanitize_id: "ident_string s \<Longrightarrow> sanitize s = s"
proof -
  assume s: "ident_string s"
  then have "runes s = map byte s" by (rule ident_string_runes)
  with s show ?thesis
    by (auto simp: sanitize_def ident_string_def comp_def intro!: map_idI)
qed

lemma Prefix_ident: "ident_string Prefix"
  by (simp add: ident_string_def Prefix_def ident_rune_def)

lemma lock_name_plain: "plain_elem (Prefix @ sanitize s)"
  using sanitize_ident [of s] Prefix_ident
  by (intro plain_elem_ident) (auto simp: Prefix_def ident_string_def)

lemma Path_inject:
  assumes "lm_dir m \<noteq> []" "Path m s = Path m t"
  shows "sanitize s = sanitize t"
  using Join_inject [OF assms(1) lock_name_plain lock_name_plain] assms(2)
  by (simp add: Path_def)

text \<open>
  A lock path never escapes the lock directory: whatever bytes the session id holds,
  including slashes, dots and malformed UTF-8, the lock file is a direct child of the directory
  whose name carries the prefix the updater spares.
\<close>

lemma lock_path_in_directory:
  assumes "clean_abs (lm_dir m)"
  shows "Dir (Path m sid) = lm_dir m \<and> prefix Prefix (Base (Path m sid))"
proof -
  obtain cs where cs: "lm_dir m = abs_path cs" "list_all plain_elem cs"
    using assms by (auto simp: clean_abs_def)
  then have "Path m sid = abs_path (cs @ [Prefix @ sanitize sid])"
    by (simp add: Path_def abs_path_simps lock_name_plain)
  with cs show ?thesis by (simp add: abs_path_simps lock_name_plain)
qed

lemma lock_path_in_directory_example:
  "Dir (Path \<lparr>lm_dir = ''/run/locks''\<rparr> ''../../etc/x'') = ''/run/locks''"
proof -
  have "''/run/locks'' = abs_path [''run'', ''locks'']" by (simp add: abs_path_def)
  moreover have "list_all plain_elem [''run'', ''locks'']" by (simp add: plain_elem_def)
  ultimately have "clean_abs (lm_dir \<lparr>lm_dir = ''/run/locks''\<rparr>)"
    unfolding clean_abs_def lock_manager.simps by blast
  from lock_path_in_directory [OF this, of "''../../etc/x''"] show ?thesis by simp
qed


section \<open>The lock service as an interface\<close>

text \<open>
  What the session manager relies on: a lock that was acquired is held, one that was released is
  not, a failed call changes nothing, and calls for one session leave the locks of the others
  alone. The last law is about \<open>good\<close> identifiers, those that sanitising does not merge.
\<close>

locale lock_service =
  fixes acquire :: "bool \<Rightarrow> 'fs \<Rightarrow> string \<Rightarrow> (lock_error + unit) \<times> 'fs"
    and release :: "bool \<Rightarrow> 'fs \<Rightarrow> string \<Rightarrow> (lock_error + unit) \<times> 'fs"
    and held :: "'fs \<Rightarrow> string \<Rightarrow> bool"
    and good :: "string \<Rightarrow> bool"
  assumes acquire_held: "acquire f fs s = (Inr u, fs') \<Longrightarrow> held fs' s"
    and acquire_error: "acquire f fs s = (Inl e, fs') \<Longrightarrow> fs' = fs"
    and acquire_other: "good s \<Longrightarrow> good t \<Longrightarrow> s \<noteq> t \<Longrightarrow> held (snd (acquire f fs s)) t = held fs t"
    and acquire_keeps: "held fs t \<Longrightarrow> held (snd (acquire f fs s)) t"
    and release_free: "release f fs s = (Inr u, fs') \<Longrightarrow> \<not> held fs' s"
    and release_error: "release f fs s = (Inl e, fs') \<Longrightarrow> fs' = fs"
    and release_other: "good s \<Longrightarrow> good t \<Longrightarrow> s \<noteq> t \<Longrightarrow> held (snd (release f fs s)) t = held fs t"
begin

lemma acquire_idempotent:
  "acquire f fs s = (Inr u, fs') \<Longrightarrow> held (snd (acquire f' fs' s)) s"
  by (blast intro: acquire_keeps acquire_held)

lemma acquire_release:
  assumes "acquire f fs s = (Inr u, fs1)" "release f' fs1 s = (Inr v, fs2)" "good s" "good t"
  shows "held fs2 t \<longleftrightarrow> t \<noteq> s \<and> held fs t"
proof (cases "t = s")
  case True
  then show ?thesis using release_free [OF assms(2)] by simp
next
  case False
  then show ?thesis
    using release_other [of s t f' fs1] acquire_other [of s t f fs] assms by auto
qed

end

interpretation term_lock: lock_service "Acquire m" "Release m" "Held m"
    "\<lambda>s. lm_dir m \<noteq> [] \<and> ident_string s" for m
proof (unfold_locales, goal_cases)
  case (3 s t f fs)
  then have "Path m s \<noteq> Path m t" using Path_inject sanitize_id by metis
  then show ?case by (auto simp: Acquire_def Held_def)
next
  case (7 s t f fs)
  then have "Path m s \<noteq> Path m t" using Path_inject sanitize_id by metis
  then show ?case by (auto simp: Release_def Held_def)
qed (auto simp: Acquire_def Release_def Held_def split: if_splits)

text \<open>
  Acquire and release of one session are exact on identifiers of the daemon's alphabet:
  after both, the session's lock is gone and every other session's lock is as it was.
\<close>

lemma acquire_then_release:
  assumes "lm_dir m \<noteq> []" "ident_string s" "ident_string t"
    and "Acquire m f fs s = (Inr u, fs1)" "Release m f' fs1 s = (Inr v, fs2)"
  shows "Held m fs2 t \<longleftrightarrow> t \<noteq> s \<and> Held m fs t"
  using term_lock.acquire_release assms by blast

lemma acquire_then_release_example:
  "Held \<lparr>lm_dir = ''/l''\<rparr>
     (snd (Release \<lparr>lm_dir = ''/l''\<rparr> False
        (snd (Acquire \<lparr>lm_dir = ''/l''\<rparr> False
           [Path \<lparr>lm_dir = ''/l''\<rparr> ''b''] ''a'')) ''a'')) ''b''"
proof -
  let ?m = "\<lparr>lm_dir = ''/l''\<rparr>" and ?fs = "[Path \<lparr>lm_dir = ''/l''\<rparr> ''b'']"
  have "fst (Acquire ?m False ?fs ''a'') = Inr ()"
    "fst (Release ?m False (snd (Acquire ?m False ?fs ''a'')) ''a'') = Inr ()"
    by (simp_all add: Acquire_def Release_def)
  moreover have "ident_string ''a''" "ident_string ''b''" "Held ?m ?fs ''b''"
    by (simp_all add: ident_string_def ident_rune_def Held_def)
  ultimately show ?thesis
    using acquire_then_release [of ?m "''a''" "''b''" False ?fs "()" _ False "()"]
    by (cases "Acquire ?m False ?fs ''a''") (auto simp: prod_eq_iff)
qed

text \<open>
  The listing is the set of held locks: in a directory of clean paths, a session id of the
  daemon's alphabet is listed exactly when its lock is held.
\<close>

lemma ListLocks_held:
  assumes "clean_abs (lm_dir m)" "\<forall>p \<in> set fs. clean_abs p" "ident_string sid"
    and "ListLocks m fault fs = Inr ids"
  shows "sid \<in> set ids \<longleftrightarrow> Held m fs sid"
proof -
  obtain cs where cs: "lm_dir m = abs_path cs" "list_all plain_elem cs"
    using assms(1) by (auto simp: clean_abs_def)
  have path: "Path m sid = abs_path (cs @ [Prefix @ sid])"
    using cs assms(3) lock_name_plain [of sid] by (simp add: Path_def abs_path_simps sanitize_id)
  have plain: "plain_elem (Prefix @ sid)"
    using lock_name_plain [of sid] assms(3) by (simp add: sanitize_id)
  have ids: "sid \<in> set ids \<longleftrightarrow> (\<exists>p \<in> set fs. Dir p = abs_path cs \<and> Base p = Prefix @ sid)"
  proof -
    have "ids = map (\<lambda>name. TrimPrefix name Prefix)
        (filter (\<lambda>name. HasPrefix name Prefix) (ReadDir fs (lm_dir m)))"
      using assms(4) by (simp add: ListLocks_def split: if_splits)
    then have "sid \<in> set ids \<longleftrightarrow> Prefix @ sid \<in> set (ReadDir fs (lm_dir m))"
      by (simp only: trimmed_names)
    then show ?thesis using cs by (auto simp: ReadDir_def image_iff)
  qed
  have "p = Path m sid" if p: "p \<in> set fs" "Dir p = abs_path cs" "Base p = Prefix @ sid" for p
  proof -
    obtain ds where ds: "p = abs_path ds" "list_all plain_elem ds"
      using assms(2) p(1) by (auto simp: clean_abs_def)
    show ?thesis
    proof (cases ds rule: rev_cases)
      case Nil
      then have "Base p = ''/''" using ds by (simp add: abs_path_def Base_def after_last_slash_def)
      with p(3) show ?thesis by (simp add: Prefix_def)
    next
      case (snoc es e)
      with ds have "Dir p = abs_path es" "Base p = e" by (simp_all add: abs_path_simps)
      with p cs ds snoc path show ?thesis by (simp add: abs_path_inject)
    qed
  qed
  moreover have "Dir (Path m sid) = abs_path cs" "Base (Path m sid) = Prefix @ sid"
    using path cs plain by (simp_all add: abs_path_simps)
  ultimately show ?thesis unfolding ids Held_def by metis
qed

lemma ListLocks_held_example:
  "Held \<lparr>lm_dir = ''/l''\<rparr> [''/l/terminal-ab'', ''/l/agent-1''] ''ab''"
proof -
  let ?m = "\<lparr>lm_dir = ''/l''\<rparr>" and ?fs = "[''/l/terminal-ab'', ''/l/agent-1'']"
  have c: "''/l'' = abs_path [''l'']" "''/l/terminal-ab'' = abs_path [''l'', ''terminal-ab'']"
    "''/l/agent-1'' = abs_path [''l'', ''agent-1'']"
    by (simp_all add: abs_path_def)
  have p: "list_all plain_elem [''l'', ''terminal-ab'']" "list_all plain_elem [''l'', ''agent-1'']"
    "list_all plain_elem [''l'']"
    by (simp_all add: plain_elem_def)
  have d: "Dir ''/l/terminal-ab'' = ''/l''" "Base ''/l/terminal-ab'' = ''terminal-ab''"
    "Dir ''/l/agent-1'' = ''/l''" "Base ''/l/agent-1'' = ''agent-1''" "Clean ''/l'' = ''/l''"
    by code_simp+
  have "ListLocks ?m False ?fs = Inr [''ab'']"
    unfolding ListLocks_def ReadDir_def by (simp add: d Prefix_def HasPrefix_def TrimPrefix_def)
  moreover have "clean_abs (lm_dir ?m)" "\<forall>q \<in> set ?fs. clean_abs q" "ident_string ''ab''"
    using c p unfolding clean_abs_def
    by (auto simp: ident_string_def ident_rune_def)
  ultimately show ?thesis using ListLocks_held [of ?m ?fs "''ab''" False "[''ab'']"] by simp
qed

end
