(* ===== verification/Terminal.thy ===== *)
theory Terminal
  imports Locks Database Go_Codec "HOL-Library.Word"
begin

text \<open>
  The terminal sessions: \<^verbatim>\<open>terminal/tmux.go\<close>, \<^verbatim>\<open>terminal/manager.go\<close> and
  \<^verbatim>\<open>terminal/http.go\<close>. A session is a row of the database, a tmux session and a lock file. The
  tmux program is a parameter, a function from the command line and the state \<open>'x\<close> of the tmux
  server to its output, whether it succeeded, and the new state.
\<close>


section \<open>tmux\<close>

type_synonym 'x exec = "string list \<Rightarrow> 'x \<Rightarrow> (string \<times> bool) \<times> 'x"

definition Term :: string where "Term = ''tmux-256color''"

record Tmux =
  t_Bin :: string

definition NewTmux :: Tmux where "NewTmux = \<lparr>t_Bin = ''tmux''\<rparr>"

definition tmux_bin :: "Tmux \<Rightarrow> string" where
  "tmux_bin t = (if t_Bin t = [] then ''tmux'' else t_Bin t)"

text \<open>\<^verbatim>\<open>run\<close>: the output, and \<open>True\<close> when the command failed.\<close>

definition tmux_run :: "'x exec \<Rightarrow> Tmux \<Rightarrow> string list \<Rightarrow> 'x \<Rightarrow> (string \<times> bool) \<times> 'x" where
  "tmux_run exec t args x = (let ((out, ok), x') = exec (tmux_bin t # args) x in ((out, \<not> ok), x'))"

definition SetGlobalWindowSize :: "'x exec \<Rightarrow> Tmux \<Rightarrow> 'x \<Rightarrow> bool \<times> 'x" where
  "SetGlobalWindowSize exec t x =
     (let ((_, err), x') = tmux_run exec t [''set-option'', ''-g'', ''window-size'', ''latest''] x in (err, x'))"

definition contains :: "string \<Rightarrow> string \<Rightarrow> bool" where
  "contains s sub = sublist sub s"

definition EnableTruecolor :: "'x exec \<Rightarrow> Tmux \<Rightarrow> 'x \<Rightarrow> bool \<times> 'x" where
  "EnableTruecolor exec t x =
     (let ((out, err), x1) = tmux_run exec t [''show-options'', ''-g'', ''terminal-features''] x
      in if \<not> err \<and> contains out ''RGB'' then (False, x1)
         else let ((_, err'), x2) = tmux_run exec t [''set-option'', ''-ags'', ''terminal-features'', '',*:RGB''] x1
              in (err', x2))"

definition HasSession :: "'x exec \<Rightarrow> Tmux \<Rightarrow> string \<Rightarrow> 'x \<Rightarrow> bool \<times> 'x" where
  "HasSession exec t name x = (let ((_, ok), x') = exec [tmux_bin t, ''has-session'', ''-t'', name] x in (ok, x'))"

definition new_session_args :: "string \<Rightarrow> string \<Rightarrow> string \<Rightarrow> string list" where
  "new_session_args name cwd shell =
     [''new-session'', ''-d'', ''-s'', name] @ (if cwd \<noteq> [] then [''-c'', cwd] else []) @
     (if shell \<noteq> [] then [shell] else [])"

definition NewSession :: "'x exec \<Rightarrow> Tmux \<Rightarrow> string \<Rightarrow> string \<Rightarrow> string \<Rightarrow> 'x \<Rightarrow> bool \<times> 'x" where
  "NewSession exec t name cwd shell x =
     (let ((_, err), x1) = tmux_run exec t (new_session_args name cwd shell) x
      in if err then (True, x1)
         else let ((_, err'), x2) = tmux_run exec t [''set-option'', ''-t'', name, ''window-size'', ''latest''] x1
              in if err' then (True, x2)
                 else (False, snd (EnableTruecolor exec t x2)))"

definition CapturePane :: "'x exec \<Rightarrow> Tmux \<Rightarrow> string \<Rightarrow> 'x \<Rightarrow> string option \<times> 'x" where
  "CapturePane exec t name x =
     (let ((out, ok), x') = exec [tmux_bin t, ''capture-pane'', ''-p'', ''-e'', ''-t'', name] x
      in (if ok then Some out else None, x'))"

definition KillSession :: "'x exec \<Rightarrow> Tmux \<Rightarrow> string \<Rightarrow> 'x \<Rightarrow> bool \<times> 'x" where
  "KillSession exec t name x =
     (let ((_, err), x') = tmux_run exec t [''kill-session'', ''-t'', name] x in (err, x'))"

text \<open>
  \<^verbatim>\<open>Attach\<close> starts a client in a pseudo terminal of the given size, 80 by 24 for a zero. The
  pseudo terminal is known by the operations performed on it.
\<close>

datatype pty_op = PtyWrite string | PtyResize "16 word" "16 word"

definition Attach ::
    "'x exec \<Rightarrow> Tmux \<Rightarrow> string \<Rightarrow> 16 word \<Rightarrow> 16 word \<Rightarrow> 'x \<Rightarrow> (16 word \<times> 16 word) option \<times> 'x" where
  "Attach exec t name cols rows x =
     (let c = (if cols = 0 then 80 else cols); r = (if rows = 0 then 24 else rows);
          ((_, ok), x') = exec [tmux_bin t, ''attach-session'', ''-t'', name] x
      in (if ok then Some (c, r) else None, x'))"

definition Resize :: "16 word \<Rightarrow> 16 word \<Rightarrow> pty_op list" where
  "Resize cols rows = (if cols = 0 \<or> rows = 0 then [] else [PtyResize cols rows])"


section \<open>The session manager\<close>

datatype term_error = TermNewID | TermTmux | TermDB db_error | TermLock lock_error

text \<open>What the manager is wired to, and the state it shares with them.\<close>

record 'x term_env =
  te_exec :: "'x exec"
  te_tmux :: Tmux
  te_locks :: lock_manager

record 'x term_state =
  ts_db :: DB
  ts_locks :: lock_fs
  ts_tmux :: 'x

definition NewManager :: "'x term_env \<Rightarrow> DB \<Rightarrow> lock_fs \<Rightarrow> 'x \<Rightarrow> 'x term_state" where
  "NewManager env db fs x =
     (let x1 = snd (SetGlobalWindowSize (te_exec env) (te_tmux env) x);
          x2 = snd (EnableTruecolor (te_exec env) (te_tmux env) x1)
      in \<lparr>ts_db = db, ts_locks = fs, ts_tmux = x2\<rparr>)"

text \<open>
  What one request draws from the environment: the Unix time, the random bytes of a new id, the
  failures of the database's reads, writes and of its list query, those of the lock directory,
  and the order in which the engine returns the list.
\<close>

record term_call =
  tc_unix :: int
  tc_rnd :: "string option"
  tc_read_fault :: bool
  tc_write_fault :: bool
  tc_list_fault :: bool
  tc_lock_fault :: bool
  tc_order :: "session_row list \<Rightarrow> session_row list"

definition NewID :: "string option \<Rightarrow> string option" where
  "NewID rnd = map_option hex_encode rnd"

definition tmux_name :: "string \<Rightarrow> string" where
  "tmux_name sid = ''ccr-'' @ sid"

definition ManagerCreate ::
    "'x term_env \<Rightarrow> term_call \<Rightarrow> 'x term_state \<Rightarrow> string \<Rightarrow> string \<Rightarrow> string \<Rightarrow>
     (term_error + Session) \<times> 'x term_state" where
  "ManagerCreate env c s name cwd shell =
     (case NewID (tc_rnd c) of
        None \<Rightarrow> (Inl TermNewID, s)
      | Some sid \<Rightarrow>
          (case NewSession (te_exec env) (te_tmux env) (tmux_name sid) cwd shell (ts_tmux s) of
             (True, x1) \<Rightarrow> (Inl TermTmux, s\<lparr>ts_tmux := x1\<rparr>)
           | (False, x1) \<Rightarrow>
               let row = \<lparr>s_ID = sid, s_Name = name, s_TmuxSession = tmux_name sid, s_Cwd = cwd,
                          s_Shell = shell, s_Status = [], s_CreatedAt = 0, s_LastActiveAt = 0\<rparr>
               in (case CreateSession (tc_write_fault c) (tc_unix c) (ts_db s) row of
                     (Inl e, db1) \<Rightarrow>
                       (Inl (TermDB e),
                        s\<lparr>ts_db := db1, ts_tmux := snd (KillSession (te_exec env) (te_tmux env) (tmux_name sid) x1)\<rparr>)
                   | (Inr _, db1) \<Rightarrow>
                       (case Acquire (te_locks env) (tc_lock_fault c) (ts_locks s) sid of
                          (Inl e, fs1) \<Rightarrow> (Inl (TermLock e), s\<lparr>ts_db := db1, ts_tmux := x1, ts_locks := fs1\<rparr>)
                        | (Inr _, fs1) \<Rightarrow>
                            (case GetSession (tc_read_fault c) db1 sid of
                               Inl e \<Rightarrow> (Inl (TermDB e), s\<lparr>ts_db := db1, ts_tmux := x1, ts_locks := fs1\<rparr>)
                             | Inr r \<Rightarrow> (Inr r, s\<lparr>ts_db := db1, ts_tmux := x1, ts_locks := fs1\<rparr>))))))"

definition ManagerList :: "term_call \<Rightarrow> 'x term_state \<Rightarrow> db_error + Session list" where
  "ManagerList c s = ListOpenSessions (tc_order c) (tc_list_fault c) (ts_db s)"

definition ManagerGet :: "term_call \<Rightarrow> 'x term_state \<Rightarrow> string \<Rightarrow> db_error + Session" where
  "ManagerGet c s sid = GetSession (tc_read_fault c) (ts_db s) sid"

definition ManagerRename ::
    "term_call \<Rightarrow> 'x term_state \<Rightarrow> string \<Rightarrow> string \<Rightarrow> (db_error + unit) \<times> 'x term_state" where
  "ManagerRename c s sid name =
     (let (r, db) = RenameSession (tc_write_fault c) (ts_db s) sid name in (r, s\<lparr>ts_db := db\<rparr>))"

definition ManagerClose ::
    "'x term_env \<Rightarrow> term_call \<Rightarrow> 'x term_state \<Rightarrow> string \<Rightarrow> term_error option \<times> 'x term_state" where
  "ManagerClose env c s sid =
     (case GetSession (tc_read_fault c) (ts_db s) sid of
        Inl e \<Rightarrow> (Some (TermDB e), s)
      | Inr row \<Rightarrow>
          (case CloseSession (tc_write_fault c) (tc_unix c) (ts_db s) sid of
             (Inl e, db1) \<Rightarrow> (Some (TermDB e), s\<lparr>ts_db := db1\<rparr>)
           | (Inr _, db1) \<Rightarrow>
               let (killErr, x1) = KillSession (te_exec env) (te_tmux env) (s_TmuxSession row) (ts_tmux s)
               in (case Release (te_locks env) (tc_lock_fault c) (ts_locks s) sid of
                     (Inl e, fs1) \<Rightarrow> (Some (TermLock e), s\<lparr>ts_db := db1, ts_tmux := x1, ts_locks := fs1\<rparr>)
                   | (Inr _, fs1) \<Rightarrow>
                       (if killErr then Some TermTmux else None,
                        s\<lparr>ts_db := db1, ts_tmux := x1, ts_locks := fs1\<rparr>))))"


section \<open>The stream\<close>

record clientMessage =
  cm_Type :: string
  cm_Data :: string
  cm_Cols :: "16 word"
  cm_Rows :: "16 word"

datatype serverMessage = Output string | Exit

text \<open>
  One message of the client: what it makes of the pseudo terminal, given whether the write fails.
  The \<^verbatim>\<open>break\<close> after a failed write leaves the \<^verbatim>\<open>switch\<close>, not the loop, so the next message is
  read as before.
\<close>

definition input_bytes :: "string \<Rightarrow> string" where
  "input_bytes data = (case StdDecode data of Some raw \<Rightarrow> raw | None \<Rightarrow> data)"

definition stream_message ::
    "int \<Rightarrow> bool \<Rightarrow> bool \<Rightarrow> string \<Rightarrow> clientMessage \<Rightarrow> DB \<Rightarrow> pty_op list \<times> DB" where
  "stream_message now write_fails touch_fault sid msg db =
     (if cm_Type msg = ''input''
      then if write_fails then ([], db)
           else ([PtyWrite (input_bytes (cm_Data msg))], snd (TouchSession touch_fault now db sid))
      else if cm_Type msg = ''resize''
      then (Resize (cm_Cols msg) (cm_Rows msg), snd (TouchSession touch_fault now db sid))
      else ([], db))"

text \<open>The loop over the messages read until \<^verbatim>\<open>ReadJSON\<close> fails, each with its own environment.\<close>

fun stream_loop ::
    "string \<Rightarrow> (int \<times> bool \<times> bool \<times> clientMessage) list \<Rightarrow> DB \<Rightarrow> pty_op list \<times> DB" where
  "stream_loop sid [] db = ([], db)"
| "stream_loop sid ((now, wfail, tfail, msg) # msgs) db =
     (let (ops, db1) = stream_message now wfail tfail sid msg db;
          (ops', db2) = stream_loop sid msgs db1
      in (ops @ ops', db2))"

text \<open>The pump from the pseudo terminal: one message per chunk read, then the exit message.\<close>

fun stream_pump :: "string list \<Rightarrow> serverMessage list" where
  "stream_pump [] = [Exit]"
| "stream_pump (chunk # chunks) =
     (if chunk \<noteq> [] then Output (StdEncode chunk) # stream_pump chunks else stream_pump chunks)"

text \<open>
  \<^verbatim>\<open>sameOriginOrNone\<close>: \<open>url_host\<close> is the host part that package net/url reads from an origin,
  \<open>None\<close> for one it cannot parse.
\<close>

definition sameOriginOrNone ::
    "(nat \<Rightarrow> nat) \<Rightarrow> (string \<Rightarrow> string option) \<Rightarrow> http_request \<Rightarrow> bool" where
  "sameOriginOrNone fld url_host r =
     (let origin = req_header r ''Origin''
      in if origin = [] then True
         else case url_host origin of None \<Rightarrow> False | Some h \<Rightarrow> EqualFold fld h (req_host r))"

text \<open>
  What a stream request meets: \<open>wc_handshake\<close> says whether the WebSocket library accepts the
  request's own headers, \<open>wc_messages\<close> what the client sends, \<open>wc_chunks\<close> what the pseudo terminal
  delivers, \<open>wc_sends\<close> after how many messages sending starts to fail, if it does.
\<close>

record ws_call =
  wc_fold :: "nat \<Rightarrow> nat"
  wc_url_host :: "string \<Rightarrow> string option"
  wc_handshake :: bool
  wc_messages :: "(int \<times> bool \<times> bool \<times> clientMessage) list"
  wc_chunks :: "string list"
  wc_sends :: "nat option"

definition sent :: "ws_call \<Rightarrow> serverMessage list \<Rightarrow> serverMessage list" where
  "sent w ms = (case wc_sends w of None \<Rightarrow> ms | Some k \<Rightarrow> take k ms)"

datatype term_body =
    TermMessage string
  | TermFailure term_error
  | TermSession Session
  | TermSessions "Session list"
  | TermNoBody
  | NotUpgraded
  | AttachFailed
  | Streamed "pty_op list" "serverMessage list"

type_synonym term_resp = "nat \<times> term_body"

abbreviation StatusSwitchingProtocols :: nat where "StatusSwitchingProtocols \<equiv> 101"

definition handleStream ::
    "'x term_env \<Rightarrow> term_call \<Rightarrow> ws_call \<Rightarrow> 'x term_state \<Rightarrow> http_request \<Rightarrow> string \<Rightarrow>
     term_resp \<times> 'x term_state" where
  "handleStream env c w s r sid =
     (case ManagerGet c s sid of
        Inl _ \<Rightarrow> ((StatusNotFound, TermMessage ''no such session''), s)
      | Inr row \<Rightarrow>
          if s_Status row \<noteq> ''open'' then ((StatusGone, TermMessage ''session is closed''), s)
          else if \<not> wc_handshake w then ((StatusBadRequest, NotUpgraded), s)
          else if \<not> sameOriginOrNone (wc_fold w) (wc_url_host w) r then ((StatusForbidden, NotUpgraded), s)
          else case Attach (te_exec env) (te_tmux env) (s_TmuxSession row) 80 24 (ts_tmux s) of
                 (None, x1) \<Rightarrow> ((StatusSwitchingProtocols, AttachFailed), s\<lparr>ts_tmux := x1\<rparr>)
               | (Some _, x1) \<Rightarrow>
                   let (snapshot, x2) = CapturePane (te_exec env) (te_tmux env) (s_TmuxSession row) x1;
                       first = (case snapshot of Some (b # bs) \<Rightarrow> [Output (StdEncode (b # bs))] | _ \<Rightarrow> []);
                       (ops, db1) = stream_loop sid (wc_messages w) (ts_db s)
                   in if first \<noteq> [] \<and> wc_sends w = Some 0
                      then ((StatusSwitchingProtocols, Streamed [] []), s\<lparr>ts_tmux := x2\<rparr>)
                      else ((StatusSwitchingProtocols, Streamed ops (sent w (first @ stream_pump (wc_chunks w)))),
                            s\<lparr>ts_db := db1, ts_tmux := x2\<rparr>))"


section \<open>The REST handlers\<close>

definition handleSessions ::
    "'x term_env \<Rightarrow> term_call \<Rightarrow> 'x term_state \<Rightarrow> http_request \<Rightarrow> term_resp \<times> 'x term_state" where
  "handleSessions env c s r =
     (if req_method r = MethodGet then
        (case ManagerList c s of
           Inl e \<Rightarrow> ((StatusInternalServerError, TermFailure (TermDB e)), s)
         | Inr ss \<Rightarrow> ((StatusOK, TermSessions ss), s))
      else if req_method r = MethodPost then
        (case req_json r of
           JsonError \<Rightarrow> ((StatusBadRequest, TermMessage ''invalid JSON body''), s)
         | body \<Rightarrow>
             let get = (case body of JsonObject b \<Rightarrow> b | _ \<Rightarrow> (\<lambda>_. []))
             in (case ManagerCreate env c s (get ''name'') (get ''cwd'') (get ''shell'') of
                   (Inl e, s') \<Rightarrow> ((StatusInternalServerError, TermFailure e), s')
                 | (Inr row, s') \<Rightarrow> ((StatusCreated, TermSession row), s')))
      else ((StatusMethodNotAllowed, TermMessage ''method not allowed''), s))"

definition splitSessionPath :: "string \<Rightarrow> (string \<times> string) option" where
  "splitSessionPath path =
     (let rest = TrimPrefix path ''/sessions/''
      in if rest = [] \<or> rest = path then None
         else case split2 slash rest of
                [sid] \<Rightarrow> if sid = [] then None else Some (sid, [])
              | sid # tail # _ \<Rightarrow> if sid = [] then None else Some (sid, tail)
              | [] \<Rightarrow> None)"

definition handleSession ::
    "'x term_env \<Rightarrow> term_call \<Rightarrow> ws_call \<Rightarrow> 'x term_state \<Rightarrow> http_request \<Rightarrow> term_resp \<times> 'x term_state"
  where
  "handleSession env c w s r =
     (case splitSessionPath (req_path r) of
        None \<Rightarrow> ((StatusNotFound, TermMessage ''not found''), s)
      | Some (sid, tail) \<Rightarrow>
          if tail = ''stream'' then handleStream env c w s r sid
          else if tail \<noteq> [] then ((StatusNotFound, TermMessage ''not found''), s)
          else if req_method r = MethodDelete then
            (case ManagerClose env c s sid of
               (None, s') \<Rightarrow> ((StatusNoContent, TermNoBody), s')
             | (Some (TermDB NoRows), s') \<Rightarrow> ((StatusNotFound, TermMessage ''no such open session''), s')
             | (Some e, s') \<Rightarrow> ((StatusInternalServerError, TermFailure e), s'))
          else if req_method r = MethodPatch then
            (case req_json r of
               JsonObject body \<Rightarrow>
                 (case ManagerRename c s sid (body ''name'') of
                    (Inl NoRows, s') \<Rightarrow> ((StatusNotFound, TermMessage ''no such session''), s')
                  | (Inl e, s') \<Rightarrow> ((StatusInternalServerError, TermFailure (TermDB e)), s')
                  | (Inr _, s') \<Rightarrow>
                      (case ManagerGet c s' sid of
                         Inl e \<Rightarrow> ((StatusInternalServerError, TermFailure (TermDB e)), s')
                       | Inr row \<Rightarrow> ((StatusOK, TermSession row), s')))
             | _ \<Rightarrow> ((StatusBadRequest, TermMessage ''invalid JSON body''), s))
          else if req_method r = MethodGet then
            (case ManagerGet c s sid of
               Inl _ \<Rightarrow> ((StatusNotFound, TermMessage ''no such session''), s)
             | Inr row \<Rightarrow> ((StatusOK, TermSession row), s))
          else ((StatusMethodNotAllowed, TermMessage ''method not allowed''), s))"

text \<open>\<^verbatim>\<open>Routes\<close>: the exact path and the subtree below it.\<close>

definition Routes ::
    "'x term_env \<Rightarrow> term_call \<Rightarrow> ws_call \<Rightarrow> 'x term_state \<Rightarrow> http_request \<Rightarrow> term_resp \<times> 'x term_state"
  where
  "Routes env c w s r =
     (if req_path r = ''/sessions'' then handleSessions env c s r
      else if HasPrefix (req_path r) ''/sessions/'' then handleSession env c w s r
      else ((StatusNotFound, TermMessage ''404 page not found''), s))"

end
