(* ===== verification/Terminal_Sessions.thy ===== *)
theory Terminal_Sessions
  imports Terminal
begin

text \<open>
  What the terminal component guarantees over sequences of requests: locks follow the open
  sessions, only an explicit DELETE ends a session, and the stream carries the bytes unchanged.
\<close>


section \<open>Runs of the terminal routes\<close>

type_synonym term_event = "term_call \<times> ws_call \<times> http_request"

definition term_step :: "'x term_env \<Rightarrow> 'x term_state \<Rightarrow> term_event \<Rightarrow> 'x term_state" where
  "term_step env s e = (case e of (c, w, r) \<Rightarrow> snd (Routes env c w s r))"

lemma open_in_effects [simp]:
  "open_in (snd (RenameSession f db sid name)) k = open_in db k"
  "open_in (snd (TouchSession f now db sid)) k = open_in db k"
  "open_in (snd (CloseSession f now db sid)) k \<longleftrightarrow> open_in db k \<and> (f \<or> k \<noteq> sid)"
  by (auto simp: open_in_def row_effects StatusOpen_def StatusClosed_def split: option.splits)

lemma open_in_Create:
  assumes "CreateSession f now db s = (Inr u, db')" "s_Status s = []"
  shows "open_in db' k \<longleftrightarrow> k = s_ID s \<or> open_in db k"
proof -
  obtain row where db': "db' = db\<lparr>sessions := sessions db @ [row]\<rparr>" and row: "sr_id row = s_ID s"
    "sr_status row = Some StatusOpen" and fresh: "\<forall>q \<in> set (sessions db). sr_id q \<noteq> s_ID s"
    using assms by (auto simp: CreateSession_def session_constraints_def Let_def split: if_splits)
  have "find (\<lambda>r. sr_id r = s_ID s) (sessions db) = None" using fresh by (simp add: find_None_iff)
  then show ?thesis
    using row by (auto simp: db' open_in_def session_at_def find_snoc split: option.splits)
qed

lemma CreateSession_error: "CreateSession f now db s = (Inl e, db') \<Longrightarrow> db' = db"
  by (auto simp: CreateSession_def Let_def split: if_splits)

lemma CloseSession_error: "CloseSession f now db sid = (Inl e, db') \<Longrightarrow> db' = db"
  by (auto simp: CloseSession_def sql_update_def requireOneRow_def Let_def filter_empty_conv split: if_splits
      intro!: map_idI DB.equality)

lemma CloseSession_ok: "CloseSession f now db sid = (Inr u, db') \<Longrightarrow> \<not> f \<and> (\<exists>r \<in> set (sessions db). sr_id r = sid)"
  by (auto simp: CloseSession_def sql_update_def requireOneRow_def Let_def filter_empty_conv split: if_splits)

text \<open>The ids of the table, which only a creation extends.\<close>

definition session_ids :: "DB \<Rightarrow> string list" where
  "session_ids db = map sr_id (sessions db)"

lemma session_ids_effects [simp]:
  "session_ids (snd (RenameSession f db sid name)) = session_ids db"
  "session_ids (snd (TouchSession f now db sid)) = session_ids db"
  "session_ids (snd (CloseSession f now db sid)) = session_ids db"
  by (simp_all add: session_ids_def)

lemma session_ids_Create:
  "CreateSession f now db s = (Inr u, db') \<Longrightarrow> session_ids db' = session_ids db @ [s_ID s]"
  by (auto simp: session_ids_def CreateSession_def Let_def split: if_splits)

lemma open_in_ids: "open_in db k \<Longrightarrow> k \<in> set (session_ids db)"
  by (auto simp: open_in_def session_at_def session_ids_def split: option.splits dest: find_key_Some)

lemma stream_message_frame [simp]:
  "open_in (snd (stream_message now wfail tfail sid msg db)) k = open_in db k"
  "session_ids (snd (stream_message now wfail tfail sid msg db)) = session_ids db"
  by (simp_all add: stream_message_def)

lemma stream_loop_db:
  "snd (stream_loop sid ((now, wfail, tfail, msg) # msgs) db) =
     snd (stream_loop sid msgs (snd (stream_message now wfail tfail sid msg db)))"
  by (simp add: Let_def split: prod.split)

lemma stream_loop_frame [simp]:
  "open_in (snd (stream_loop sid msgs db)) k = open_in db k"
  "session_ids (snd (stream_loop sid msgs db)) = session_ids db"
proof (induction msgs arbitrary: db)
  case (Cons m msgs)
  obtain now wfail tfail msg where m: "m = (now, wfail, tfail, msg)" by (metis prod_cases4)
  { case 1 then show ?case using Cons.IH(1) by (simp add: m stream_loop_db del: stream_loop.simps) }
  { case 2 then show ?case using Cons.IH(2) by (simp add: m stream_loop_db del: stream_loop.simps) }
qed simp_all

lemma handleStream_frame:
  "open_in (ts_db (snd (handleStream env c w s r sid))) k = open_in (ts_db s) k"
  "session_ids (ts_db (snd (handleStream env c w s r sid))) = session_ids (ts_db s)"
  "ts_locks (snd (handleStream env c w s r sid)) = ts_locks s"
proof -
  obtain ops db1 where loop: "stream_loop sid (wc_messages w) (ts_db s) = (ops, db1)" by fastforce
  have db1: "open_in db1 k = open_in (ts_db s) k" "session_ids db1 = session_ids (ts_db s)"
    using stream_loop_frame [of sid "wc_messages w" "ts_db s"] loop by simp_all
  show "open_in (ts_db (snd (handleStream env c w s r sid))) k = open_in (ts_db s) k"
    "session_ids (ts_db (snd (handleStream env c w s r sid))) = session_ids (ts_db s)"
    "ts_locks (snd (handleStream env c w s r sid)) = ts_locks s"
    by (simp_all add: handleStream_def loop db1 Let_def split: sum.split option.split prod.split)
qed

text \<open>
  One request, as seen by the database and the locks: nothing that matters to them, the creation of
  a session, or an explicit close.
\<close>

lemma Routes_cases:
  obtains (quiet) "ts_locks (snd (Routes env c w s r)) = ts_locks s"
      "\<forall>k. open_in (ts_db (snd (Routes env c w s r))) k = open_in (ts_db s) k"
      "session_ids (ts_db (snd (Routes env c w s r))) = session_ids (ts_db s)"
  | (create) name cwd shell where
      "snd (Routes env c w s r) = snd (ManagerCreate env c s name cwd shell)"
      "req_path r = ''/sessions''" "req_method r = MethodPost"
  | (close) sid where "snd (Routes env c w s r) = snd (ManagerClose env c s sid)"
      "splitSessionPath (req_path r) = Some (sid, [])" "req_method r = MethodDelete"
proof (cases "req_path r = ''/sessions''")
  case True
  then have route: "Routes env c w s r = handleSessions env c s r" by (simp add: Routes_def)
  show ?thesis
  proof (cases "req_method r = MethodPost \<and> req_json r \<noteq> JsonError")
    case post: True
    define get where "get = (case req_json r of JsonObject b \<Rightarrow> b | _ \<Rightarrow> (\<lambda>_. []))"
    have "snd (handleSessions env c s r) = snd (ManagerCreate env c s (get ''name'') (get ''cwd'') (get ''shell''))"
      using post by (auto simp: handleSessions_def get_def Let_def split: json_body.splits sum.splits prod.splits)
    with route True post show ?thesis by (intro create) simp_all
  next
    case False
    then have "snd (handleSessions env c s r) = s"
      by (auto simp: handleSessions_def Let_def split: json_body.splits sum.splits)
    with route show ?thesis by (intro quiet) simp_all
  qed
next
  case False
  show ?thesis
  proof (cases "HasPrefix (req_path r) ''/sessions/'' \<and> splitSessionPath (req_path r) \<noteq> None")
    case None: False
    then have "snd (Routes env c w s r) = s"
      using False by (cases "splitSessionPath (req_path r)") (simp_all add: Routes_def handleSession_def)
    then show ?thesis by (intro quiet) simp_all
  next
    case Some: True
    then obtain sid tail where split: "splitSessionPath (req_path r) = Some (sid, tail)" by auto
    have route: "Routes env c w s r = handleSession env c w s r" using False Some by (simp add: Routes_def)
    consider (stream) "tail = ''stream''" | (other) "tail \<noteq> ''stream''" "tail \<noteq> []"
      | (delete) "tail = []" "req_method r = MethodDelete" | (rest) "tail = []" "req_method r \<noteq> MethodDelete"
      by blast
    then show ?thesis
    proof cases
      case stream
      then have "handleSession env c w s r = handleStream env c w s r sid" using split by (simp add: handleSession_def)
      with route show ?thesis by (intro quiet) (simp_all add: handleStream_frame)
    next
      case other
      with route split show ?thesis by (intro quiet) (simp_all add: handleSession_def)
    next
      case delete
      have "snd (handleSession env c w s r) = snd (ManagerClose env c s sid)"
        using delete split by (auto simp: handleSession_def split: option.splits prod.splits term_error.splits db_error.splits)
      with route split delete show ?thesis by (intro close) simp_all
    next
      case rest
      have rn: "\<exists>name. s' = snd (ManagerRename c s sid name)" if "ManagerRename c s sid n = (res, s')" for n res s'
        using that by (metis snd_conv)
      have frame: "snd (ManagerRename c s sid name) = s\<lparr>ts_db := snd (RenameSession (tc_write_fault c) (ts_db s) sid name)\<rparr>"
        for name by (simp add: ManagerRename_def split: prod.split)
      have "snd (handleSession env c w s r) = s \<or>
          (\<exists>name. snd (handleSession env c w s r) = snd (ManagerRename c s sid name))"
        using rest split
        by (auto simp: handleSession_def split: json_body.splits prod.splits sum.splits db_error.splits dest: rn)
      then show ?thesis using route by (intro quiet) (auto simp: frame)
    qed
  qed
qed


section \<open>Locks follow sessions\<close>

text \<open>The effect of the two operations that touch the locks.\<close>

lemma ManagerCreate_cases:
  assumes "ManagerCreate env c s name cwd shell = (res, s')"
  obtains (failed) "ts_db s' = ts_db s" "ts_locks s' = ts_locks s" "\<exists>e. res = Inl e"
  | (created) rnd where "tc_rnd c = Some rnd" "\<And>k. open_in (ts_db s') k \<longleftrightarrow> k = hex_encode rnd \<or> open_in (ts_db s) k"
      "session_ids (ts_db s') = session_ids (ts_db s) @ [hex_encode rnd]"
      "hex_encode rnd \<notin> set (session_ids (ts_db s))"
      "ts_locks s' = snd (Acquire (te_locks env) (tc_lock_fault c) (ts_locks s) (hex_encode rnd))"
proof (cases "tc_rnd c")
  case None
  with assms show ?thesis by (intro failed) (auto simp: ManagerCreate_def NewID_def)
next
  case (Some rnd)
  let ?sid = "hex_encode rnd"
  let ?row = "\<lparr>s_ID = ?sid, s_Name = name, s_TmuxSession = tmux_name ?sid, s_Cwd = cwd,
              s_Shell = shell, s_Status = [], s_CreatedAt = 0, s_LastActiveAt = 0\<rparr>"
  obtain err x1 where tmux: "NewSession (te_exec env) (te_tmux env) (tmux_name ?sid) cwd shell (ts_tmux s) = (err, x1)"
    by fastforce
  obtain cr db1 where cr: "CreateSession (tc_write_fault c) (tc_unix c) (ts_db s) ?row = (cr, db1)" by fastforce
  show ?thesis
  proof (cases "err \<or> (\<exists>e. cr = Inl e)")
    case True
    have same: "db1 = ts_db s" if "cr = Inl e" for e using cr CreateSession_error that by simp
    from True assms Some tmux cr show ?thesis
      by (intro failed) (auto simp: ManagerCreate_def NewID_def Let_def same split: bool.splits)
  next
    case False
    then have ok: "CreateSession (tc_write_fault c) (tc_unix c) (ts_db s) ?row = (Inr (), db1)"
      using cr by (cases cr) auto
    have fresh: "?sid \<notin> set (session_ids (ts_db s))"
      using ok by (auto simp: CreateSession_def session_constraints_def session_ids_def Let_def split: if_splits)
    have "ts_db s' = db1 \<and> ts_locks s' = snd (Acquire (te_locks env) (tc_lock_fault c) (ts_locks s) ?sid)"
      using assms Some tmux False ok
      by (auto simp: ManagerCreate_def NewID_def Let_def split: prod.splits sum.splits)
    then show ?thesis
      using Some open_in_Create [OF ok] session_ids_Create [OF ok] fresh by (intro created [of rnd]) simp_all
  qed
qed

lemma ManagerClose_cases:
  assumes "ManagerClose env c s sid = (res, s')"
  obtains (failed) "ts_db s' = ts_db s" "ts_locks s' = ts_locks s" "\<exists>e. res = Some (TermDB e)"
  | (closed) "open_in (ts_db s) sid \<or> sid \<in> set (session_ids (ts_db s))"
      "\<And>k. open_in (ts_db s') k \<longleftrightarrow> open_in (ts_db s) k \<and> k \<noteq> sid"
      "session_ids (ts_db s') = session_ids (ts_db s)"
      "ts_locks s' = snd (Release (te_locks env) (tc_lock_fault c) (ts_locks s) sid)"
proof (cases "GetSession (tc_read_fault c) (ts_db s) sid")
  case (Inl e)
  with assms show ?thesis by (intro failed) (auto simp: ManagerClose_def)
next
  case (Inr row)
  obtain cr db1 where cr: "CloseSession (tc_write_fault c) (tc_unix c) (ts_db s) sid = (cr, db1)" by fastforce
  show ?thesis
  proof (cases cr)
    case (Inl e)
    with assms Inr cr CloseSession_error [of "tc_write_fault c" "tc_unix c" "ts_db s" sid e db1]
    show ?thesis by (intro failed) (auto simp: ManagerClose_def)
  next
    case (Inr u)
    note ok = CloseSession_ok [OF cr [unfolded Inr]]
    have db1: "db1 = snd (CloseSession (tc_write_fault c) (tc_unix c) (ts_db s) sid)" using cr by simp
    have "ts_db s' = db1 \<and> ts_locks s' = snd (Release (te_locks env) (tc_lock_fault c) (ts_locks s) sid)"
      using assms \<open>GetSession (tc_read_fault c) (ts_db s) sid = Inr row\<close> cr Inr
      by (auto simp: ManagerClose_def Let_def split: prod.splits sum.splits)
    then show ?thesis
      using ok db1 by (intro closed) (auto simp: session_ids_effects [unfolded session_ids_def] session_ids_def)
  qed
qed

text \<open>
  The lock directory mirrors the table: exactly the open sessions hold a lock, and all ids are of
  the alphabet that lock names keep apart.
\<close>

definition locks_match :: "'x term_env \<Rightarrow> 'x term_state \<Rightarrow> bool" where
  "locks_match env s \<longleftrightarrow>
     (\<forall>sid \<in> set (session_ids (ts_db s)). ident_string sid) \<and>
     (\<forall>sid. ident_string sid \<longrightarrow> Held (te_locks env) (ts_locks s) sid = open_in (ts_db s) sid)"

lemma locks_match_step:
  assumes inv: "locks_match env s" and dir: "lm_dir (te_locks env) \<noteq> []" and lock: "\<not> tc_lock_fault c"
  shows "locks_match env (snd (Routes env c w s r))"
proof (cases rule: Routes_cases [of env c w s r])
  case quiet
  with inv show ?thesis by (simp add: locks_match_def)
next
  case (create name cwd shell)
  obtain res s' where mc: "ManagerCreate env c s name cwd shell = (res, s')" by fastforce
  from mc have "locks_match env s'"
  proof (cases rule: ManagerCreate_cases)
    case failed
    with inv show ?thesis by (simp add: locks_match_def)
  next
    case (created rnd)
    let ?sid = "hex_encode rnd"
    obtain fs where acq: "Acquire (te_locks env) (tc_lock_fault c) (ts_locks s) ?sid = (Inr (), fs)"
      using lock by (simp add: Acquire_def)
    have "Held (te_locks env) fs k \<longleftrightarrow> k = ?sid \<or> Held (te_locks env) (ts_locks s) k" if "ident_string k" for k
      using term_lock.acquire_held [OF acq] term_lock.acquire_other [of "te_locks env" ?sid k "tc_lock_fault c" "ts_locks s"]
        acq that dir hex_encode_ident by auto
    with inv created acq hex_encode_ident show ?thesis by (auto simp: locks_match_def)
  qed
  with create mc show ?thesis by simp
next
  case (close sid)
  obtain res s' where mc: "ManagerClose env c s sid = (res, s')" by fastforce
  from mc have "locks_match env s'"
  proof (cases rule: ManagerClose_cases)
    case failed
    with inv show ?thesis by (simp add: locks_match_def)
  next
    case closed
    have sid: "ident_string sid" using closed(1) inv open_in_ids by (auto simp: locks_match_def)
    obtain fs where rel: "Release (te_locks env) (tc_lock_fault c) (ts_locks s) sid = (Inr (), fs)"
      using lock by (cases "Path (te_locks env) sid \<in> set (ts_locks s)") (simp_all add: Release_def)
    have "Held (te_locks env) fs k \<longleftrightarrow> k \<noteq> sid \<and> Held (te_locks env) (ts_locks s) k" if "ident_string k" for k
      using term_lock.release_free [OF rel] term_lock.release_other [of "te_locks env" sid k "tc_lock_fault c" "ts_locks s"]
        rel that dir sid by auto
    with inv closed rel show ?thesis by (auto simp: locks_match_def)
  qed
  with close mc show ?thesis by simp
qed

text \<open>
  The updater sees the truth: from an empty installation, whatever requests arrive and whatever
  tmux and the database do, as long as the lock directory itself works, a session holds its terminal
  lock exactly while it is open, and no other session does.
\<close>

lemma locks_follow_sessions:
  assumes "lm_dir (te_locks env) \<noteq> []" and "\<forall>(c, w, r) \<in> set es. \<not> tc_lock_fault c" and "ident_string sid"
  shows "Held (te_locks env) (ts_locks (run_steps (term_step env) (NewManager env emptyDB [] x) es)) sid \<longleftrightarrow>
     open_in (ts_db (run_steps (term_step env) (NewManager env emptyDB [] x) es)) sid"
proof -
  have "locks_match env (run_steps (term_step env) (NewManager env emptyDB [] x) es)"
  proof (rule run_steps_invariant)
    show "locks_match env (NewManager env emptyDB [] x)"
      by (simp add: locks_match_def NewManager_def Let_def emptyDB_def session_ids_def Held_def open_in_def session_at_def)
  next
    fix s e
    assume "locks_match env s" "e \<in> set es"
    then show "locks_match env (term_step env s e)"
      using locks_match_step [OF _ assms(1)] assms(2) by (auto simp: term_step_def)
  qed
  with assms(3) show ?thesis by (simp add: locks_match_def)
qed

text \<open>An installation for the witnesses: tmux always succeeds, the server's state is trivial.\<close>

definition demo_term :: "unit term_env" where
  "demo_term = \<lparr>te_exec = (\<lambda>args x. (([], True), x)), te_tmux = NewTmux, te_locks = \<lparr>lm_dir = ''/l''\<rparr>\<rparr>"

definition demo_term_call :: "bool \<Rightarrow> term_call" where
  "demo_term_call lock_fault = \<lparr>tc_unix = 1700000000, tc_rnd = Some ''01234567'', tc_read_fault = False,
     tc_write_fault = False, tc_list_fault = False, tc_lock_fault = lock_fault, tc_order = (\<lambda>rows. rows)\<rparr>"

definition demo_ws :: ws_call where
  "demo_ws = \<lparr>wc_fold = ascii_fold, wc_url_host = (\<lambda>_. None), wc_handshake = True, wc_messages = [], wc_chunks = [], wc_sends = None\<rparr>"

definition demo_request :: "string \<Rightarrow> string \<Rightarrow> http_request" where
  "demo_request meth path = \<lparr>req_method = meth, req_path = path, req_remote = [], req_host = [],
     req_header = (\<lambda>_. []), req_query = (\<lambda>_. []), req_json = JsonEOF, req_device = None\<rparr>"

definition demo_sid :: string where "demo_sid = ''3031323334353637''"

lemma demo_sid: "hex_encode ''01234567'' = demo_sid"
  by code_simp

lemma demo_sid_ident: "ident_string demo_sid"
  unfolding demo_sid [symmetric] by (rule hex_encode_ident)

lemma locks_follow_sessions_example:
  "Held (te_locks demo_term) (ts_locks (run_steps (term_step demo_term) (NewManager demo_term emptyDB [] ())
       [(demo_term_call False, demo_ws, demo_request ''POST'' ''/sessions'')])) demo_sid \<longleftrightarrow>
   open_in (ts_db (run_steps (term_step demo_term) (NewManager demo_term emptyDB [] ())
       [(demo_term_call False, demo_ws, demo_request ''POST'' ''/sessions'')])) demo_sid"
  by (rule locks_follow_sessions) (simp_all add: demo_sid_ident, simp_all add: demo_term_def demo_term_call_def)


section \<open>Only an explicit close ends a session\<close>

lemma split2_cases: "split2 sep s = (if sep \<in> set s
    then (let a = takeWhile (\<lambda>c. c \<noteq> sep) s in [a, drop (Suc (length a)) s]) else [s])"
  by (simp add: split2_def Let_def)

lemma split2_join:
  "sep \<in> set s \<Longrightarrow> takeWhile (\<lambda>c. c \<noteq> sep) s @ sep # drop (Suc (length (takeWhile (\<lambda>c. c \<noteq> sep) s))) s = s"
  by (induction s) auto

lemma split2_append: "sep \<notin> set a \<Longrightarrow> split2 sep (a @ sep # b) = [a, b]"
  by (simp add: split2_cases takeWhile_append Let_def)

lemma split2_none: "sep \<notin> set a \<Longrightarrow> split2 sep a = [a]"
  by (simp add: split2_cases)

text \<open>The paths that name a session, with and without a tail.\<close>

lemma splitSessionPath_iff:
  "splitSessionPath path = Some (sid, tail) \<longleftrightarrow>
     sid \<noteq> [] \<and> slash \<notin> set sid \<and>
     (path = ''/sessions/'' @ sid \<and> tail = [] \<or> path = ''/sessions/'' @ sid @ slash # tail)"
proof
  assume split: "splitSessionPath path = Some (sid, tail)"
  define rest where "rest = TrimPrefix path ''/sessions/''"
  have rest: "rest \<noteq> []" "rest \<noteq> path" using split by (auto simp: splitSessionPath_def rest_def Let_def split: if_splits)
  then have "HasPrefix path ''/sessions/''" by (auto simp: rest_def TrimPrefix_def split: if_splits)
  then have path: "path = ''/sessions/'' @ rest" by (auto simp: rest_def TrimPrefix_def HasPrefix_def prefix_def)
  show "sid \<noteq> [] \<and> slash \<notin> set sid \<and>
     (path = ''/sessions/'' @ sid \<and> tail = [] \<or> path = ''/sessions/'' @ sid @ slash # tail)"
  proof (cases "slash \<in> set rest")
    case True
    let ?a = "takeWhile (\<lambda>c. c \<noteq> slash) rest" and ?b = "drop (Suc (length (takeWhile (\<lambda>c. c \<noteq> slash) rest))) rest"
    have "sid = ?a" "tail = ?b" "sid \<noteq> []"
      using split rest True unfolding splitSessionPath_def rest_def [symmetric] by (auto simp: split2_cases Let_def split: if_splits)
    moreover have "slash \<notin> set ?a" by (auto dest: set_takeWhileD)
    ultimately show ?thesis using path split2_join [OF True] by metis
  next
    case False
    then have "sid = rest" "tail = []"
      using split rest unfolding splitSessionPath_def rest_def [symmetric] by (auto simp: split2_none Let_def split: if_splits)
    then show ?thesis using path rest False by simp
  qed
next
  define pre where "pre = ''/sessions/''"
  have pre: "pre \<noteq> []" by (simp add: pre_def)
  assume "sid \<noteq> [] \<and> slash \<notin> set sid \<and>
     (path = ''/sessions/'' @ sid \<and> tail = [] \<or> path = ''/sessions/'' @ sid @ slash # tail)"
  then show "splitSessionPath path = Some (sid, tail)"
    unfolding splitSessionPath_def pre_def [symmetric]
    by (auto simp: pre split2_none split2_append)
qed

text \<open>
  Nothing but an explicit close ends a session: if a session is open before a request to the
  terminal routes and not open after it, the request was a DELETE of that session's own path. A
  stream that ends, whatever its client sent, a failed creation, a rename or any request for
  another session leaves it open.
\<close>

lemma only_delete_closes:
  assumes "open_in (ts_db s) sid" and "\<not> open_in (ts_db (snd (Routes env c w s r))) sid"
  shows "req_method r = MethodDelete \<and> req_path r \<in> {''/sessions/'' @ sid, ''/sessions/'' @ sid @ ''/''}"
proof (cases rule: Routes_cases [of env c w s r])
  case quiet
  with assms show ?thesis by simp
next
  case (create name cwd shell)
  obtain res s' where mc: "ManagerCreate env c s name cwd shell = (res, s')" by fastforce
  from mc have "open_in (ts_db s') sid" by (cases rule: ManagerCreate_cases) (use assms(1) in simp_all)
  with create mc assms(2) show ?thesis by simp
next
  case (close k)
  obtain res s' where mc: "ManagerClose env c s k = (res, s')" by fastforce
  from mc have "k = sid" by (cases rule: ManagerClose_cases) (use assms close mc in auto)
  with close splitSessionPath_iff show ?thesis by auto
qed

lemma only_delete_closes_example:
  "req_method (demo_request ''DELETE'' (''/sessions/'' @ demo_sid)) = MethodDelete \<and>
   req_path (demo_request ''DELETE'' (''/sessions/'' @ demo_sid)) \<in> {''/sessions/'' @ demo_sid, ''/sessions/'' @ demo_sid @ ''/''}"
proof (rule only_delete_closes)
  let ?s = "\<lparr>ts_db = \<lparr>sessions = [\<lparr>sr_id = demo_sid, sr_name = None, sr_tmux = ''ccr-a'', sr_cwd = None,
        sr_shell = None, sr_status = Some ''open'', sr_created = None, sr_active = None\<rparr>],
      devices = []\<rparr>, ts_locks = [], ts_tmux = ()\<rparr>"
  show "open_in (ts_db ?s) demo_sid" by (simp add: open_in_def session_at_def StatusOpen_def)
  have split: "splitSessionPath (''/sessions/'' @ demo_sid) = Some (demo_sid, [])"
    unfolding splitSessionPath_iff by (simp add: demo_sid_def)
  have pre: "HasPrefix (''/sessions/'' @ demo_sid) ''/sessions/''" "''/sessions/'' @ demo_sid \<noteq> ''/sessions''"
    by (simp_all add: HasPrefix_def)
  show "\<not> open_in (ts_db (snd (Routes demo_term (demo_term_call False) demo_ws ?s
      (demo_request ''DELETE'' (''/sessions/'' @ demo_sid))))) demo_sid"
    using split pre
    by (simp add: Routes_def handleSession_def demo_request_def ManagerClose_def GetSession_def scan_session_def
        CloseSession_def sql_update_def requireOneRow_def KillSession_def tmux_run_def Release_def demo_term_def
        demo_term_call_def StatusOpen_def StatusClosed_def open_in_def session_at_def)
qed


section \<open>When the lock directory fails\<close>

text \<open>\<^verbatim>\<open>Close\<close> reaches the lock only when its update closed an open session.\<close>

lemma ManagerClose_closed:
  assumes "\<not> open_in (ts_db s) sid" "distinct (session_ids (ts_db s))"
  shows "ts_locks (snd (ManagerClose env c s sid)) = ts_locks s \<and>
         (\<exists>e. fst (ManagerClose env c s sid) = Some (TermDB e))"
proof (cases "GetSession (tc_read_fault c) (ts_db s) sid")
  case (Inl e)
  then show ?thesis by (simp add: ManagerClose_def)
next
  case (Inr row)
  have "sr_status r \<noteq> Some StatusOpen" if "r \<in> set (sessions (ts_db s))" "sr_id r = sid" for r
    using assms that find_key_distinct [of sr_id "sessions (ts_db s)" r]
    by (auto simp: open_in_def session_at_def session_ids_def)
  then have none: "filter (\<lambda>r. sr_id r = sid \<and> sr_status r = Some StatusOpen) (sessions (ts_db s)) = []"
    by (auto simp: filter_empty_conv)
  have "\<exists>e. fst (CloseSession (tc_write_fault c) (tc_unix c) (ts_db s) sid) = Inl e"
    by (simp add: CloseSession_def sql_update_def requireOneRow_def Let_def none)
  then obtain e db1 where "CloseSession (tc_write_fault c) (tc_unix c) (ts_db s) sid = (Inl e, db1)"
    by (metis prod.collapse)
  with Inr show ?thesis by (simp add: ManagerClose_def)
qed

lemma session_ids_distinct:
  assumes "distinct (session_ids (ts_db s))"
  shows "distinct (session_ids (ts_db (snd (Routes env c w s r))))"
proof (cases rule: Routes_cases [of env c w s r])
  case quiet
  with assms show ?thesis by simp
next
  case (create name cwd shell)
  obtain res s' where mc: "ManagerCreate env c s name cwd shell = (res, s')" by fastforce
  from mc have "distinct (session_ids (ts_db s'))" by (cases rule: ManagerCreate_cases) (use assms in simp_all)
  with create mc show ?thesis by simp
next
  case (close k)
  obtain res s' where mc: "ManagerClose env c s k = (res, s')" by fastforce
  from mc have "distinct (session_ids (ts_db s'))" by (cases rule: ManagerClose_cases) (use assms in simp_all)
  with close mc show ?thesis by simp
qed

text \<open>A closed session whose lock is still there.\<close>

definition stuck :: "'x term_env \<Rightarrow> string \<Rightarrow> 'x term_state \<Rightarrow> bool" where
  "stuck env sid s \<longleftrightarrow>
     distinct (session_ids (ts_db s)) \<and> (\<forall>k \<in> set (session_ids (ts_db s)). ident_string k) \<and>
     sid \<in> set (session_ids (ts_db s)) \<and> \<not> open_in (ts_db s) sid \<and> Held (te_locks env) (ts_locks s) sid"

lemma stuck_step:
  assumes st: "stuck env sid s" and dir: "lm_dir (te_locks env) \<noteq> []"
  shows "stuck env sid (snd (Routes env c w s r))"
proof -
  have ids: "distinct (session_ids (ts_db s))" "\<forall>k \<in> set (session_ids (ts_db s)). ident_string k"
    "sid \<in> set (session_ids (ts_db s))" "\<not> open_in (ts_db s) sid" "Held (te_locks env) (ts_locks s) sid"
    using st by (simp_all add: stuck_def)
  note d = session_ids_distinct [OF ids(1), of env c w r]
  show ?thesis
  proof (cases rule: Routes_cases [of env c w s r])
    case quiet
    with ids d show ?thesis by (simp add: stuck_def)
  next
    case (create name cwd shell)
    obtain res s' where mc: "ManagerCreate env c s name cwd shell = (res, s')" by fastforce
    from mc have "(\<forall>k \<in> set (session_ids (ts_db s')). ident_string k) \<and> sid \<in> set (session_ids (ts_db s')) \<and>
        \<not> open_in (ts_db s') sid \<and> Held (te_locks env) (ts_locks s') sid"
      by (cases rule: ManagerCreate_cases) (use ids hex_encode_ident term_lock.acquire_keeps in auto)
    with create mc d show ?thesis by (simp add: stuck_def)
  next
    case (close k)
    obtain res s' where mc: "ManagerClose env c s k = (res, s')" by fastforce
    from mc have "(\<forall>k \<in> set (session_ids (ts_db s')). ident_string k) \<and> sid \<in> set (session_ids (ts_db s')) \<and>
        \<not> open_in (ts_db s') sid \<and> Held (te_locks env) (ts_locks s') sid"
    proof (cases rule: ManagerClose_cases)
      case failed
      with ids show ?thesis by simp
    next
      case closed
      have k: "k \<in> set (session_ids (ts_db s))" using closed(1) open_in_ids by blast
      have "Held (te_locks env) (ts_locks s') sid"
      proof (cases "k = sid")
        case True
        then show ?thesis using ManagerClose_closed [OF ids(4,1), of env c] mc ids(5) by simp
      next
        case False
        then show ?thesis
          using term_lock.release_other [of "te_locks env" k sid "tc_lock_fault c" "ts_locks s"] closed(4) ids k dir by auto
      qed
      with closed ids show ?thesis by auto
    qed
    with close mc d show ?thesis by (simp add: stuck_def)
  qed
qed

text \<open>
  A lock whose release failed once stays for good: if the lock directory fails while an open
  session is being deleted, the session is closed all the same, its lock is left behind, and no
  sequence of later requests, with the directory working again, ever removes it; repeating the
  DELETE is refused because the session is no longer open. The updater is held off forever.
\<close>

lemma failed_release_is_final:
  assumes "locks_match env s" and "distinct (session_ids (ts_db s))" and "lm_dir (te_locks env) \<noteq> []"
    and "ManagerClose env c s sid = (Some (TermLock e), s1)"
  shows "\<not> open_in (ts_db (run_steps (term_step env) s1 es)) sid \<and>
     Held (te_locks env) (ts_locks (run_steps (term_step env) s1 es)) sid \<and>
     fst (ManagerClose env c' (run_steps (term_step env) s1 es) sid) \<noteq> None"
proof -
  from assms(4) have "stuck env sid s1"
  proof (cases rule: ManagerClose_cases)
    case failed
    then show ?thesis by simp
  next
    case closed
    have sid: "sid \<in> set (session_ids (ts_db s))" using closed(1) open_in_ids by blast
    have "open_in (ts_db s) sid" using ManagerClose_closed [OF _ assms(2), of sid env c] assms(4) by fastforce
    then have held: "Held (te_locks env) (ts_locks s) sid" using assms(1) sid by (simp add: locks_match_def)
    obtain e' where "Release (te_locks env) (tc_lock_fault c) (ts_locks s) sid = (Inl e', ts_locks s)"
      using assms(4) term_lock.release_error
      by (auto simp: ManagerClose_def Let_def split: sum.splits prod.splits if_splits)
    with closed sid held assms(1,2) show ?thesis by (simp add: stuck_def locks_match_def)
  qed
  then have "stuck env sid (run_steps (term_step env) s1 es)"
    by (rule run_steps_invariant) (use stuck_step assms(3) in \<open>auto simp: term_step_def split: prod.split\<close>)
  then show ?thesis
    using ManagerClose_closed [of "run_steps (term_step env) s1 es" sid env c'] by (auto simp: stuck_def)
qed

definition demo_open :: "unit term_state" where
  "demo_open = \<lparr>ts_db = \<lparr>sessions = [\<lparr>sr_id = demo_sid, sr_name = None, sr_tmux = ''ccr-a'', sr_cwd = None,
        sr_shell = None, sr_status = Some ''open'', sr_created = None, sr_active = None\<rparr>], devices = []\<rparr>,
      ts_locks = [Path \<lparr>lm_dir = ''/l''\<rparr> demo_sid], ts_tmux = ()\<rparr>"

lemma demo_open_match: "locks_match demo_term demo_open"
proof -
  have "Path \<lparr>lm_dir = ''/l''\<rparr> k = Path \<lparr>lm_dir = ''/l''\<rparr> demo_sid \<longleftrightarrow> k = demo_sid" if "ident_string k" for k
    using Path_inject [of "\<lparr>lm_dir = ''/l''\<rparr>" k demo_sid] sanitize_id that demo_sid_ident by auto
  then show ?thesis
    using demo_sid_ident
    by (auto simp: locks_match_def demo_open_def demo_term_def Held_def open_in_def session_at_def session_ids_def
        StatusOpen_def)
qed

lemma failed_release_is_final_example:
  "\<exists>s1. Held (te_locks demo_term) (ts_locks (run_steps (term_step demo_term) s1
     [(demo_term_call False, demo_ws, demo_request ''DELETE'' (''/sessions/'' @ demo_sid))])) demo_sid"
proof -
  obtain s1 where "ManagerClose demo_term (demo_term_call True) demo_open demo_sid =
      (Some (TermLock (ReleaseFailed demo_sid)), s1)"
    by (simp add: ManagerClose_def demo_open_def demo_term_def demo_term_call_def GetSession_def scan_session_def
        CloseSession_def sql_update_def requireOneRow_def KillSession_def tmux_run_def Release_def StatusOpen_def)
  moreover have "distinct (session_ids (ts_db demo_open))" "lm_dir (te_locks demo_term) \<noteq> []"
    by (simp_all add: demo_open_def demo_term_def session_ids_def)
  ultimately show ?thesis using failed_release_is_final [OF demo_open_match] by blast
qed


section \<open>The stream\<close>

text \<open>The bytes a client reads back from the messages it receives.\<close>

fun received :: "serverMessage list \<Rightarrow> string option" where
  "received [] = Some []"
| "received (Exit # ms) = Some []"
| "received (Output d # ms) =
     (case StdDecode d of None \<Rightarrow> None
      | Some b \<Rightarrow> (case received ms of None \<Rightarrow> None | Some bs \<Rightarrow> Some (b @ bs)))"

definition input_message :: "string \<Rightarrow> clientMessage" where
  "input_message bytes = \<lparr>cm_Type = ''input'', cm_Data = StdEncode bytes, cm_Cols = 0, cm_Rows = 0\<rparr>"

lemma stream_pump_received: "received (stream_pump chunks) = Some (concat chunks)"
  by (induction chunks) simp_all

lemma stream_inputs: "fst (stream_loop sid (map (\<lambda>b. (now, False, tf, input_message b)) inputs) db) = map PtyWrite inputs"
proof (induction inputs arbitrary: db)
  case (Cons b inputs)
  have "stream_message now False tf sid (input_message b) db = ([PtyWrite b], snd (TouchSession tf now db sid))"
    by (simp add: stream_message_def input_message_def input_bytes_def)
  with Cons.IH [of "snd (TouchSession tf now db sid)"] show ?case by (simp add: Let_def case_prod_beta)
qed simp

text \<open>
  C33. The stream is transparent in both directions: what the pseudo terminal delivers, in chunks of
  any size and any bytes, is exactly what a client decodes from the messages, and encoded input
  reaches the pseudo terminal byte for byte and in order.
\<close>

theorem stream_transparent:
  "received (stream_pump chunks) = Some (concat chunks) \<and>
   fst (stream_loop sid (map (\<lambda>b. (now, False, tf, input_message b)) inputs) db) = map PtyWrite inputs"
  by (simp add: stream_pump_received stream_inputs)

text \<open>
  Plain text is not always taken as it is: the input message of an older client that sends its
  keystrokes unencoded is decoded all the same when the text happens to be valid base64, so the four
  letters of a command such as exit reach the terminal as three other bytes.
\<close>

lemma plain_input_misread:
  "fst (stream_message now False tf sid \<lparr>cm_Type = ''input'', cm_Data = ''exit'', cm_Cols = 0, cm_Rows = 0\<rparr> db)
   = [PtyWrite [CHR 0x7B, CHR 0x18, CHR 0xAD]]"
proof -
  have "StdDecode ''exit'' = Some [CHR 0x7B, CHR 0x18, CHR 0xAD]" by code_simp
  then show ?thesis by (simp add: stream_message_def input_bytes_def)
qed


section \<open>Creation under failures\<close>

text \<open>
  A failed creation can leave an open session without a lock: when the lock directory fails, the
  request is answered 500, but the tmux session and the open row stay, and the session is listed
  while the updater sees no lock for it.
\<close>

lemma failed_acquire_leaves_open_session:
  assumes "tc_rnd c = Some rnd" "\<not> fst (NewSession (te_exec env) (te_tmux env) (tmux_name (hex_encode rnd)) cwd shell (ts_tmux s))"
    and "\<not> tc_write_fault c" "hex_encode rnd \<notin> set (session_ids (ts_db s))" "tc_lock_fault c"
  shows "\<exists>e s'. ManagerCreate env c s name cwd shell = (Inl (TermLock e), s') \<and>
     open_in (ts_db s') (hex_encode rnd) \<and> ts_locks s' = ts_locks s"
proof -
  let ?sid = "hex_encode rnd"
  let ?row = "\<lparr>s_ID = ?sid, s_Name = name, s_TmuxSession = tmux_name ?sid, s_Cwd = cwd,
              s_Shell = shell, s_Status = [], s_CreatedAt = 0, s_LastActiveAt = 0\<rparr>"
  obtain x1 where tmux: "NewSession (te_exec env) (te_tmux env) (tmux_name ?sid) cwd shell (ts_tmux s) = (False, x1)"
    using assms(2) by (metis prod.collapse)
  have "\<exists>db1. CreateSession (tc_write_fault c) (tc_unix c) (ts_db s) ?row = (Inr (), db1)"
    using assms(3,4) by (force simp: CreateSession_def session_constraints_def session_ids_def StatusOpen_def Let_def)
  then obtain db1 where db1: "CreateSession (tc_write_fault c) (tc_unix c) (ts_db s) ?row = (Inr (), db1)" by blast
  have "open_in db1 ?sid" using open_in_Create [OF db1] by simp
  with assms(1,5) tmux db1 show ?thesis by (auto simp: ManagerCreate_def NewID_def Acquire_def Let_def)
qed

lemma failed_acquire_leaves_open_session_example:
  "\<exists>e s'. ManagerCreate demo_term (demo_term_call True) (NewManager demo_term emptyDB [] ()) [] [] [] = (Inl (TermLock e), s') \<and>
     open_in (ts_db s') demo_sid \<and> ts_locks s' = []"
  using failed_acquire_leaves_open_session [of "demo_term_call True" "''01234567''" demo_term "[]" "[]"
      "NewManager demo_term emptyDB [] ()" "[]"] unfolding demo_sid
  by (simp add: demo_term_call_def demo_term_def NewManager_def NewSession_def tmux_run_def emptyDB_def session_ids_def
      SetGlobalWindowSize_def EnableTruecolor_def Let_def)


section \<open>What a ticket alone can reach\<close>

text \<open>
  A path with the suffix \<^verbatim>\<open>/stream\<close> names the stream of a session, nothing, or a session whose id
  is the word \<^verbatim>\<open>stream\<close>.
\<close>

lemma stream_suffix_split:
  assumes "HasSuffix path ''/stream''" "splitSessionPath path = Some (sid, tail)"
  shows "tail = ''stream'' \<or> (tail \<noteq> [] \<and> tail \<noteq> ''stream'') \<or> sid = ''stream''"
proof (cases "tail = []")
  case True
  then have "path = ''/sessions/'' @ sid \<or> path = ''/sessions/'' @ sid @ ''/''" and no: "slash \<notin> set sid"
    using assms(2) by (auto simp: splitSessionPath_iff)
  then have path: "path = ''/sessions'' @ slash # sid" using assms(1)
    by (auto simp: HasSuffix_def suffix_def dest!: arg_cong [of _ _ last])
  obtain p where p: "path = p @ slash # ''stream''" using assms(1) by (auto simp: HasSuffix_def suffix_def)
  have "takeWhile (\<lambda>c. c \<noteq> slash) (rev path) = rev sid" using path no by (simp add: takeWhile_append)
  moreover have "takeWhile (\<lambda>c. c \<noteq> slash) (rev path) = rev ''stream''" using p by simp
  ultimately have "rev sid = rev ''stream''" by (simp only:)
  then have "sid = ''stream''" by (simp only: rev_is_rev_conv)
  then show ?thesis by simp
qed auto

end
