(* ===== verification/Terminal_Race.thy ===== *)
theory Terminal_Race
  imports Terminal_Sessions Interleaving
begin

text \<open>
  Terminal requests that run at the same time. The session manager holds no lock of its own:
  \<^verbatim>\<open>Create\<close> and \<^verbatim>\<open>Close\<close> of \<^verbatim>\<open>terminal/manager.go\<close> go through the database, tmux and the lock directory
  one after the other, and other requests may run in between. Here each such call is one step.
\<close>


section \<open>A request as a thread\<close>

text \<open>
  Where a request is: not yet started, in the middle of a creation or of a close, with what its
  goroutine holds in local variables, or answered.
\<close>

datatype term_thread =
    Arrived term_call ws_call http_request
  | CreateRow term_call Session
  | CreateUndo Session db_error
  | CreateLock term_call string
  | CreateRead term_call string
  | CloseRow term_call string Session
  | CloseKill term_call string string
  | CloseRelease term_call string bool
  | Answered term_resp

definition create_reply :: "term_error + Session \<Rightarrow> term_resp" where
  "create_reply res =
     (case res of
        Inl e \<Rightarrow> (StatusInternalServerError, TermFailure e)
      | Inr row \<Rightarrow> (StatusCreated, TermSession row))"

definition close_reply :: "term_error option \<Rightarrow> term_resp" where
  "close_reply res =
     (case res of
        None \<Rightarrow> (StatusNoContent, TermNoBody)
      | Some (TermDB NoRows) \<Rightarrow> (StatusNotFound, TermMessage ''no such open session'')
      | Some e \<Rightarrow> (StatusInternalServerError, TermFailure e))"

text \<open>\<^verbatim>\<open>Create\<close> up to the tmux session, and \<^verbatim>\<open>Close\<close> up to the row it reads.\<close>

definition start_create ::
    "'x term_env \<Rightarrow> term_call \<Rightarrow> 'x term_state \<Rightarrow> string \<Rightarrow> string \<Rightarrow> string \<Rightarrow> term_thread \<times> 'x term_state" where
  "start_create env c s name cwd shell =
     (case NewID (tc_rnd c) of
        None \<Rightarrow> (Answered (create_reply (Inl TermNewID)), s)
      | Some sid \<Rightarrow>
          (case NewSession (te_exec env) (te_tmux env) (tmux_name sid) cwd shell (ts_tmux s) of
             (True, x1) \<Rightarrow> (Answered (create_reply (Inl TermTmux)), s\<lparr>ts_tmux := x1\<rparr>)
           | (False, x1) \<Rightarrow>
               (CreateRow c \<lparr>s_ID = sid, s_Name = name, s_TmuxSession = tmux_name sid, s_Cwd = cwd,
                  s_Shell = shell, s_Status = [], s_CreatedAt = 0, s_LastActiveAt = 0\<rparr>, s\<lparr>ts_tmux := x1\<rparr>)))"

definition start_close :: "term_call \<Rightarrow> 'x term_state \<Rightarrow> string \<Rightarrow> term_thread \<times> 'x term_state" where
  "start_close c s sid =
     (case GetSession (tc_read_fault c) (ts_db s) sid of
        Inl e \<Rightarrow> (Answered (close_reply (Some (TermDB e))), s)
      | Inr row \<Rightarrow> (CloseRow c sid row, s))"

text \<open>
  The handlers dispatch as before. A request that neither creates nor closes a session is one step:
  it touches no lock and opens or closes no session.
\<close>

definition closing :: "http_request \<Rightarrow> string option" where
  "closing r =
     (if req_method r \<noteq> MethodDelete then None
      else case splitSessionPath (req_path r) of Some (sid, []) \<Rightarrow> Some sid | _ \<Rightarrow> None)"

definition arrive ::
    "'x term_env \<Rightarrow> term_call \<Rightarrow> ws_call \<Rightarrow> http_request \<Rightarrow> 'x term_state \<Rightarrow> term_thread \<times> 'x term_state" where
  "arrive env c w r s =
     (if req_path r = ''/sessions'' \<and> req_method r = MethodPost then
        (case req_json r of
           JsonError \<Rightarrow> (Answered (StatusBadRequest, TermMessage ''invalid JSON body''), s)
         | body \<Rightarrow>
             let get = (case body of JsonObject b \<Rightarrow> b | _ \<Rightarrow> (\<lambda>_. []))
             in start_create env c s (get ''name'') (get ''cwd'') (get ''shell''))
      else case closing r of
             Some sid \<Rightarrow> start_close c s sid
           | None \<Rightarrow> (let (resp, s') = Routes env c w s r in (Answered resp, s')))"

fun term_thread_step ::
    "'x term_env \<Rightarrow> term_thread \<Rightarrow> 'x term_state \<Rightarrow> (term_thread \<times> 'x term_state) option" where
  "term_thread_step env (Arrived c w r) s = Some (arrive env c w r s)"
| "term_thread_step env (CreateRow c row) s = Some
     (case CreateSession (tc_write_fault c) (tc_unix c) (ts_db s) row of
        (Inl e, db1) \<Rightarrow> (CreateUndo row e, s\<lparr>ts_db := db1\<rparr>)
      | (Inr _, db1) \<Rightarrow> (CreateLock c (s_ID row), s\<lparr>ts_db := db1\<rparr>))"
| "term_thread_step env (CreateUndo row e) s = Some
     (Answered (create_reply (Inl (TermDB e))),
      s\<lparr>ts_tmux := snd (KillSession (te_exec env) (te_tmux env) (s_TmuxSession row) (ts_tmux s))\<rparr>)"
| "term_thread_step env (CreateLock c sid) s = Some
     (case Acquire (te_locks env) (tc_lock_fault c) (ts_locks s) sid of
        (Inl e, fs1) \<Rightarrow> (Answered (create_reply (Inl (TermLock e))), s\<lparr>ts_locks := fs1\<rparr>)
      | (Inr _, fs1) \<Rightarrow> (CreateRead c sid, s\<lparr>ts_locks := fs1\<rparr>))"
| "term_thread_step env (CreateRead c sid) s = Some
     (case GetSession (tc_read_fault c) (ts_db s) sid of
        Inl e \<Rightarrow> (Answered (create_reply (Inl (TermDB e))), s)
      | Inr row \<Rightarrow> (Answered (create_reply (Inr row)), s))"
| "term_thread_step env (CloseRow c sid row) s = Some
     (case CloseSession (tc_write_fault c) (tc_unix c) (ts_db s) sid of
        (Inl e, db1) \<Rightarrow> (Answered (close_reply (Some (TermDB e))), s\<lparr>ts_db := db1\<rparr>)
      | (Inr _, db1) \<Rightarrow> (CloseKill c sid (s_TmuxSession row), s\<lparr>ts_db := db1\<rparr>))"
| "term_thread_step env (CloseKill c sid name) s = Some
     (let (killErr, x1) = KillSession (te_exec env) (te_tmux env) name (ts_tmux s)
      in (CloseRelease c sid killErr, s\<lparr>ts_tmux := x1\<rparr>))"
| "term_thread_step env (CloseRelease c sid killErr) s = Some
     (case Release (te_locks env) (tc_lock_fault c) (ts_locks s) sid of
        (Inl e, fs1) \<Rightarrow> (Answered (close_reply (Some (TermLock e))), s\<lparr>ts_locks := fs1\<rparr>)
      | (Inr _, fs1) \<Rightarrow> (Answered (close_reply (if killErr then Some TermTmux else None)), s\<lparr>ts_locks := fs1\<rparr>))"
| "term_thread_step env (Answered resp) s = None"


section \<open>A request on its own\<close>

lemma closing_Some:
  "closing r = Some sid \<longleftrightarrow> req_method r = MethodDelete \<and> splitSessionPath (req_path r) = Some (sid, [])"
  by (auto simp: closing_def split: option.splits list.splits prod.splits)

lemma split_session_path_prefix:
  assumes "splitSessionPath p = Some q"
  shows "HasPrefix p ''/sessions/'' \<and> p \<noteq> ''/sessions''"
  using assms by (auto simp: splitSessionPath_def TrimPrefix_def HasPrefix_def Let_def split: if_splits)

lemma alone_create:
  "alone (term_thread_step env) 3 (CreateRow c row) s =
     (case CreateSession (tc_write_fault c) (tc_unix c) (ts_db s) row of
        (Inl e, db1) \<Rightarrow>
          (Answered (create_reply (Inl (TermDB e))),
           s\<lparr>ts_db := db1, ts_tmux := snd (KillSession (te_exec env) (te_tmux env) (s_TmuxSession row) (ts_tmux s))\<rparr>)
      | (Inr _, db1) \<Rightarrow>
          (case Acquire (te_locks env) (tc_lock_fault c) (ts_locks s) (s_ID row) of
             (Inl e, fs1) \<Rightarrow> (Answered (create_reply (Inl (TermLock e))), s\<lparr>ts_db := db1, ts_locks := fs1\<rparr>)
           | (Inr _, fs1) \<Rightarrow>
               (Answered (create_reply (case GetSession (tc_read_fault c) db1 (s_ID row) of Inl e \<Rightarrow> Inl (TermDB e) | Inr r \<Rightarrow> Inr r)),
                s\<lparr>ts_db := db1, ts_locks := fs1\<rparr>)))"
  by (simp add: numeral_3_eq_3 split: prod.split sum.split)

lemma alone_close:
  "alone (term_thread_step env) 3 (CloseRow c sid row) s =
     (case CloseSession (tc_write_fault c) (tc_unix c) (ts_db s) sid of
        (Inl e, db1) \<Rightarrow> (Answered (close_reply (Some (TermDB e))), s\<lparr>ts_db := db1\<rparr>)
      | (Inr _, db1) \<Rightarrow>
          (let (killErr, x1) = KillSession (te_exec env) (te_tmux env) (s_TmuxSession row) (ts_tmux s)
           in case Release (te_locks env) (tc_lock_fault c) (ts_locks s) sid of
                (Inl e, fs1) \<Rightarrow>
                  (Answered (close_reply (Some (TermLock e))), s\<lparr>ts_db := db1, ts_tmux := x1, ts_locks := fs1\<rparr>)
              | (Inr _, fs1) \<Rightarrow>
                  (Answered (close_reply (if killErr then Some TermTmux else None)),
                   s\<lparr>ts_db := db1, ts_tmux := x1, ts_locks := fs1\<rparr>)))"
  by (simp add: numeral_3_eq_3 split: prod.split sum.split)

lemma alone_answered [simp]: "alone (term_thread_step env) n (Answered resp) s = (Answered resp, s)"
  by (cases n) simp_all

lemma start_create_alone:
  "(case start_create env c s name cwd shell of (t, s1) \<Rightarrow> alone (term_thread_step env) 3 t s1) =
     (case ManagerCreate env c s name cwd shell of (res, s') \<Rightarrow> (Answered (create_reply res), s'))"
proof (cases "NewID (tc_rnd c)")
  case None
  then show ?thesis by (simp add: start_create_def ManagerCreate_def)
next
  case (Some sid)
  obtain err x1 where tmux: "NewSession (te_exec env) (te_tmux env) (tmux_name sid) cwd shell (ts_tmux s) = (err, x1)"
    by fastforce
  show ?thesis
  proof (cases err)
    case True
    with Some tmux show ?thesis by (simp add: start_create_def ManagerCreate_def)
  next
    case False
    with Some tmux show ?thesis
      by (simp add: start_create_def ManagerCreate_def alone_create Let_def split: prod.split sum.split)
  qed
qed

lemma start_close_alone:
  "(case start_close c s sid of (t, s1) \<Rightarrow> alone (term_thread_step env) 3 t s1) =
     (case ManagerClose env c s sid of (res, s') \<Rightarrow> (Answered (close_reply res), s'))"
  by (simp add: start_close_def ManagerClose_def alone_close Let_def split: prod.split sum.split)

lemma alone_first: "alone (term_thread_step env) 4 (Arrived c w r) s =
    (case arrive env c w r s of (t, s1) \<Rightarrow> alone (term_thread_step env) 3 t s1)"
  by (subst (1) numeral_eq_Suc) (simp add: numeral_3_eq_3 split: prod.split)

lemma alone_Routes:
  "alone (term_thread_step env) 4 (Arrived c w r) s = (Answered (fst (Routes env c w s r)), snd (Routes env c w s r))"
proof (cases "req_path r = ''/sessions'' \<and> req_method r = MethodPost")
  case True
  then have routes: "Routes env c w s r = handleSessions env c s r" by (simp add: Routes_def)
  show ?thesis
  proof (cases "req_json r = JsonError")
    case err: True
    with True show ?thesis unfolding alone_first routes by (simp add: arrive_def handleSessions_def)
  next
    case False
    define get where "get = (case req_json r of JsonObject b \<Rightarrow> b | _ \<Rightarrow> (\<lambda>_. []))"
    have "arrive env c w r s = start_create env c s (get ''name'') (get ''cwd'') (get ''shell'')"
      using True False by (cases "req_json r") (simp_all add: arrive_def get_def)
    moreover have "handleSessions env c s r = map_prod create_reply id
        (ManagerCreate env c s (get ''name'') (get ''cwd'') (get ''shell''))"
      using True False
      by (cases "req_json r") (auto simp: handleSessions_def get_def create_reply_def split: prod.split sum.split)
    ultimately show ?thesis
      unfolding alone_first routes using start_create_alone [of env c s "get ''name''" "get ''cwd''" "get ''shell''"]
      by (simp add: case_prod_beta)
  qed
next
  case no: False
  show ?thesis
  proof (cases "closing r")
    case None
    with no show ?thesis by (auto simp: alone_first arrive_def split: prod.split)
  next
    case (Some sid)
    then have r: "req_method r = MethodDelete" "splitSessionPath (req_path r) = Some (sid, [])"
      by (simp_all add: closing_Some)
    have routes: "Routes env c w s r = handleSession env c w s r"
      using split_session_path_prefix [OF r(2)] by (simp add: Routes_def)
    have "handleSession env c w s r = map_prod close_reply id (ManagerClose env c s sid)"
      using r by (auto simp: handleSession_def close_reply_def split: prod.split option.split term_error.split db_error.split)
    with Some no show ?thesis
      unfolding alone_first routes using start_close_alone [of env c s sid] by (auto simp: arrive_def case_prod_beta)
  qed
qed


section \<open>Steps and the two shared stores\<close>

text \<open>What one step does to the table: rows are only added, and a closed session stays closed.\<close>

definition only_adds :: "'x term_state \<Rightarrow> 'x term_state \<Rightarrow> bool" where
  "only_adds s s' \<longleftrightarrow>
     set (session_ids (ts_db s)) \<subseteq> set (session_ids (ts_db s')) \<and>
     (\<forall>k \<in> set (session_ids (ts_db s)). open_in (ts_db s') k \<longrightarrow> open_in (ts_db s) k)"

lemma arrive_cases:
  obtains (create) name cwd shell where "arrive env c w r s = start_create env c s name cwd shell" "closing r = None"
  | (close) sid where "arrive env c w r s = start_close c s sid" "closing r = Some sid"
  | (quiet) resp s' where "arrive env c w r s = (Answered resp, s')" "ts_locks s' = ts_locks s"
      "\<forall>k. open_in (ts_db s') k = open_in (ts_db s) k" "session_ids (ts_db s') = session_ids (ts_db s)"
proof (cases "req_path r = ''/sessions'' \<and> req_method r = MethodPost")
  case True
  then show ?thesis
    by (cases "req_json r") (auto simp: arrive_def closing_def intro: create quiet)
next
  case no: False
  show ?thesis
  proof (cases "closing r")
    case (Some sid)
    with no show ?thesis by (intro close [of sid]) (auto simp: arrive_def)
  next
    case None
    obtain resp s' where R: "Routes env c w s r = (resp, s')" by fastforce
    have "ts_locks s' = ts_locks s \<and> (\<forall>k. open_in (ts_db s') k = open_in (ts_db s) k) \<and>
        session_ids (ts_db s') = session_ids (ts_db s)"
    proof (cases rule: Routes_cases [where env = env and c = c and w = w and s = s and r = r])
      case (close sid)
      then have "closing r = Some sid" by (simp add: closing_Some)
      with None show ?thesis by simp
    qed (use R no in simp_all)
    with None no R show ?thesis by (intro quiet [of resp s']) (auto simp: arrive_def)
  qed
qed

lemma start_create_cases:
  obtains (failed) resp x where "start_create env c s name cwd shell = (Answered resp, s\<lparr>ts_tmux := x\<rparr>)"
  | (made) row x rnd where "start_create env c s name cwd shell = (CreateRow c row, s\<lparr>ts_tmux := x\<rparr>)"
      "s_ID row = hex_encode rnd" "s_Status row = []" "tc_rnd c = Some rnd"
proof (cases "tc_rnd c")
  case None
  then have "start_create env c s name cwd shell = (Answered (create_reply (Inl TermNewID)), s\<lparr>ts_tmux := ts_tmux s\<rparr>)"
    by (simp add: start_create_def NewID_def)
  then show ?thesis by (rule failed)
next
  case (Some rnd)
  obtain err x1 where
    "NewSession (te_exec env) (te_tmux env) (tmux_name (hex_encode rnd)) cwd shell (ts_tmux s) = (err, x1)"
    by fastforce
  with Some show ?thesis
    by (cases err) (auto simp: start_create_def NewID_def intro: failed made)
qed

lemma step_only_adds:
  assumes "term_thread_step env t s = Some (t', s')" and "\<And>c row. t = CreateRow c row \<Longrightarrow> s_Status row = []"
  shows "only_adds s s'"
proof (cases t)
  case (Arrived c w r)
  show ?thesis
  proof (cases rule: arrive_cases [where env = env and c = c and w = w and r = r and s = s])
    case (create name cwd shell)
    show ?thesis
      by (cases rule: start_create_cases [where env = env and c = c and s = s and name = name and cwd = cwd and shell = shell])
        (use assms Arrived create in \<open>auto simp: only_adds_def\<close>)
  next
    case (close sid)
    with assms Arrived show ?thesis by (auto simp: start_close_def only_adds_def split: sum.splits)
  next
    case quiet
    with assms Arrived show ?thesis by (auto simp: only_adds_def)
  qed
next
  case (CreateRow c row)
  show ?thesis
  proof (cases "CreateSession (tc_write_fault c) (tc_unix c) (ts_db s) row")
    case (Pair res db1)
    show ?thesis
    proof (cases res)
      case (Inl e)
      with Pair CreateSession_error have "db1 = ts_db s" by simp
      with assms CreateRow Pair Inl show ?thesis by (auto simp: only_adds_def)
    next
      case (Inr u)
      have "s_ID row \<notin> set (session_ids (ts_db s))"
        using Pair Inr by (auto simp: CreateSession_def session_constraints_def session_ids_def Let_def split: if_splits)
      with assms CreateRow Pair Inr open_in_Create [of _ _ _ row u db1] session_ids_Create [of _ _ _ row u db1]
      show ?thesis by (auto simp: only_adds_def)
    qed
  qed
next
  case (CloseRow c sid row)
  obtain res db1 where close: "CloseSession (tc_write_fault c) (tc_unix c) (ts_db s) sid = (res, db1)" by fastforce
  then have db1: "db1 = snd (CloseSession (tc_write_fault c) (tc_unix c) (ts_db s) sid)" by simp
  from assms CloseRow close have "ts_db s' = db1" by (auto split: sum.splits)
  then show ?thesis by (simp add: only_adds_def db1)
qed (use assms in \<open>auto simp: only_adds_def split: sum.splits prod.splits\<close>)


section \<open>The invariant\<close>

text \<open>
  A thread between its row and its lock owes the lock. A thread that has closed its row relies on the
  session staying closed.
\<close>

fun owed_lock :: "term_thread \<Rightarrow> string set" where
  "owed_lock (CreateLock c sid) = {sid}"
| "owed_lock t = {}"

fun relies :: "term_thread \<Rightarrow> 'x term_state \<Rightarrow> bool" where
  "relies (Arrived c w r) s \<longleftrightarrow> \<not> tc_lock_fault c"
| "relies (CreateRow c row) s \<longleftrightarrow> \<not> tc_lock_fault c \<and> ident_string (s_ID row) \<and> s_Status row = []"
| "relies (CreateLock c sid) s \<longleftrightarrow> \<not> tc_lock_fault c \<and> ident_string sid"
| "relies (CloseRow c sid row) s \<longleftrightarrow> True"
| "relies (CloseKill c sid name) s \<longleftrightarrow> sid \<in> set (session_ids (ts_db s)) \<and> \<not> open_in (ts_db s) sid"
| "relies (CloseRelease c sid e) s \<longleftrightarrow> sid \<in> set (session_ids (ts_db s)) \<and> \<not> open_in (ts_db s) sid"
| "relies (CreateUndo row e) s \<longleftrightarrow> True"
| "relies (CreateRead c sid) s \<longleftrightarrow> True"
| "relies (Answered resp) s \<longleftrightarrow> True"

definition locked_or_owed :: "'x term_env \<Rightarrow> string set \<Rightarrow> 'x term_state \<Rightarrow> bool" where
  "locked_or_owed env K s \<longleftrightarrow>
     lm_dir (te_locks env) \<noteq> [] \<and>
     (\<forall>sid \<in> set (session_ids (ts_db s)). ident_string sid) \<and>
     (\<forall>sid. open_in (ts_db s) sid \<longrightarrow> Held (te_locks env) (ts_locks s) sid \<or> sid \<in> K)"

lemma relies_stable:
  assumes "relies u s" "only_adds s s'"
  shows "relies u s'"
  using assms by (cases u) (auto simp: only_adds_def)

lemma relies_status: "relies t s \<Longrightarrow> t = CreateRow c row \<Longrightarrow> s_Status row = []"
  by simp

lemma term_thread_keeps:
  assumes inv: "locked_or_owed env (owed_lock t \<union> K) s" and rel: "relies t s"
    and step: "term_thread_step env t s = Some (t', s')"
  shows "locked_or_owed env (owed_lock t' \<union> K) s' \<and> relies t' s'"
proof (cases t)
  case (Arrived c w r)
  show ?thesis
  proof (cases rule: arrive_cases [where env = env and c = c and w = w and r = r and s = s])
    case (create name cwd shell)
    show ?thesis
      by (cases rule: start_create_cases [where env = env and c = c and s = s and name = name and cwd = cwd and shell = shell])
        (use assms Arrived create hex_encode_ident in \<open>auto simp: locked_or_owed_def\<close>)
  next
    case (close sid)
    with assms Arrived show ?thesis by (auto simp: start_close_def locked_or_owed_def split: sum.splits)
  next
    case quiet
    with assms Arrived show ?thesis by (auto simp: locked_or_owed_def)
  qed
next
  case (CreateRow c row)
  obtain res db1 where cr: "CreateSession (tc_write_fault c) (tc_unix c) (ts_db s) row = (res, db1)" by fastforce
  show ?thesis
  proof (cases res)
    case (Inl e)
    with cr CreateSession_error have "db1 = ts_db s" by simp
    with assms CreateRow cr Inl show ?thesis by (auto simp: locked_or_owed_def)
  next
    case (Inr u)
    have row: "s_Status row = []" "ident_string (s_ID row)" using rel CreateRow by simp_all
    note ok = cr [unfolded Inr]
    from assms CreateRow cr Inr row open_in_Create [OF ok row(1)] session_ids_Create [OF ok]
    show ?thesis by (auto simp: locked_or_owed_def)
  qed
next
  case (CreateLock c sid)
  obtain fs where acq: "Acquire (te_locks env) (tc_lock_fault c) (ts_locks s) sid = (Inr (), fs)"
    using rel CreateLock by (simp add: Acquire_def)
  have "Held (te_locks env) fs sid" by (rule term_lock.acquire_held [OF acq])
  moreover have "Held (te_locks env) fs k" if "Held (te_locks env) (ts_locks s) k" for k
    using term_lock.acquire_keeps [OF that, of "tc_lock_fault c" sid] acq by simp
  ultimately show ?thesis using assms CreateLock acq by (auto simp: locked_or_owed_def)
next
  case (CloseRow c sid row)
  obtain res db1 where cl: "CloseSession (tc_write_fault c) (tc_unix c) (ts_db s) sid = (res, db1)" by fastforce
  then have db1: "db1 = snd (CloseSession (tc_write_fault c) (tc_unix c) (ts_db s) sid)" by simp
  show ?thesis
  proof (cases res)
    case (Inl e)
    with cl CloseSession_error have "db1 = ts_db s" by simp
    with assms CloseRow cl Inl show ?thesis by (auto simp: locked_or_owed_def)
  next
    case (Inr u)
    with cl CloseSession_ok have "\<not> tc_write_fault c" "sid \<in> set (session_ids (ts_db s))"
      by (fastforce simp: session_ids_def)+
    moreover have "session_ids db1 = session_ids (ts_db s)"
      "\<And>k. open_in db1 k \<longleftrightarrow> open_in (ts_db s) k \<and> (tc_write_fault c \<or> k \<noteq> sid)"
      by (simp_all add: db1)
    moreover have "t' = CloseKill c sid (s_TmuxSession row)" "s' = s\<lparr>ts_db := db1\<rparr>"
      using step CloseRow cl Inr by simp_all
    ultimately show ?thesis using inv CloseRow by (auto simp: locked_or_owed_def)
  qed
next
  case (CloseRelease c sid e)
  have sid: "sid \<in> set (session_ids (ts_db s))" "\<not> open_in (ts_db s) sid" using rel CloseRelease by simp_all
  obtain res fs where rl: "Release (te_locks env) (tc_lock_fault c) (ts_locks s) sid = (res, fs)" by fastforce
  have "Held (te_locks env) fs k = Held (te_locks env) (ts_locks s) k" if "open_in (ts_db s) k" for k
  proof -
    have "k \<noteq> sid" using sid(2) that by auto
    then show ?thesis
      using term_lock.release_other [of "te_locks env" sid k "tc_lock_fault c" "ts_locks s"] rl inv sid(1) that open_in_ids
      by (auto simp: locked_or_owed_def)
  qed
  moreover have "s' = s\<lparr>ts_locks := fs\<rparr>" "owed_lock t' = {}" "relies t' s'"
    using step CloseRelease rl by (auto split: sum.splits)
  ultimately show ?thesis using inv CloseRelease by (auto simp: locked_or_owed_def)
qed (use assms in \<open>auto simp: locked_or_owed_def split: sum.splits prod.splits\<close>)

text \<open>The requests of the terminal routes settle their obligations.\<close>

interpretation term_threads: obligations "term_thread_step env" "locked_or_owed env" owed_lock relies for env
proof unfold_locales
  fix t K s t' s'
  assume "locked_or_owed env (owed_lock t \<union> K) s" "relies t s" "term_thread_step env t s = Some (t', s')"
  then show "locked_or_owed env (owed_lock t' \<union> K) s' \<and> relies t' s'" by (rule term_thread_keeps)
next
  fix t K s u t' s'
  assume "relies t s" "relies u s" "term_thread_step env t s = Some (t', s')"
  then show "relies u s'" using relies_stable step_only_adds relies_status by blast
qed


section \<open>Deleting a session that is still being created\<close>

lemma session_at_GetSession: "session_at db sid = Some r \<Longrightarrow> GetSession False db sid = scan_session r"
  by (simp add: session_at_def GetSession_def)

lemma CloseSession_open:
  assumes "open_in db sid" "CloseSession False now db sid = (res, db')"
  shows "res = Inr () \<and> session_ids db' = session_ids db \<and> \<not> open_in db' sid \<and>
     (\<exists>row. GetSession False db' sid = Inr row \<and> s_ID row = sid \<and> s_Status row = StatusClosed)"
proof -
  obtain r where r: "session_at db sid = Some r" "sr_status r = Some StatusOpen"
    using assms(1) by (auto simp: open_in_def split: option.splits)
  then have "r \<in> set (sessions db)" "sr_id r = sid" by (auto simp: session_at_def dest: find_key_Some)
  with r(2) have "res = Inr ()"
    using assms(2) by (auto simp: CloseSession_def sql_update_def requireOneRow_def Let_def filter_empty_conv split: if_splits)
  moreover have db': "db' = snd (CloseSession False now db sid)" using assms(2) by simp
  moreover have "session_at db' sid = Some (r\<lparr>sr_status := Some StatusClosed, sr_active := Some now\<rparr>)"
    unfolding db' using r by (simp add: session_at_Close)
  ultimately show ?thesis
    using \<open>sr_id r = sid\<close> by (simp add: session_at_GetSession scan_session_def db')
qed

text \<open>A creation that has stored its row and is about to take the lock.\<close>

lemma create_until_lock:
  assumes "req_path r = ''/sessions''" "req_method r = MethodPost" "req_json r = JsonObject body"
    and "tc_rnd c = Some rnd" "\<not> tc_write_fault c" "hex_encode rnd \<notin> set (session_ids (ts_db s))"
    and "NewSession (te_exec env) (te_tmux env) (tmux_name (hex_encode rnd)) (body ''cwd'') (body ''shell'') (ts_tmux s) = (False, x)"
  obtains db1 row where "alone (term_thread_step env) 2 (Arrived c w r) s = (CreateLock c (hex_encode rnd), s\<lparr>ts_tmux := x, ts_db := db1\<rparr>)"
    "open_in db1 (hex_encode rnd)" "session_ids db1 = session_ids (ts_db s) @ [hex_encode rnd]"
    "GetSession False db1 (hex_encode rnd) = Inr row" "s_TmuxSession row = tmux_name (hex_encode rnd)"
proof -
  let ?row = "\<lparr>s_ID = hex_encode rnd, s_Name = body ''name'', s_TmuxSession = tmux_name (hex_encode rnd),
      s_Cwd = body ''cwd'', s_Shell = body ''shell'', s_Status = [], s_CreatedAt = 0, s_LastActiveAt = 0\<rparr>"
  have "\<exists>db1. CreateSession (tc_write_fault c) (tc_unix c) (ts_db s) ?row = (Inr (), db1)"
    using assms(5,6) by (force simp: CreateSession_def session_constraints_def session_ids_def StatusOpen_def Let_def)
  then obtain db1 where db1: "CreateSession (tc_write_fault c) (tc_unix c) (ts_db s) ?row = (Inr (), db1)" by blast
  have "alone (term_thread_step env) 2 (Arrived c w r) s = (CreateLock c (hex_encode rnd), s\<lparr>ts_tmux := x, ts_db := db1\<rparr>)"
    using assms(1-4,7) db1 by (simp add: numeral_2_eq_2 arrive_def start_create_def NewID_def)
  moreover obtain row where "GetSession False db1 (hex_encode rnd) = Inr row" "s_TmuxSession row = tmux_name (hex_encode rnd)"
    using CreateSession_GetSession [OF db1] by simp
  ultimately show ?thesis using that open_in_Create [OF db1] session_ids_Create [OF db1] by simp
qed

lemma lock_and_read:
  assumes "\<not> tc_lock_fault c" "\<not> tc_read_fault c" "GetSession False (ts_db s) sid = Inr row"
  obtains fs where
    "alone (term_thread_step env) 2 (CreateLock c sid) s = (Answered (StatusCreated, TermSession row), s\<lparr>ts_locks := fs\<rparr>)"
    "Held (te_locks env) fs sid"
proof -
  obtain fs where acq: "Acquire (te_locks env) False (ts_locks s) sid = (Inr (), fs)" by (simp add: Acquire_def)
  then show ?thesis
    using that [of fs] term_lock.acquire_held [OF acq] assms by (simp add: numeral_2_eq_2 create_reply_def)
qed

lemma delete_alone:
  assumes "splitSessionPath (req_path r) = Some (sid, [])" "req_method r = MethodDelete" "open_in (ts_db s) sid"
    and "\<not> tc_read_fault c" "\<not> tc_write_fault c" "\<not> tc_lock_fault c"
    and "GetSession False (ts_db s) sid = Inr row" "\<not> fst (KillSession (te_exec env) (te_tmux env) (s_TmuxSession row) (ts_tmux s))"
  obtains s' row' where "alone (term_thread_step env) 4 (Arrived c w r) s = (Answered (StatusNoContent, TermNoBody), s')"
    "session_ids (ts_db s') = session_ids (ts_db s)" "\<not> open_in (ts_db s') sid"
    "GetSession False (ts_db s') sid = Inr row'" "s_ID row' = sid" "s_Status row' = StatusClosed"
proof -
  obtain db2 where cl: "CloseSession False (tc_unix c) (ts_db s) sid = (Inr (), db2)"
    using CloseSession_open [OF assms(3)] by (metis prod.collapse)
  note closed = CloseSession_open [OF assms(3) cl]
  obtain x where kill: "KillSession (te_exec env) (te_tmux env) (s_TmuxSession row) (ts_tmux s) = (False, x)"
    using assms(8) by (metis prod.collapse)
  obtain fs where rel: "Release (te_locks env) False (ts_locks s) sid = (Inr (), fs)"
    by (cases "Path (te_locks env) sid \<in> set (ts_locks s)") (simp_all add: Release_def)
  have "closing r = Some sid" using assms(1,2) by (simp add: closing_Some)
  moreover have "req_path r \<noteq> ''/sessions''" using split_session_path_prefix [OF assms(1)] by simp
  ultimately have start: "arrive env c w r s = (CloseRow c sid row, s)"
    using assms(4,7) by (auto simp: arrive_def start_close_def)
  have "alone (term_thread_step env) 4 (Arrived c w r) s =
      (Answered (StatusNoContent, TermNoBody), s\<lparr>ts_db := db2, ts_tmux := x, ts_locks := fs\<rparr>)"
    unfolding alone_first start using assms(5,6) cl kill rel by (simp add: alone_close close_reply_def)
  then show ?thesis using that closed by auto
qed


section \<open>Properties\<close>

text \<open>
  C14. However the steps of any number of terminal requests interleave, as long as the lock directory
  works, an open session holds its terminal lock or is being created by a request that is about to
  take it. So once every request is answered, every open session is locked, and the updater never
  takes an open session that a client was told about for none.
\<close>

theorem live_sessions_stay_locked:
  assumes "interleaved (term_thread_step env) (ts, s) (ts', s')"
    and "\<forall>t \<in> set ts. \<exists>c w r. t = Arrived c w r \<and> \<not> tc_lock_fault c"
    and "locks_match env s" "lm_dir (te_locks env) \<noteq> []" "open_in (ts_db s') sid"
  shows "Held (te_locks env) (ts_locks s') sid \<or> (\<exists>c. CreateLock c sid \<in> set ts')"
proof -
  have "locked_or_owed env {} s"
    using assms(3,4) open_in_ids by (auto simp: locks_match_def locked_or_owed_def)
  moreover have "owed_lock t = {} \<and> relies t s" if "t \<in> set ts" for t
    using assms(2) that by auto
  ultimately have "locked_or_owed env (\<Union> (owed_lock ` set ts')) s'"
    using term_threads.interleaved_J [OF assms(1)] by blast
  then have "Held (te_locks env) (ts_locks s') sid \<or> (\<exists>t \<in> set ts'. sid \<in> owed_lock t)"
    using assms(5) by (auto simp: locked_or_owed_def)
  moreover have "\<exists>c. t = CreateLock c sid" if "sid \<in> owed_lock t" for t using that by (cases t) auto
  ultimately show ?thesis by metis
qed

definition demo_create :: http_request where
  "demo_create = (demo_request ''POST'' ''/sessions'')\<lparr>req_json := JsonObject (\<lambda>_. [])\<rparr>"

definition demo_delete :: http_request where
  "demo_delete = demo_request ''DELETE'' (''/sessions/'' @ demo_sid)"

lemma demo_new_manager:
  "locks_match demo_term (NewManager demo_term emptyDB [] ())" "lm_dir (te_locks demo_term) \<noteq> []"
  "session_ids (ts_db (NewManager demo_term emptyDB [] ())) = []"
  by (simp_all add: locks_match_def NewManager_def emptyDB_def session_ids_def Held_def open_in_def session_at_def
      demo_term_def Let_def)

lemma demo_new_session: "NewSession (te_exec demo_term) (te_tmux demo_term) n cwd sh x = (False, ())"
  by (simp add: demo_term_def NewSession_def tmux_run_def Let_def)

lemma demo_until_lock:
  obtains db1 row where
    "alone (term_thread_step demo_term) 2 (Arrived (demo_term_call False) demo_ws demo_create) (NewManager demo_term emptyDB [] ()) =
      (CreateLock (demo_term_call False) demo_sid, (NewManager demo_term emptyDB [] ())\<lparr>ts_tmux := (), ts_db := db1\<rparr>)"
    "open_in db1 demo_sid" "GetSession False db1 demo_sid = Inr row"
  by (rule create_until_lock [where r = demo_create and c = "demo_term_call False" and rnd = "''01234567''"
        and s = "NewManager demo_term emptyDB [] ()" and env = demo_term and x = "()" and w = demo_ws and body = "\<lambda>_. []"])
    (use demo_sid in \<open>simp_all add: demo_create_def demo_request_def demo_term_call_def demo_new_session demo_new_manager\<close>)

theorem live_sessions_stay_locked_witness:
  "\<exists>resp s'. interleaved (term_thread_step demo_term)
       ([Arrived (demo_term_call False) demo_ws demo_create], NewManager demo_term emptyDB [] ()) ([Answered resp], s') \<and>
     open_in (ts_db s') demo_sid \<and> Held (te_locks demo_term) (ts_locks s') demo_sid"
proof -
  let ?s = "NewManager demo_term emptyDB [] ()" and ?c = "demo_term_call False"
  obtain db1 row where db1: "alone (term_thread_step demo_term) 2 (Arrived ?c demo_ws demo_create) ?s =
      (CreateLock ?c demo_sid, ?s\<lparr>ts_tmux := (), ts_db := db1\<rparr>)" "open_in db1 demo_sid" "GetSession False db1 demo_sid = Inr row"
    by (rule demo_until_lock)
  obtain fs where fs: "alone (term_thread_step demo_term) 2 (CreateLock ?c demo_sid) (?s\<lparr>ts_tmux := (), ts_db := db1\<rparr>) =
      (Answered (StatusCreated, TermSession row), (?s\<lparr>ts_tmux := (), ts_db := db1\<rparr>)\<lparr>ts_locks := fs\<rparr>)"
    by (rule lock_and_read [where c = ?c and s = "?s\<lparr>ts_tmux := (), ts_db := db1\<rparr>" and row = row and env = demo_term and sid = demo_sid])
      (simp_all add: db1(3), simp_all add: demo_term_call_def)
  have run: "interleaved (term_thread_step demo_term) ([Arrived ?c demo_ws demo_create], ?s)
      ([Answered (StatusCreated, TermSession row)], (?s\<lparr>ts_tmux := (), ts_db := db1\<rparr>)\<lparr>ts_locks := fs\<rparr>)"
    by (rule then_alone [OF then_alone [OF rtranclp.rtrancl_refl db1(1), where i = 0] fs, where i = 0]) simp_all+
  have "\<forall>t \<in> set [Arrived ?c demo_ws demo_create]. \<exists>c w r. t = Arrived c w r \<and> \<not> tc_lock_fault c"
    by (simp add: demo_term_call_def)
  from live_sessions_stay_locked [OF run this demo_new_manager(1,2), of demo_sid] db1(2)
  have "open_in (ts_db (?s\<lparr>ts_tmux := (), ts_db := db1, ts_locks := fs\<rparr>)) demo_sid \<and>
      Held (te_locks demo_term) (ts_locks (?s\<lparr>ts_tmux := (), ts_db := db1, ts_locks := fs\<rparr>)) demo_sid"
    by simp
  with run show ?thesis by blast
qed

text \<open>
  C20. A session can be closed while it is still being created, and then its lock is never removed: the
  row is in the list before the lock is taken, so a DELETE that runs between the two finds the session,
  closes it, has no lock to release and is answered 204; the creation then takes the lock and is
  answered 201 with a session that is closed already. The lock of the closed session stays, whatever
  requests follow, and holds the updater off forever.
\<close>

theorem close_during_create_leaves_lock:
  assumes "req_path r = ''/sessions''" "req_method r = MethodPost" "req_json r = JsonObject body"
    and "tc_rnd c = Some rnd" "\<not> tc_write_fault c" "\<not> tc_read_fault c" "\<not> tc_lock_fault c"
    and "splitSessionPath (req_path r') = Some (hex_encode rnd, [])" "req_method r' = MethodDelete"
    and "\<not> tc_read_fault c'" "\<not> tc_write_fault c'" "\<not> tc_lock_fault c'"
    and "NewSession (te_exec env) (te_tmux env) (tmux_name (hex_encode rnd)) (body ''cwd'') (body ''shell'') (ts_tmux s) = (False, x)"
    and "\<not> fst (KillSession (te_exec env) (te_tmux env) (tmux_name (hex_encode rnd)) x)"
    and "distinct (session_ids (ts_db s))" "\<forall>k \<in> set (session_ids (ts_db s)). ident_string k"
    and "hex_encode rnd \<notin> set (session_ids (ts_db s))" "lm_dir (te_locks env) \<noteq> []"
  shows "\<exists>row s'. interleaved (term_thread_step env) ([Arrived c w r, Arrived c' w' r'], s)
       ([Answered (StatusCreated, TermSession row), Answered (StatusNoContent, TermNoBody)], s') \<and>
     s_ID row = hex_encode rnd \<and> s_Status row = StatusClosed \<and>
     (\<forall>es. \<not> open_in (ts_db (run_steps (term_step env) s' es)) (hex_encode rnd) \<and>
           Held (te_locks env) (ts_locks (run_steps (term_step env) s' es)) (hex_encode rnd))"
proof -
  let ?sid = "hex_encode rnd"
  obtain db1 row1 where one: "alone (term_thread_step env) 2 (Arrived c w r) s = (CreateLock c ?sid, s\<lparr>ts_tmux := x, ts_db := db1\<rparr>)"
    and db1: "open_in db1 ?sid" "session_ids db1 = session_ids (ts_db s) @ [?sid]" "GetSession False db1 ?sid = Inr row1"
      "s_TmuxSession row1 = tmux_name ?sid"
    by (rule create_until_lock [OF assms(1-5,17,13)])
  let ?s1 = "s\<lparr>ts_tmux := x, ts_db := db1\<rparr>"
  obtain s2 row where two: "alone (term_thread_step env) 4 (Arrived c' w' r') ?s1 = (Answered (StatusNoContent, TermNoBody), s2)"
    and s2: "session_ids (ts_db s2) = session_ids db1" "\<not> open_in (ts_db s2) ?sid"
      "GetSession False (ts_db s2) ?sid = Inr row" "s_ID row = ?sid" "s_Status row = StatusClosed"
    by (rule delete_alone [where s = ?s1 and env = env and row = row1 and w = w', OF assms(8,9) _ assms(10-12)])
      (use db1 assms(14) in simp_all)
  obtain fs where three: "alone (term_thread_step env) 2 (CreateLock c ?sid) s2 =
      (Answered (StatusCreated, TermSession row), s2\<lparr>ts_locks := fs\<rparr>)" and held: "Held (te_locks env) fs ?sid"
    by (rule lock_and_read [OF assms(7,6) s2(3)])
  have run: "interleaved (term_thread_step env) ([Arrived c w r, Arrived c' w' r'], s)
      ([Answered (StatusCreated, TermSession row), Answered (StatusNoContent, TermNoBody)], s2\<lparr>ts_locks := fs\<rparr>)"
    by (rule then_alone [OF then_alone [OF then_alone [OF rtranclp.rtrancl_refl one, where i = 0] two, where i = 1] three,
          where i = 0]) simp_all+
  have "stuck env ?sid (s2\<lparr>ts_locks := fs\<rparr>)"
    using s2 db1 held assms(15-17) hex_encode_ident by (auto simp: stuck_def)
  then have "stuck env ?sid (run_steps (term_step env) (s2\<lparr>ts_locks := fs\<rparr>) es)" for es
    by (rule run_steps_invariant) (use stuck_step assms(18) in \<open>auto simp: term_step_def split: prod.split\<close>)
  then have "\<forall>es. \<not> open_in (ts_db (run_steps (term_step env) (s2\<lparr>ts_locks := fs\<rparr>) es)) ?sid \<and>
      Held (te_locks env) (ts_locks (run_steps (term_step env) (s2\<lparr>ts_locks := fs\<rparr>) es)) ?sid"
    by (simp add: stuck_def)
  with run s2(4,5) show ?thesis by blast
qed

theorem close_during_create_leaves_lock_witness:
  "\<exists>row s'. interleaved (term_thread_step demo_term)
       ([Arrived (demo_term_call False) demo_ws demo_create, Arrived (demo_term_call False) demo_ws demo_delete],
        NewManager demo_term emptyDB [] ())
       ([Answered (StatusCreated, TermSession row), Answered (StatusNoContent, TermNoBody)], s') \<and>
     s_ID row = demo_sid \<and> s_Status row = StatusClosed \<and>
     (\<forall>es. \<not> open_in (ts_db (run_steps (term_step demo_term) s' es)) demo_sid \<and>
           Held (te_locks demo_term) (ts_locks (run_steps (term_step demo_term) s' es)) demo_sid)"
proof -
  have "splitSessionPath (req_path demo_delete) = Some (demo_sid, [])"
    unfolding demo_delete_def demo_request_def demo_sid_def by code_simp
  have "\<not> fst (KillSession (te_exec demo_term) (te_tmux demo_term) (tmux_name demo_sid) ())"
    by (simp add: KillSession_def tmux_run_def demo_term_def)
  have "req_path demo_create = ''/sessions''" "req_method demo_create = MethodPost"
    "req_json demo_create = JsonObject (\<lambda>_. [])" "req_method demo_delete = MethodDelete"
    by (simp_all add: demo_create_def demo_delete_def demo_request_def)
  have "tc_rnd (demo_term_call False) = Some ''01234567''" "\<not> tc_write_fault (demo_term_call False)"
    "\<not> tc_read_fault (demo_term_call False)" "\<not> tc_lock_fault (demo_term_call False)"
    by (simp_all add: demo_term_call_def)
  note rule = close_during_create_leaves_lock [where rnd = "''01234567''" and x = "()" and body = "\<lambda>_. []" and env = demo_term
        and s = "NewManager demo_term emptyDB [] ()" and c = "demo_term_call False" and c' = "demo_term_call False"
        and r = demo_create and r' = demo_delete and w = demo_ws and w' = demo_ws, unfolded demo_sid]
  show ?thesis by (rule rule; (fact | simp only: demo_new_session demo_new_manager(2,3)); simp)
qed

end
