(* ===== verification/StepUp.thy ===== *)
theory StepUp
  imports Prelude
begin

text \<open>
  Step-up grants, \<^verbatim>\<open>identity/stepup.go\<close>: the registry of sensitive actions and the gate of
  single-use permissions keyed by device and action.
\<close>


section \<open>Model\<close>

type_synonym action = string

definition ActionRevokeDevice :: action where "ActionRevokeDevice = ''revoke_device''"
definition ActionPairDevice :: action where "ActionPairDevice = ''pair_device''"
definition ActionDeleteBackup :: action where "ActionDeleteBackup = ''delete_backup''"
definition ActionChangeSecuritySettings :: action where
  "ActionChangeSecuritySettings = ''change_security_settings''"

definition stepUpRegistry :: "action \<rightharpoonup> bool" where
  "stepUpRegistry = [ActionRevokeDevice \<mapsto> True, ActionPairDevice \<mapsto> True,
                     ActionDeleteBackup \<mapsto> True, ActionChangeSecuritySettings \<mapsto> True]"

definition RequiresStepUp :: "action \<Rightarrow> bool" where
  "RequiresStepUp a = (case stepUpRegistry a of None \<Rightarrow> True | Some required \<Rightarrow> required)"

definition StepUpTTL :: duration where [time_simps]: "StepUpTTL = 5 * minute"

datatype stepup_error = ErrStepUpRequired | ErrStepUpExpired

record StepUpGate =
  grants :: "string \<rightharpoonup> instant" \<comment> \<open>expiry, by key\<close>

definition NewStepUpGate :: StepUpGate where
  "NewStepUpGate = \<lparr>grants = Map.empty\<rparr>"

definition grantKey :: "string \<Rightarrow> action \<Rightarrow> string" where
  "grantKey deviceID a = deviceID @ CHR 0x00 # a"

definition Grant :: "instant \<Rightarrow> StepUpGate \<Rightarrow> string \<Rightarrow> action \<Rightarrow> StepUpGate" where
  "Grant now g deviceID a = g\<lparr>grants := (grants g)(grantKey deviceID a \<mapsto> now + StepUpTTL)\<rparr>"

definition ConsumeGrant ::
    "instant \<Rightarrow> StepUpGate \<Rightarrow> string \<Rightarrow> action \<Rightarrow> stepup_error option \<times> StepUpGate" where
  "ConsumeGrant now g deviceID a =
     (let key = grantKey deviceID a
      in case grants g key of
           None \<Rightarrow> (Some ErrStepUpRequired, g)
         | Some expiresAt \<Rightarrow>
             let g' = g\<lparr>grants := map_delete (grants g) key\<rparr>
             in if time_after now expiresAt then (Some ErrStepUpExpired, g') else (None, g'))"

datatype gate_event = EvGrant instant string action | EvConsume instant string action

fun gate_step :: "StepUpGate \<Rightarrow> gate_event \<Rightarrow> StepUpGate" where
  "gate_step g (EvGrant now d a) = Grant now g d a"
| "gate_step g (EvConsume now d a) = snd (ConsumeGrant now g d a)"


section \<open>Keys\<close>

text \<open>
  The separator makes the key injective as long as actions carry no NUL byte, which no action of
  the registry does; the device id may hold anything.
\<close>

lemma append_last_sep:
  "x @ c # a = y @ c # b \<Longrightarrow> c \<notin> set a \<Longrightarrow> c \<notin> set b \<Longrightarrow> x = y \<and> a = b"
proof (induction x arbitrary: y)
  case Nil
  show ?case
  proof (cases y)
    case Nil
    with Nil.prems show ?thesis by simp
  next
    case (Cons d ys)
    with Nil.prems(1) have "a = ys @ c # b" by simp
    with Nil.prems(2) show ?thesis by simp
  qed
next
  case (Cons d x)
  show ?case
  proof (cases y)
    case Nil
    with Cons.prems(1) have "b = x @ c # a" by simp
    with Cons.prems(3) show ?thesis by simp
  next
    case (Cons e ys)
    with Cons.IH [of ys] Cons.prems show ?thesis by simp
  qed
qed

lemma grantKey_inject:
  "CHR 0x00 \<notin> set a \<Longrightarrow> CHR 0x00 \<notin> set b \<Longrightarrow> grantKey d a = grantKey e b \<longleftrightarrow> d = e \<and> a = b"
  unfolding grantKey_def by (blast dest: append_last_sep)


section \<open>Grants are single-use\<close>

definition grant_issues :: "gate_event \<Rightarrow> string \<Rightarrow> bool" where
  "grant_issues e k \<longleftrightarrow> (\<exists>now d a. e = EvGrant now d a \<and> k = grantKey d a)"

definition grant_redeems :: "StepUpGate \<Rightarrow> gate_event \<Rightarrow> string \<Rightarrow> bool" where
  "grant_redeems g e k \<longleftrightarrow>
     (\<exists>now d a. e = EvConsume now d a \<and> k = grantKey d a \<and> fst (ConsumeGrant now g d a) = None)"

lemma ConsumeGrant_success_iff:
  "fst (ConsumeGrant now g d a) = None \<longleftrightarrow>
     (\<exists>t. grants g (grantKey d a) = Some t \<and> now \<le> t)"
  by (auto simp: ConsumeGrant_def Let_def split: option.splits)

lemma ConsumeGrant_grants:
  "grants (snd (ConsumeGrant now g d a)) = map_delete (grants g) (grantKey d a)"
  by (auto simp: ConsumeGrant_def Let_def fun_eq_iff split: option.splits)

interpretation stepup: single_use gate_step "\<lambda>g k. grants g k \<noteq> None" grant_issues grant_redeems
proof (unfold_locales, goal_cases)
  case (1 s e k)
  then show ?case by (auto simp: grant_redeems_def ConsumeGrant_success_iff)
next
  case (2 s e k)
  then show ?case by (auto simp: grant_redeems_def ConsumeGrant_grants)
next
  case (3 s e k)
  then show ?case
    by (cases e) (auto simp: grant_issues_def Grant_def ConsumeGrant_grants split: if_splits)
qed

text \<open>
  A step-up grant authorises one action of one device once: after it has been consumed, no
  sequence of grants for other devices or actions and of consume attempts by anyone makes the
  same device and action pass again, until that very grant is issued anew.
\<close>

lemma grant_single_use:
  assumes "fst (ConsumeGrant now g d a) = None" and "CHR 0x00 \<notin> set a"
    and "\<forall>e \<in> set es. \<forall>t d' a'. e = EvGrant t d' a' \<longrightarrow> CHR 0x00 \<notin> set a' \<and> (d', a') \<noteq> (d, a)"
  shows "fst (ConsumeGrant now' (run_steps gate_step (snd (ConsumeGrant now g d a)) es) d a) \<noteq> None"
proof -
  have "grant_redeems g (EvConsume now d a) (grantKey d a)"
    using assms(1) by (auto simp: grant_redeems_def)
  moreover have "\<forall>e \<in> set es. \<not> grant_issues e (grantKey d a)"
    using assms(2,3) by (fastforce simp: grant_issues_def grantKey_inject)
  ultimately have "\<not> grant_redeems (run_steps gate_step (gate_step g (EvConsume now d a)) es)
      (EvConsume now' d a) (grantKey d a)"
    by (rule stepup.no_second_redeem)
  then show ?thesis by (auto simp: grant_redeems_def)
qed

lemma grant_single_use_example:
  "fst (ConsumeGrant 3 (run_steps gate_step
     (snd (ConsumeGrant 1 (Grant 0 NewStepUpGate ''d'' ActionRevokeDevice) ''d'' ActionRevokeDevice))
     [EvGrant 2 ''d'' ActionDeleteBackup]) ''d'' ActionRevokeDevice) \<noteq> None"
  by (rule grant_single_use)
    (simp_all add: ConsumeGrant_success_iff Grant_def time_simps ActionRevokeDevice_def
      ActionDeleteBackup_def)

text \<open>
  A grant is narrow: in a gate where only one grant was ever issued, a consume succeeds
  exactly for that device and that action, within five minutes of the grant.
\<close>

lemma grant_is_narrow:
  assumes "CHR 0x00 \<notin> set a" and "CHR 0x00 \<notin> set a'"
  shows "fst (ConsumeGrant now (Grant t NewStepUpGate d a) d' a') = None \<longleftrightarrow>
     d' = d \<and> a' = a \<and> now \<le> t + StepUpTTL"
  using assms by (auto simp: ConsumeGrant_success_iff Grant_def NewStepUpGate_def grantKey_inject)

lemma grant_is_narrow_example:
  "fst (ConsumeGrant 1 (Grant 0 NewStepUpGate ''d'' ActionRevokeDevice) ''d'' ActionDeleteBackup) \<noteq> None"
  using grant_is_narrow [of ActionRevokeDevice ActionDeleteBackup 1 0 "''d''" "''d''"]
  by (simp add: ActionRevokeDevice_def ActionDeleteBackup_def)

end
