(* ===== verification/Startup.thy ===== *)
theory Startup
  imports Go_Net Go_Codec Password Totp
begin

text \<open>
  What \<^verbatim>\<open>cmd/claudecode-remoted\<close> checks before it serves anything: the bind address, the
  loopback rule of the test mode, the public domain and the list of file roots, with
  \<^verbatim>\<open>net.ParseIP\<close> written out; and the credential setup of \<^verbatim>\<open>setup_owner.go\<close>.
\<close>


section \<open>IP addresses\<close>

text \<open>
  \<^verbatim>\<open>net.ParseIP\<close>: the sixteen bytes of the address, IPv4 addresses in their mapped form. The
  fields of an IPv4 address are decimal, at most 255 and without leading zeros.
\<close>

definition dot :: char where [simp]: "dot = CHR ''.''"

definition ipv4_field :: "string \<Rightarrow> nat option" where
  "ipv4_field s =
     (if s \<noteq> [] \<and> list_all is_digit s \<and> length s \<le> 3 \<and> (length s > 1 \<longrightarrow> hd s \<noteq> CHR ''0'')
      then if digit_value s \<le> 255 then Some (digit_value s) else None
      else None)"

fun collect :: "'a option list \<Rightarrow> 'a list option" where
  "collect [] = Some []"
| "collect (None # xs) = None"
| "collect (Some x # xs) = (case collect xs of None \<Rightarrow> None | Some ys \<Rightarrow> Some (x # ys))"

definition parseIPv4 :: "string \<Rightarrow> nat list option" where
  "parseIPv4 s =
     (let parts = split_byte dot s
      in if length parts = 4 then collect (map ipv4_field parts) else None)"

definition is_hex :: "char \<Rightarrow> bool" where
  "is_hex c \<longleftrightarrow> hex_value c \<noteq> None"

text \<open>
  The loop of the IPv6 parser: \<open>n\<close> fields are still free, \<open>bytes\<close> were read, \<open>ell\<close> is the position
  of a double colon. The result is the rest of the text, the bytes and that position; \<open>None\<close> is an
  error.
\<close>

fun ipv6_loop :: "nat \<Rightarrow> string \<Rightarrow> nat list \<Rightarrow> nat option \<Rightarrow> (string \<times> nat list \<times> nat option) option" where
  "ipv6_loop 0 s bytes ell = Some (s, bytes, ell)"
| "ipv6_loop (Suc n) s bytes ell =
     (let digits = takeWhile is_hex s; rest = dropWhile is_hex s;
          acc = foldl (\<lambda>a c. 16 * a + the (hex_value c)) 0 digits
      in if digits = [] \<or> length digits > 4 then None
         else if rest \<noteq> [] \<and> hd rest = dot then
           (if ell = None \<and> length bytes \<noteq> 12 \<or> length bytes + 4 > 16 then None
            else case parseIPv4 s of None \<Rightarrow> None | Some ip4 \<Rightarrow> Some ([], bytes @ ip4, ell))
         else let bytes' = bytes @ [acc div 256, acc mod 256]
              in case rest of
                   [] \<Rightarrow> Some ([], bytes', ell)
                 | c # s1 \<Rightarrow>
                     if c \<noteq> colon \<or> s1 = [] then None
                     else if hd s1 = colon then
                       (if ell \<noteq> None then None
                        else if tl s1 = [] then Some ([], bytes', Some (length bytes'))
                        else ipv6_loop n (tl s1) bytes' (Some (length bytes')))
                     else ipv6_loop n s1 bytes' ell)"

definition parseIPv6 :: "string \<Rightarrow> nat list option" where
  "parseIPv6 s =
     (let lead = (take 2 s = [colon, colon]); s1 = (if lead then drop 2 s else s)
      in if lead \<and> s1 = [] then Some (replicate 16 0)
         else case ipv6_loop 8 s1 [] (if lead then Some 0 else None) of
                None \<Rightarrow> None
              | Some (rest, bytes, ell) \<Rightarrow>
                  if rest \<noteq> [] then None
                  else if length bytes < 16 then
                    (case ell of
                       None \<Rightarrow> None
                     | Some e \<Rightarrow> Some (take e bytes @ replicate (16 - length bytes) 0 @ drop e bytes))
                  else if ell \<noteq> None then None else Some bytes)"

text \<open>\<^verbatim>\<open>netip.ParseAddr\<close> decides by the first of the characters that mark the kind of address.\<close>

definition ParseIP :: "string \<Rightarrow> nat list option" where
  "ParseIP s =
     (case dropWhile (\<lambda>c. c \<noteq> dot \<and> c \<noteq> colon \<and> c \<noteq> CHR ''%'') s of
        [] \<Rightarrow> None
      | c # _ \<Rightarrow>
          if c = dot then map_option (\<lambda>ip. replicate 10 0 @ [255, 255] @ ip) (parseIPv4 s)
          else if c = colon then (if CHR ''%'' \<in> set s then None else parseIPv6 s)
          else None)"

definition To4 :: "nat list \<Rightarrow> nat list option" where
  "To4 ip = (if take 12 ip = replicate 10 0 @ [255, 255] then Some (drop 12 ip) else None)"

definition IsLoopback :: "nat list \<Rightarrow> bool" where
  "IsLoopback ip =
     (case To4 ip of Some ip4 \<Rightarrow> hd ip4 = 127 | None \<Rightarrow> ip = replicate 15 0 @ [1])"

definition IsUnspecified :: "nat list \<Rightarrow> bool" where
  "IsUnspecified ip \<longleftrightarrow> ip = replicate 16 0 \<or> ip = replicate 10 0 @ [255, 255, 0, 0, 0, 0]"


section \<open>Checks of the command line\<close>

datatype startup_error = BadAddress | errWildcardBind | NotLoopback string | BadDomain string

definition splitRoots :: "string \<Rightarrow> string list" where
  "splitRoots s = filter (\<lambda>p. p \<noteq> []) (map TrimSpace (split_byte (CHR '','') s))"

definition checkBindAddress :: "string \<Rightarrow> startup_error option" where
  "checkBindAddress addr =
     (case SplitHostPort addr of
        None \<Rightarrow> Some BadAddress
      | Some (host, _) \<Rightarrow>
          let h = TrimSpace host
          in if h = [] \<or> h = ''0.0.0.0'' \<or> h = ''::'' \<or> h = ''[::]'' \<or> h = ''*''
             then Some errWildcardBind else None)"

definition checkLoopbackOnly :: "string \<Rightarrow> startup_error option" where
  "checkLoopbackOnly addr =
     (case SplitHostPort addr of
        None \<Rightarrow> Some BadAddress
      | Some (host, _) \<Rightarrow>
          let h = TrimSpace host
          in if h = ''localhost'' then None
             else case ParseIP h of
                    Some ip \<Rightarrow> if IsLoopback ip then None else Some (NotLoopback h)
                  | None \<Rightarrow> Some (NotLoopback h))"

text \<open>
  \<^verbatim>\<open>hostnameRE\<close>: dot-separated labels of one to 63 letters, digits and inner hyphens, the last of
  them two to 63 letters.
\<close>

definition is_alpha :: "char \<Rightarrow> bool" where
  "is_alpha c \<longleftrightarrow> (97 \<le> byte c \<and> byte c \<le> 122) \<or> (65 \<le> byte c \<and> byte c \<le> 90)"

definition is_alnum :: "char \<Rightarrow> bool" where
  "is_alnum c \<longleftrightarrow> is_alpha c \<or> is_digit c"

definition host_label :: "string \<Rightarrow> bool" where
  "host_label l \<longleftrightarrow> l \<noteq> [] \<and> length l \<le> 63 \<and> is_alnum (hd l) \<and> is_alnum (last l) \<and>
     list_all (\<lambda>c. is_alnum c \<or> c = CHR ''-'') l"

definition top_label :: "string \<Rightarrow> bool" where
  "top_label l \<longleftrightarrow> 2 \<le> length l \<and> length l \<le> 63 \<and> list_all is_alpha l"

definition hostnameRE :: "string \<Rightarrow> bool" where
  "hostnameRE s \<longleftrightarrow>
     (let parts = split_byte dot s
      in 2 \<le> length parts \<and> list_all host_label (butlast parts) \<and> top_label (last parts))"

definition validatePublicDomain :: "string \<Rightarrow> startup_error option" where
  "validatePublicDomain domain =
     (if domain = [] then None
      else if sublist ''://'' domain then Some (BadDomain ''URL'')
      else if CHR ''/'' \<in> set domain \<or> colon \<in> set domain then Some (BadDomain ''path or port'')
      else if ParseIP domain \<noteq> None then Some (BadDomain ''IP address'')
      else if length domain > 253 \<or> \<not> hostnameRE domain then Some (BadDomain ''hostname'')
      else None)"


section \<open>Owner setup\<close>

text \<open>
  \<^verbatim>\<open>runSetupOwner\<close>: the input is what standard input delivers and whether reading it ends in a
  failure other than its end; \<open>generate\<close> is the TOTP library's key generation.
\<close>

type_synonym totp_generate = "string \<Rightarrow> string \<Rightarrow> (string \<times> string) option"

datatype setup_error = ReadPassword | EmptyPassword | HashFailed auth_error | TOTPFailed

abbreviation newline :: char where "newline \<equiv> CHR 0x0A"
abbreviation carriage_return :: char where "carriage_return \<equiv> CHR 0x0D"

definition GenerateTOTPSecret :: "totp_generate \<Rightarrow> string \<Rightarrow> string \<Rightarrow> (string \<times> string) option" where
  "GenerateTOTPSecret generate issuer account = generate issuer account"

definition read_line :: "string \<Rightarrow> bool \<Rightarrow> string option" where
  "read_line input fails =
     (if newline \<in> set input then Some (takeWhile (\<lambda>c. c \<noteq> newline) input @ [newline])
      else if fails then None else Some input)"

definition trim_line_end :: "string \<Rightarrow> string" where
  "trim_line_end s = rev (dropWhile (\<lambda>c. c = newline \<or> c = carriage_return) (rev s))"

definition em_dash :: string where "em_dash = [CHR 0xE2, CHR 0x80, CHR 0x94]"

definition setup_output :: "string \<Rightarrow> string \<Rightarrow> string \<Rightarrow> string \<Rightarrow> string list" where
  "setup_output account hash secret uri =
     [''Owner credential setup'', ''Enter the owner password, then press Enter.'',
      ''password: '',
      ''Put these in /etc/claudecode-remote/.env '' @ em_dash @ '' never in the repo,'',
      ''and never on the command line, where ps would expose them:'',
      [],
      ''CCR_OWNER_EMAIL='' @ account,
      ''CCR_OWNER_PASSWORD_HASH='' @ hash,
      ''CCR_OWNER_TOTP_SECRET='' @ secret,
      [],
      ''Add this to your authenticator app now '' @ em_dash @ '' the secret is not shown again:'',
      uri,
      [],
      ''The passkey factor stays unsatisfiable until the WebAuthn relying-party'',
      ''domain is decided (D-04). Pairing cannot complete before then, by design.'']"

text \<open>On success, the lines of the output; the prompt ends where the first blank line begins.\<close>

definition runSetupOwner ::
    "idkey \<Rightarrow> totp_generate \<Rightarrow> string option \<Rightarrow> string \<Rightarrow> bool \<Rightarrow> string \<Rightarrow> setup_error + string list" where
  "runSetupOwner idkey generate salt input fails email =
     (case read_line input fails of
        None \<Rightarrow> Inl ReadPassword
      | Some line \<Rightarrow>
          let password = trim_line_end line
          in if password = [] then Inl EmptyPassword
             else case HashPassword idkey salt password of
                    Inl e \<Rightarrow> Inl (HashFailed e)
                  | Inr hash \<Rightarrow>
                      let account = (if email = [] then ''owner'' else email)
                      in case GenerateTOTPSecret generate ''ClaudeCode Remote'' account of
                           None \<Rightarrow> Inl TOTPFailed
                         | Some (secret, uri) \<Rightarrow>
                             Inr (setup_output account hash secret uri))"

text \<open>The value a line of the printed text gives to a setting.\<close>

definition env_setting :: "string \<Rightarrow> string list \<Rightarrow> string option" where
  "env_setting key ls =
     (case filter (\<lambda>l. HasPrefix l (key @ ''='')) ls of [] \<Rightarrow> None | l # _ \<Rightarrow> Some (TrimPrefix l (key @ ''='')))"


section \<open>Properties\<close>

lemma env_setting_Cons:
  "env_setting key (l # ls) = (if HasPrefix l (key @ ''='') then Some (TrimPrefix l (key @ ''='')) else env_setting key ls)"
  by (simp add: env_setting_def)

lemma runSetupOwner_ok:
  assumes "read_line input fails = Some line" "trim_line_end line = pw" "pw \<noteq> []"
    and "HashPassword idkey salt pw = Inr hash"
    and "GenerateTOTPSecret generate ''ClaudeCode Remote'' account = Some (secret, uri)"
    and "account = (if email = [] then ''owner'' else email)"
  shows "runSetupOwner idkey generate salt input fails email = Inr (setup_output account hash secret uri)"
  unfolding runSetupOwner_def assms(1) option.case Let_def assms(2,4) sum.case assms(6) [symmetric] assms(5)
  using assms(3) by (simp only: if_False prod.case option.case)

lemma setup_settings:
  "env_setting ''CCR_OWNER_EMAIL'' (setup_output account hash secret uri) = Some account"
  "env_setting ''CCR_OWNER_PASSWORD_HASH'' (setup_output account hash secret uri) = Some hash"
  "env_setting ''CCR_OWNER_TOTP_SECRET'' (setup_output account hash secret uri) = Some secret"
  by (simp_all add: setup_output_def env_setting_Cons HasPrefix_def TrimPrefix_def)

lemma takeWhile_line: "newline \<notin> set p \<Longrightarrow> takeWhile (\<lambda>c. c \<noteq> newline) (p @ newline # r) = p"
  by (induction p) auto

lemma read_line_unix: "newline \<notin> set p \<Longrightarrow> read_line (p @ [newline] @ r) fails = Some (p @ [newline])"
  by (simp add: read_line_def takeWhile_line)

lemma read_line_dos:
  "newline \<notin> set p \<Longrightarrow> read_line (p @ [carriage_return, newline] @ r) fails = Some (p @ [carriage_return, newline])"
  using read_line_unix [of "p @ [carriage_return]"] by simp

lemma trim_line_end_append:
  "set e \<subseteq> {newline, carriage_return} \<Longrightarrow> p \<noteq> [] \<Longrightarrow> last p \<notin> {newline, carriage_return} \<Longrightarrow> trim_line_end (p @ e) = p"
proof -
  assume e: "set e \<subseteq> {newline, carriage_return}" and p: "p \<noteq> []" "last p \<notin> {newline, carriage_return}"
  have "dropWhile (\<lambda>c. c = newline \<or> c = carriage_return) (rev e @ rev p) = rev p"
    using e p by (cases p rule: rev_cases) (auto simp: dropWhile_append3 subset_iff)
  then show ?thesis by (simp add: trim_line_end_def)
qed

text \<open>
  What the setup prints is what the daemon accepts: for a password line without line ends inside,
  entered with either kind of line end, the three printed settings are the account name, a hash that
  the password check accepts for exactly the passwords with the same Argon2 key, and the generated
  secret.
\<close>

lemma setup_then_login:
  assumes "newline \<notin> set pw" "pw \<noteq> []" "last pw \<noteq> carriage_return" "salt \<noteq> []"
    and "\<And>p s t m q l. length (idkey p s t m q l) = l"
    and "generate ''ClaudeCode Remote'' (if email = [] then ''owner'' else email) = Some (secret, uri)"
    and "e \<in> {[newline], [carriage_return, newline]}"
  shows "\<exists>out hash. runSetupOwner idkey generate (Some salt) (pw @ e @ rest) fails email = Inr out \<and>
     env_setting ''CCR_OWNER_EMAIL'' out = Some (if email = [] then ''owner'' else email) \<and>
     env_setting ''CCR_OWNER_PASSWORD_HASH'' out = Some hash \<and>
     env_setting ''CCR_OWNER_TOTP_SECRET'' out = Some secret \<and>
     (\<forall>attempt. ComparePassword idkey attempt hash = None \<longleftrightarrow>
        idkey attempt salt argonIterations argonMemoryKiB argonParallelism argonKeyLen
        = idkey pw salt argonIterations argonMemoryKiB argonParallelism argonKeyLen)"
proof -
  obtain hash where hash: "HashPassword idkey (Some salt) pw = Inr hash"
    using assms(2) by (simp add: HashPassword_def Let_def)
  have line: "read_line (pw @ e @ rest) fails = Some (pw @ e)"
    using assms(7) read_line_unix [OF assms(1)] read_line_dos [OF assms(1)] by blast
  have trim: "trim_line_end (pw @ e) = pw"
  proof (rule trim_line_end_append)
    show "last pw \<notin> {newline, carriage_return}" using assms(1,2,3) last_in_set by force
  qed (use assms(2,7) in auto)
  have run: "runSetupOwner idkey generate (Some salt) (pw @ e @ rest) fails email =
      Inr (setup_output (if email = [] then ''owner'' else email) hash secret uri)"
    by (rule runSetupOwner_ok [OF line trim assms(2) hash _ refl])
      (simp only: GenerateTOTPSecret_def assms(6))
  have login: "ComparePassword idkey attempt hash = None \<longleftrightarrow>
        idkey attempt salt argonIterations argonMemoryKiB argonParallelism argonKeyLen
        = idkey pw salt argonIterations argonMemoryKiB argonParallelism argonKeyLen" for attempt
    by (rule ComparePassword_HashPassword [OF hash assms(4,5)])
  define out where "out = setup_output (if email = [] then ''owner'' else email) hash secret uri"
  note settings = setup_settings [of "if email = [] then ''owner'' else email" hash secret uri, folded out_def]
  show ?thesis
    using run [folded out_def] settings login by (intro exI [of _ out] exI [of _ hash] conjI allI) assumption+
qed

lemma setup_then_login_example:
  "\<exists>out hash. runSetupOwner (\<lambda>p s t m q l. take l (p @ replicate l (CHR ''x''))) (\<lambda>i a. Some (''SECRET'', ''otpauth''))
     (Some ''salt'') (''pw'' @ [carriage_return, newline] @ []) False [] = Inr out \<and>
     env_setting ''CCR_OWNER_EMAIL'' out = Some ''owner'' \<and> env_setting ''CCR_OWNER_PASSWORD_HASH'' out = Some hash"
proof -
  let ?idkey = "\<lambda>p s t m q l. take l (p @ replicate l (CHR ''x''))"
  have pw: "newline \<notin> set ''pw''" "''pw'' \<noteq> []" "last ''pw'' \<noteq> carriage_return" "''salt'' \<noteq> []" by simp_all
  have len: "\<And>p s t m q l. length (?idkey p s t m q l) = l" by simp
  have e: "[carriage_return, newline] \<in> {[newline], [carriage_return, newline]}" by simp
  note this = setup_then_login [where idkey = ?idkey and generate = "\<lambda>i a. Some (''SECRET'', ''otpauth'')" and email = "[]"
      and secret = "''SECRET''" and uri = "''otpauth''" and rest = "[]" and fails = False, OF pw len refl e]
  then show ?thesis unfolding if_P [OF refl] by (elim exE conjE) (intro exI conjI; assumption)
qed

text \<open>A host without white space is compared with the five spellings as it stands.\<close>

lemma checkBindAddress_join:
  assumes "\<forall>c \<in> set host. byte c < 128 \<and> \<not> is_space (byte c) \<and> c \<noteq> lbrack \<and> c \<noteq> rbrack"
    and "host \<notin> {[], ''0.0.0.0'', ''::'', ''*''}"
  shows "checkBindAddress (JoinHostPort host ''8080'') = None"
proof -
  have split: "SplitHostPort (JoinHostPort host ''8080'') = Some (host, ''8080'')"
    by (rule SplitHostPort_Join) (use assms(1) in auto)
  have trim: "TrimSpace host = host" by (rule TrimSpace_printable) (use assms(1) in blast)
  have "lbrack \<notin> set host" using assms(1) by blast
  then have "host \<noteq> ''[::]''" by (rule contrapos_nn) simp
  with split trim assms(2) show ?thesis by (simp add: checkBindAddress_def)
qed

lemma parse_unspecified:
  "ParseIP ''::0'' = Some (replicate 16 0)" "ParseIP ''0:0:0:0:0:0:0:0'' = Some (replicate 16 0)"
  by code_simp+

lemma unspecified_pass_the_guard:
  "checkBindAddress (JoinHostPort ''::0'' ''8080'') = None"
  "checkBindAddress (JoinHostPort ''0:0:0:0:0:0:0:0'' ''8080'') = None"
  by (rule checkBindAddress_join; simp add: is_space_def)+

text \<open>
  The wildcard guard is a list of spellings: an address of the same meaning that is spelled
  differently, such as the IPv6 wildcard with an explicit zero or in its full form, passes
  the guard although it is the unspecified address, on which the daemon would listen everywhere.
\<close>

lemma wildcard_spellings_accepted:
  "list_all (\<lambda>h. checkBindAddress (JoinHostPort h ''8080'') = None \<and>
                 (case ParseIP h of None \<Rightarrow> False | Some ip \<Rightarrow> IsUnspecified ip))
     [''::0'', ''0:0:0:0:0:0:0:0'']"
  by (simp only: list_all_iff list.set ball_simps unspecified_pass_the_guard parse_unspecified option.case IsUnspecified_def simp_thms)

end
