(* ===== verification/Go_FS.thy ===== *)
theory Go_FS
  imports Go_Path "HOL-Library.AList"
begin

text \<open>
  A Unix file system as the file API meets it: directories, regular files and symbolic links in a
  tree of component lists, the kernel's path walk, \<^verbatim>\<open>filepath.EvalSymlinks\<close>, and the calls of
  package \<^verbatim>\<open>os\<close> that the code makes, each with its effect and its errors.
\<close>


section \<open>Nodes and paths\<close>

datatype node = FDir | FFile string | FLink string

text \<open>
  \<open>fs_denied\<close> are the paths whose lookup fails for a reason other than their absence: permissions,
  an over-long name, an input/output error. \<open>fs_cwd\<close> is the daemon's working directory.
\<close>

record fsys =
  fs_nodes :: "(string list \<times> node) list"
  fs_denied :: "string list \<Rightarrow> bool"
  fs_cwd :: "string list"

text \<open>\<open>ENOENT\<close> carries where the missing name was looked up and whether it was the last one.\<close>

datatype fs_error =
    ENOENT "string list" bool | ENOTDIR | ELOOP | EACCES | EEXIST | EISDIR | ENOTEMPTY | EIO

fun IsNotExist :: "fs_error \<Rightarrow> bool" where
  "IsNotExist (ENOENT _ _) = True"
| "IsNotExist _ = False"

definition node_at :: "fsys \<Rightarrow> string list \<Rightarrow> node option" where
  "node_at fs cs = (if cs = [] then Some FDir else map_of (fs_nodes fs) cs)"

definition set_node :: "fsys \<Rightarrow> string list \<Rightarrow> node \<Rightarrow> fsys" where
  "set_node fs cs n = fs\<lparr>fs_nodes := AList.update cs n (fs_nodes fs)\<rparr>"

definition del_node :: "fsys \<Rightarrow> string list \<Rightarrow> fsys" where
  "del_node fs cs = fs\<lparr>fs_nodes := AList.delete cs (fs_nodes fs)\<rparr>"

text \<open>The names in a directory.\<close>

definition children :: "fsys \<Rightarrow> string list \<Rightarrow> string list" where
  "children fs d = map last (filter (\<lambda>p. p \<noteq> [] \<and> butlast p = d) (map fst (fs_nodes fs)))"

text \<open>
  The walk from \<open>dest\<close> along the remaining components, following at most \<open>n\<close> symbolic links. It is
  the loop of \<^verbatim>\<open>filepath.EvalSymlinks\<close> and, with its own bound, the kernel's name lookup.
\<close>

function walk :: "fsys \<Rightarrow> nat \<Rightarrow> string list \<Rightarrow> string list \<Rightarrow> fs_error + string list" where
  "walk fs n dest [] = Inr dest"
| "walk fs n dest (c # cs) =
     (if c = [] \<or> c = ''.'' then walk fs n dest cs
      else if c = ''..'' then walk fs n (butlast dest) cs
      else if fs_denied fs (dest @ [c]) then Inl EACCES
      else case node_at fs (dest @ [c]) of
             None \<Rightarrow> Inl (ENOENT (dest @ [c]) (cs = []))
           | Some FDir \<Rightarrow> walk fs n (dest @ [c]) cs
           | Some (FFile _) \<Rightarrow> if cs = [] then Inr (dest @ [c]) else Inl ENOTDIR
           | Some (FLink t) \<Rightarrow>
               (case n of
                  0 \<Rightarrow> Inl ELOOP
                | Suc m \<Rightarrow> walk fs m (if IsAbs t then [] else dest) (split_byte slash t @ cs)))"
  by pat_completeness auto

termination walk
  by (relation "measures [\<lambda>(fs, n, dest, cs). n, \<lambda>(fs, n, dest, cs). length cs]") auto

definition start_of :: "fsys \<Rightarrow> string \<Rightarrow> string list" where
  "start_of fs p = (if IsAbs p then [] else fs_cwd fs)"

text \<open>The two users of the walk: the library follows 255 links, the kernel 40.\<close>

definition EvalSymlinks :: "fsys \<Rightarrow> string \<Rightarrow> fs_error + string" where
  "EvalSymlinks fs p =
     (case walk fs 255 (start_of fs p) (split_byte slash p) of Inl e \<Rightarrow> Inl e | Inr cs \<Rightarrow> Inr (abs_path cs))"

definition kwalk :: "fsys \<Rightarrow> string \<Rightarrow> fs_error + string list" where
  "kwalk fs p =
     (if p = [] then Inl (ENOENT [] False) else walk fs 40 (start_of fs p) (split_byte slash p))"

text \<open>The directory that a name is looked up in when the name itself is not followed.\<close>

definition kparent :: "fsys \<Rightarrow> string \<Rightarrow> fs_error + string list \<times> string" where
  "kparent fs p =
     (let cs = split_byte slash p
      in if last cs = [] \<or> last cs = ''.'' \<or> last cs = ''..'' then Inl EISDIR
         else case walk fs 40 (start_of fs p) (butlast cs) of
                Inl (ENOENT q _) \<Rightarrow> Inl (ENOENT q False)
              | Inl e \<Rightarrow> Inl e
              | Inr d \<Rightarrow> if node_at fs d \<noteq> Some FDir then Inl ENOTDIR
                         else if fs_denied fs (d @ [last cs]) then Inl EACCES
                         else Inr (d, last cs))"

definition Abs :: "fsys \<Rightarrow> string \<Rightarrow> string" where
  "Abs fs p = (if IsAbs p then Clean p else Join (abs_path (fs_cwd fs)) p)"


section \<open>Calls of package os\<close>

definition os_stat :: "fsys \<Rightarrow> string \<Rightarrow> fs_error + string list \<times> node" where
  "os_stat fs p =
     (case kwalk fs p of
        Inl e \<Rightarrow> Inl e
      | Inr q \<Rightarrow> (case node_at fs q of None \<Rightarrow> Inl (ENOENT q True) | Some n \<Rightarrow> Inr (q, n)))"

definition os_read :: "fsys \<Rightarrow> string \<Rightarrow> fs_error + string" where
  "os_read fs p =
     (case os_stat fs p of
        Inl e \<Rightarrow> Inl e
      | Inr (_, FFile s) \<Rightarrow> Inr s
      | Inr _ \<Rightarrow> Inl EISDIR)"

definition os_readdir :: "fsys \<Rightarrow> string \<Rightarrow> fs_error + string list \<times> string list" where
  "os_readdir fs p =
     (case os_stat fs p of
        Inl e \<Rightarrow> Inl e
      | Inr (q, FDir) \<Rightarrow> Inr (q, children fs q)
      | Inr _ \<Rightarrow> Inl ENOTDIR)"

definition os_remove :: "fsys \<Rightarrow> string \<Rightarrow> fs_error option \<times> fsys" where
  "os_remove fs p =
     (case kparent fs p of
        Inl e \<Rightarrow> (Some e, fs)
      | Inr (d, e) \<Rightarrow>
          (case node_at fs (d @ [e]) of
             None \<Rightarrow> (Some (ENOENT (d @ [e]) True), fs)
           | Some FDir \<Rightarrow> if children fs (d @ [e]) = [] then (None, del_node fs (d @ [e])) else (Some ENOTEMPTY, fs)
           | Some _ \<Rightarrow> (None, del_node fs (d @ [e]))))"

text \<open>\<^verbatim>\<open>O_CREATE|O_EXCL\<close>: the name must be free, a link included.\<close>

definition os_create_excl :: "fsys \<Rightarrow> string \<Rightarrow> fs_error option \<times> fsys" where
  "os_create_excl fs p =
     (case kparent fs p of
        Inl e \<Rightarrow> (Some e, fs)
      | Inr (d, e) \<Rightarrow>
          if node_at fs (d @ [e]) = None then (None, set_node fs (d @ [e]) (FFile [])) else (Some EEXIST, fs))"

text \<open>
  \<^verbatim>\<open>O_CREATE|O_TRUNC\<close> and a write of \<open>s\<close>: links are followed, also one that leads to a name that
  does not exist yet, which is then created where the link points.
\<close>

definition os_write :: "fsys \<Rightarrow> string \<Rightarrow> string \<Rightarrow> fs_error option \<times> fsys" where
  "os_write fs p s =
     (case kwalk fs p of
        Inr q \<Rightarrow>
          (case node_at fs q of Some (FFile _) \<Rightarrow> (None, set_node fs q (FFile s)) | _ \<Rightarrow> (Some EISDIR, fs))
      | Inl (ENOENT q True) \<Rightarrow> (None, set_node fs q (FFile s))
      | Inl e \<Rightarrow> (Some e, fs))"

text \<open>\<^verbatim>\<open>Rename\<close> of a regular file or link; the new name is replaced unless it is a directory.\<close>

definition os_rename :: "fsys \<Rightarrow> string \<Rightarrow> string \<Rightarrow> fs_error option \<times> fsys" where
  "os_rename fs p q =
     (case kparent fs p of
        Inl e \<Rightarrow> (Some e, fs)
      | Inr (d, e) \<Rightarrow>
          (case kparent fs q of
             Inl e' \<Rightarrow> (Some e', fs)
           | Inr (d', e') \<Rightarrow>
               (case node_at fs (d @ [e]) of
                  None \<Rightarrow> (Some (ENOENT (d @ [e]) True), fs)
                | Some FDir \<Rightarrow> (Some EISDIR, fs)
                | Some n \<Rightarrow>
                    if node_at fs (d' @ [e']) = Some FDir then (Some EISDIR, fs)
                    else if d @ [e] = d' @ [e'] then (None, fs)
                    else (None, set_node (del_node fs (d @ [e])) (d' @ [e']) n))))"

text \<open>\<^verbatim>\<open>MkdirAll\<close> along the components of a clean path, innermost first.\<close>

definition mkdir_in :: "fsys \<Rightarrow> string list \<Rightarrow> string list \<Rightarrow> string \<Rightarrow> fs_error option \<times> fsys" where
  "mkdir_in fs start parent e =
     (case walk fs 40 start parent of
        Inl err \<Rightarrow> (Some err, fs)
      | Inr d \<Rightarrow>
          if node_at fs d \<noteq> Some FDir then (Some ENOTDIR, fs)
          else if fs_denied fs (d @ [e]) then (Some EACCES, fs)
          else case node_at fs (d @ [e]) of
                 None \<Rightarrow> (None, set_node fs (d @ [e]) FDir)
               | Some FDir \<Rightarrow> (None, fs)
               | Some _ \<Rightarrow> (Some EEXIST, fs))"

fun mkdir_all :: "fsys \<Rightarrow> string list \<Rightarrow> string list \<Rightarrow> fs_error option \<times> fsys" where
  "mkdir_all fs start [] = (if node_at fs start = Some FDir then (None, fs) else (Some ENOTDIR, fs))"
| "mkdir_all fs start (e # rs) =
     (case walk fs 40 start (rev (e # rs)) of
        Inr q \<Rightarrow> (if node_at fs q = Some FDir then (None, fs) else (Some ENOTDIR, fs))
      | Inl _ \<Rightarrow>
          (case mkdir_all fs start rs of
             (Some err, fs1) \<Rightarrow> (Some err, fs1)
           | (None, fs1) \<Rightarrow> mkdir_in fs1 start (rev rs) e))"

definition os_mkdir_all :: "fsys \<Rightarrow> string \<Rightarrow> fs_error option \<times> fsys" where
  "os_mkdir_all fs p =
     (if p = [] then (Some (ENOENT [] True), fs)
      else mkdir_all fs (start_of fs p) (rev (filter (\<lambda>c. c \<noteq> []) (split_byte slash p))))"


section \<open>Lookups after updates\<close>

lemma node_at_Nil [simp]: "node_at fs [] = Some FDir"
  by (simp add: node_at_def)

lemma node_at_set [simp]:
  "node_at (set_node fs p n) q = (if q = [] then Some FDir else if q = p then Some n else node_at fs q)"
  by (simp add: node_at_def set_node_def update_conv')

lemma node_at_del [simp]:
  "node_at (del_node fs p) q = (if q = [] then Some FDir else if q = p then None else node_at fs q)"
  by (simp add: node_at_def del_node_def delete_conv')

lemma fs_frame [simp]:
  "fs_denied (set_node fs p n) = fs_denied fs" "fs_denied (del_node fs p) = fs_denied fs"
  "fs_cwd (set_node fs p n) = fs_cwd fs" "fs_cwd (del_node fs p) = fs_cwd fs"
  by (simp_all add: set_node_def del_node_def)

lemma start_of_abs [simp]: "start_of fs (abs_path cs) = []" "start_of fs (slash # p) = []"
  by (simp_all only: start_of_def IsAbs_abs_path if_True) simp

text \<open>One step of the walk, by the kind of its next component.\<close>

definition ordinary :: "string \<Rightarrow> bool" where
  "ordinary c \<longleftrightarrow> c \<noteq> [] \<and> c \<noteq> ''.'' \<and> c \<noteq> ''..''"

lemma ordinary_plain [simp]: "plain_elem c \<Longrightarrow> ordinary c"
  by (simp add: plain_elem_def ordinary_def)

lemma plain_ordinary: "ordinary c \<Longrightarrow> slash \<notin> set c \<Longrightarrow> plain_elem c"
  by (simp add: plain_elem_def ordinary_def)

lemma walk_skip [simp]: "walk fs n dest ([] # cs) = walk fs n dest cs"
  by simp

lemma walk_dot: "c = [] \<or> c = ''.'' \<Longrightarrow> walk fs n dest (c # cs) = walk fs n dest cs"
  by auto

lemma walk_up: "walk fs n dest (''..'' # cs) = walk fs n (butlast dest) cs"
  by simp

lemma walk_ordinary:
  "ordinary c \<Longrightarrow> walk fs n dest (c # cs) =
     (if fs_denied fs (dest @ [c]) then Inl EACCES
      else case node_at fs (dest @ [c]) of
             None \<Rightarrow> Inl (ENOENT (dest @ [c]) (cs = []))
           | Some FDir \<Rightarrow> walk fs n (dest @ [c]) cs
           | Some (FFile _) \<Rightarrow> if cs = [] then Inr (dest @ [c]) else Inl ENOTDIR
           | Some (FLink t) \<Rightarrow>
               (case n of
                  0 \<Rightarrow> Inl ELOOP
                | Suc m \<Rightarrow> walk fs m (if IsAbs t then [] else dest) (split_byte slash t @ cs)))"
  by (simp only: ordinary_def walk.simps if_False simp_thms)

declare walk.simps(2) [simp del]

lemma component_cases:
  obtains "c = [] \<or> c = ''.''" | "c = ''..''" | "ordinary c"
  by (auto simp: ordinary_def)


section \<open>Real paths\<close>

text \<open>A real directory is reached from the root without any link; a real path may end in a file.\<close>

inductive real_dir :: "fsys \<Rightarrow> string list \<Rightarrow> bool" for fs where
  real_root: "real_dir fs []"
| real_sub: "real_dir fs d \<Longrightarrow> plain_elem c \<Longrightarrow> \<not> fs_denied fs (d @ [c]) \<Longrightarrow> node_at fs (d @ [c]) = Some FDir
             \<Longrightarrow> real_dir fs (d @ [c])"

definition real_path :: "fsys \<Rightarrow> string list \<Rightarrow> bool" where
  "real_path fs q \<longleftrightarrow> real_dir fs q \<or>
     (\<exists>d c s. q = d @ [c] \<and> real_dir fs d \<and> plain_elem c \<and> \<not> fs_denied fs q \<and> node_at fs q = Some (FFile s))"

inductive_simps real_dir_snoc [simp]: "real_dir fs (d @ [c])"

declare real_root [simp]

lemma real_dir_butlast: "real_dir fs d \<Longrightarrow> real_dir fs (butlast d)"
  by (cases d rule: rev_cases) simp_all

lemma real_dir_plain: "real_dir fs d \<Longrightarrow> list_all plain_elem d"
  by (induction rule: real_dir.induct) simp_all

lemma real_dir_node: "real_dir fs d \<Longrightarrow> node_at fs d = Some FDir"
  by (cases d rule: rev_cases) simp_all

lemma real_path_plain: "real_path fs q \<Longrightarrow> list_all plain_elem q"
  by (auto simp: real_path_def dest: real_dir_plain)

lemma real_path_node: "real_path fs q \<Longrightarrow> \<exists>n. node_at fs q = Some n \<and> (n = FDir \<longrightarrow> real_dir fs q)"
  by (auto simp: real_path_def dest: real_dir_node)

text \<open>What a walk arrives at is real.\<close>

lemma walk_real:
  assumes "walk fs n dest cs = Inr q" "real_dir fs dest" "\<forall>c \<in> set cs. slash \<notin> set c"
  shows "real_path fs q"
  using assms
proof (induction fs n dest cs rule: walk.induct)
  case (1 fs n dest)
  then show ?case by (simp add: real_path_def)
next
  case (2 fs n dest c cs)
  show ?case
  proof (cases c rule: component_cases)
    case 1
    with 2 show ?thesis by (simp add: walk_dot)
  next
    case c: 2
    have "walk fs n (butlast dest) cs = Inr q" using "2.prems"(1) c by (simp add: walk_up)
    with "2.IH"(2) c "2.prems" show ?thesis by (simp add: real_dir_butlast)
  next
    case 3
    then have plain: "plain_elem c" using "2.prems"(3) by (simp add: plain_ordinary)
    note c = 3 [unfolded ordinary_def]
    note w = "2.prems"(1) [unfolded walk_ordinary [OF 3]]
    have nd: "\<not> fs_denied fs (dest @ [c])" using w by (auto split: if_splits)
    obtain m where Some: "node_at fs (dest @ [c]) = Some m" using w nd by (auto split: option.splits)
    show ?thesis
    proof (cases m)
      case FDir
      have "real_dir fs (dest @ [c])" using "2.prems"(2) plain nd Some FDir by simp
      with "2.IH"(3) c nd Some FDir w "2.prems"(3) show ?thesis by auto
    next
      case (FFile s)
      with Some nd w have "q = dest @ [c]" by (auto split: if_splits)
      with FFile Some nd plain "2.prems"(2) show ?thesis by (auto simp: real_path_def)
    next
      case (FLink t)
      have sp: "\<forall>x \<in> set (split_byte slash t @ cs). slash \<notin> set x"
        using "2.prems"(3) by (auto dest: split_byte_parts)
      obtain k where n: "n = Suc k" using w nd Some FLink by (cases n) simp_all
      have "walk fs k (if IsAbs t then [] else dest) (split_byte slash t @ cs) = Inr q"
        using w nd Some FLink n by (simp del: IsAbs_iff)
      moreover have "real_dir fs (if IsAbs t then [] else dest)" using "2.prems"(2) by simp
      ultimately show ?thesis using "2.IH"(4) [OF _ _ nd Some FLink n] c sp by blast
    qed
  qed
qed

text \<open>And walking along a real path goes nowhere else, however few links may be followed.\<close>

lemma walk_along: "real_dir fs d \<Longrightarrow> walk fs n [] (d @ cs) = walk fs n d cs"
proof (induction arbitrary: cs rule: real_dir.induct)
  case (real_sub d c)
  then show ?case by (simp add: walk_ordinary)
qed simp

lemma walk_real_path: "real_path fs q \<Longrightarrow> walk fs n [] q = Inr q"
  using walk_along [of fs q n "[]"] by (auto simp: real_path_def walk_along walk_ordinary)

text \<open>More links allowed change nothing but a refusal for too many of them.\<close>

lemma walk_more: "walk fs n dest cs = r \<Longrightarrow> r \<noteq> Inl ELOOP \<Longrightarrow> n \<le> m \<Longrightarrow> walk fs m dest cs = r"
proof (induction fs n dest cs arbitrary: m rule: walk.induct)
  case (2 fs n dest c cs)
  show ?case
  proof (cases c rule: component_cases)
    case 1
    with 2 show ?thesis by (simp add: walk_dot)
  next
    case c: 2
    have "walk fs n (butlast dest) cs = r" using "2.prems"(1) c by (simp add: walk_up)
    then have "walk fs m (butlast dest) cs = r" using "2.IH"(2) c "2.prems"(2,3) by simp
    with c show ?thesis by (simp add: walk_up)
  next
    case 3
    note c = 3 [unfolded ordinary_def]
    note w = "2.prems"(1) [unfolded walk_ordinary [OF 3]]
    show ?thesis
    proof (cases "\<exists>t. \<not> fs_denied fs (dest @ [c]) \<and> node_at fs (dest @ [c]) = Some (FLink t)")
      case True
      then obtain t where nd: "\<not> fs_denied fs (dest @ [c])" and t: "node_at fs (dest @ [c]) = Some (FLink t)" by blast
      obtain k where n: "n = Suc k" using w nd t "2.prems"(2) by (cases n) auto
      obtain j where m: "m = Suc j" "k \<le> j" using "2.prems"(3) n by (cases m) auto
      have "walk fs k (if IsAbs t then [] else dest) (split_byte slash t @ cs) = r"
        using w nd t n by (simp del: IsAbs_iff)
      then have "walk fs j (if IsAbs t then [] else dest) (split_byte slash t @ cs) = r"
        using "2.IH"(4) [OF _ _ nd t refl n] c "2.prems"(2) m by blast
      with nd t m 3 show ?thesis by (simp add: walk_ordinary del: IsAbs_iff)
    next
      case no_link: False
      show ?thesis
      proof (cases "\<not> fs_denied fs (dest @ [c]) \<and> node_at fs (dest @ [c]) = Some FDir")
        case True
        then have "walk fs n (dest @ [c]) cs = r" using w by simp
        then have "walk fs m (dest @ [c]) cs = r" using "2.IH"(3) c True "2.prems"(2,3) by simp
        with True 3 show ?thesis by (simp add: walk_ordinary)
      next
        case False
        with no_link w 3 show ?thesis by (auto simp: walk_ordinary split: option.splits node.splits)
      qed
    qed
  qed
qed simp

text \<open>A walk along two parts: it continues where the first part ended, or the first part is a file.\<close>

lemma walk_append:
  "walk fs n dest xs = Inr q \<Longrightarrow> ys \<noteq> [] \<Longrightarrow>
     (\<exists>k \<le> n. walk fs n dest (xs @ ys) = walk fs k q ys) \<or> walk fs n dest (xs @ ys) = Inl ENOTDIR"
proof (induction fs n dest xs rule: walk.induct)
  case (2 fs n dest c cs)
  show ?case
  proof (cases c rule: component_cases)
    case 1
    with 2 show ?thesis by (simp add: walk_dot)
  next
    case c: 2
    have "walk fs n (butlast dest) cs = Inr q" using "2.prems"(1) c by (simp add: walk_up)
    with "2.IH"(2) c "2.prems"(2) show ?thesis by (simp add: walk_up)
  next
    case 3
    note c = 3 [unfolded ordinary_def]
    note w = "2.prems"(1) [unfolded walk_ordinary [OF 3]]
    have nd: "\<not> fs_denied fs (dest @ [c])" using w by (auto split: if_splits)
    obtain m where m: "node_at fs (dest @ [c]) = Some m" using w nd by (auto split: option.splits)
    show ?thesis
    proof (cases m)
      case FDir
      have "walk fs n (dest @ [c]) cs = Inr q" using w nd m FDir by simp
      then have "(\<exists>k \<le> n. walk fs n (dest @ [c]) (cs @ ys) = walk fs k q ys) \<or> walk fs n (dest @ [c]) (cs @ ys) = Inl ENOTDIR"
        using "2.IH"(3) c nd m FDir "2.prems"(2) by simp
      with m nd FDir 3 show ?thesis by (simp add: walk_ordinary)
    next
      case (FFile s)
      with m nd 3 "2.prems"(2) show ?thesis by (simp add: walk_ordinary)
    next
      case (FLink t)
      obtain j where n: "n = Suc j" using w nd m FLink by (cases n) simp_all
      have "walk fs j (if IsAbs t then [] else dest) (split_byte slash t @ cs) = Inr q"
        using w nd m FLink n by (simp del: IsAbs_iff)
      from "2.IH"(4) [OF _ _ nd m FLink n this "2.prems"(2)] c
      have "(\<exists>k \<le> j. walk fs j (if IsAbs t then [] else dest) (split_byte slash t @ cs @ ys) = walk fs k q ys) \<or>
          walk fs j (if IsAbs t then [] else dest) (split_byte slash t @ cs @ ys) = Inl ENOTDIR" by simp
      with m nd FLink n 3 show ?thesis by (auto simp: walk_ordinary simp del: IsAbs_iff intro: le_SucI)
    qed
  qed
qed auto

lemma walk_prefix_ok: "walk fs n dest (xs @ ys) = Inr q \<Longrightarrow> \<exists>p. walk fs n dest xs = Inr p"
proof (induction fs n dest xs rule: walk.induct)
  case (2 fs n dest c cs)
  show ?case
  proof (cases c rule: component_cases)
    case 1
    with 2 show ?thesis by (simp add: walk_dot)
  next
    case c: 2
    have "walk fs n (butlast dest) (cs @ ys) = Inr q" using "2.prems" c by (simp add: walk_up)
    with "2.IH"(2) c show ?thesis by (simp add: walk_up)
  next
    case 3
    note c = 3 [unfolded ordinary_def]
    note w = "2.prems" [unfolded append_Cons walk_ordinary [OF 3]]
    have nd: "\<not> fs_denied fs (dest @ [c])" using w by (auto split: if_splits)
    obtain m where m: "node_at fs (dest @ [c]) = Some m" using w nd by (auto split: option.splits)
    show ?thesis
    proof (cases m)
      case FDir
      with w nd m have "walk fs n (dest @ [c]) (cs @ ys) = Inr q" by simp
      with "2.IH"(3) c nd m FDir 3 show ?thesis by (simp add: walk_ordinary)
    next
      case (FFile s)
      with m nd 3 w show ?thesis by (simp add: walk_ordinary split: if_splits)
    next
      case (FLink t)
      obtain j where n: "n = Suc j" using w nd m FLink by (cases n) simp_all
      have "walk fs j (if IsAbs t then [] else dest) ((split_byte slash t @ cs) @ ys) = Inr q"
        using w nd m FLink n by (simp del: IsAbs_iff)
      from "2.IH"(4) [OF _ _ nd m FLink n this] c m nd FLink n 3
      show ?thesis by (simp add: walk_ordinary del: IsAbs_iff)
    qed
  qed
qed simp

text \<open>A name that is missing with some number of links is reached with none.\<close>

lemma walk_missing: "walk fs n dest xs = Inl (ENOENT z b) \<Longrightarrow> walk fs m dest (xs @ ys) \<noteq> Inr r"
proof
  assume miss: "walk fs n dest xs = Inl (ENOENT z b)" and ok: "walk fs m dest (xs @ ys) = Inr r"
  obtain p where "walk fs m dest xs = Inr p" using walk_prefix_ok [OF ok] by blast
  then have "walk fs (max n m) dest xs = Inr p" by (rule walk_more) simp_all
  moreover have "walk fs (max n m) dest xs = Inl (ENOENT z b)" using miss by (rule walk_more) simp_all
  ultimately show False by simp
qed

text \<open>The calls on a real directory and an ordinary name in it.\<close>

lemma split_abs_snoc:
  assumes "list_all plain_elem d" "plain_elem e"
  shows "split_byte slash (abs_path (d @ [e])) = [] # d @ [e]"
  using assms by (simp add: split_abs_path)

lemma kwalk_snoc:
  assumes "real_dir fs d" "plain_elem e"
  shows "kwalk fs (abs_path (d @ [e])) = walk fs 40 d [e]"
proof -
  have "abs_path (d @ [e]) \<noteq> []" by (simp add: abs_path_def)
  with split_abs_snoc [OF real_dir_plain [OF assms(1)] assms(2)] walk_along [OF assms(1), of 40 "[e]"]
  show ?thesis by (simp add: kwalk_def)
qed

lemma kparent_snoc:
  assumes "real_dir fs d" "plain_elem e"
  shows "kparent fs (abs_path (d @ [e])) = (if fs_denied fs (d @ [e]) then Inl EACCES else Inr (d, e))"
proof -
  have "walk fs 40 [] d = Inr d" using assms(1) by (intro walk_real_path) (simp add: real_path_def)
  with split_abs_snoc [OF real_dir_plain [OF assms(1)] assms(2)] assms(2) real_dir_node [OF assms(1)] show ?thesis
    by (simp add: kparent_def Let_def butlast_append plain_elem_def)
qed

lemma os_stat_file:
  assumes "real_dir fs d" "plain_elem e" "\<not> fs_denied fs (d @ [e])" "node_at fs (d @ [e]) = Some (FFile s)"
  shows "os_stat fs (abs_path (d @ [e])) = Inr (d @ [e], FFile s)"
  using assms by (simp add: os_stat_def kwalk_snoc walk_ordinary)

lemma os_read_file:
  assumes "real_dir fs d" "plain_elem e" "\<not> fs_denied fs (d @ [e])" "node_at fs (d @ [e]) = Some (FFile s)"
  shows "os_read fs (abs_path (d @ [e])) = Inr s"
  using os_stat_file [OF assms] by (simp add: os_read_def)

lemma os_remove_snoc:
  assumes "real_dir fs d" "plain_elem e" "\<not> fs_denied fs (d @ [e])" "node_at fs (d @ [e]) = Some n" "n \<noteq> FDir"
  shows "os_remove fs (abs_path (d @ [e])) = (None, del_node fs (d @ [e]))"
  using assms by (cases n) (simp_all add: os_remove_def kparent_snoc)

text \<open>Directories made in a row, from a real path on.\<close>

definition grown :: "fsys \<Rightarrow> fsys \<Rightarrow> string list \<Rightarrow> string list \<Rightarrow> bool" where
  "grown fs fs' q xs \<longleftrightarrow> fs_denied fs' = fs_denied fs \<and> fs_cwd fs' = fs_cwd fs \<and>
     (\<forall>p. node_at fs' p = node_at fs p \<or>
          (node_at fs p = None \<and> node_at fs' p = Some FDir \<and> prefix p (q @ xs)))"

lemma grown_refl [simp]: "grown fs fs q xs"
  by (simp add: grown_def)

lemma grown_kept: "grown fs fs' q xs \<Longrightarrow> node_at fs p = Some n \<Longrightarrow> node_at fs' p = Some n"
  unfolding grown_def by (metis option.distinct(1))

lemma grown_real_dir: "real_dir fs d \<Longrightarrow> grown fs fs' q xs \<Longrightarrow> real_dir fs' d"
proof (induction rule: real_dir.induct)
  case (real_sub d c)
  then show ?case using grown_kept [OF real_sub.prems] by (simp add: grown_def)
qed simp

lemma mkdir_all_real:
  assumes "mkdir_all fs [] (rev (q @ xs)) = (err, fs')" "real_path fs q" "list_all plain_elem xs"
    and "xs \<noteq> [] \<Longrightarrow> \<forall>k ys r. walk fs k q (hd xs # ys) \<noteq> Inr r"
  shows "grown fs fs' q xs \<and> (err = None \<longrightarrow> real_dir fs' (q @ xs))"
  using assms
proof (induction xs arbitrary: err fs' rule: rev_induct)
  case Nil
  show ?case
  proof (cases q rule: rev_cases)
    case Nil
    with \<open>mkdir_all fs [] (rev (q @ [])) = (err, fs')\<close> show ?thesis by simp
  next
    case (snoc d e)
    have "walk fs 40 [] (d @ [e]) = Inr (d @ [e])" using walk_real_path [OF Nil.prems(2)] snoc by simp
    with Nil.prems(1,2) snoc real_path_node [OF Nil.prems(2)] show ?thesis by (auto split: if_splits)
  qed
next
  case (snoc x xs)
  have "walk fs 40 [] (q @ xs @ [x]) \<noteq> Inr r" for r
  proof
    assume w: "walk fs 40 [] (q @ xs @ [x]) = Inr r"
    obtain h ys where h: "xs @ [x] = h # ys" by (cases "xs @ [x]") auto
    have "walk fs 40 [] q = Inr q" by (rule walk_real_path [OF snoc.prems(2)])
    from walk_append [OF this, of "h # ys"] w h obtain k where "walk fs k q (h # ys) = Inr r" by auto
    moreover have "walk fs k q (h # ys) \<noteq> Inr r" using snoc.prems(4) h by simp
    ultimately show False by simp
  qed
  then obtain e where e: "walk fs 40 [] (q @ xs @ [x]) = Inl e" by (cases "walk fs 40 [] (q @ xs @ [x])") auto
  obtain err1 fs1 where rec: "mkdir_all fs [] (rev (q @ xs)) = (err1, fs1)" by fastforce
  have IH: "grown fs fs1 q xs \<and> (err1 = None \<longrightarrow> real_dir fs1 (q @ xs))"
  proof (rule snoc.IH [OF rec snoc.prems(2)])
    show "list_all plain_elem xs" using snoc.prems(3) by simp
    show "xs \<noteq> [] \<Longrightarrow> \<forall>k ys r. walk fs k q (hd xs # ys) \<noteq> Inr r" using snoc.prems(4) by simp
  qed
  have longer: "grown fs fs1 q (xs @ [x])"
    using IH unfolding grown_def by (metis append_assoc prefix_prefix)
  show ?case
  proof (cases err1)
    case (Some e1)
    with snoc.prems(1) e rec longer show ?thesis by auto
  next
    case None
    then have real: "real_dir fs1 (q @ xs)" and x: "plain_elem x" using IH snoc.prems(3) by simp_all
    have w: "walk fs1 40 [] (q @ xs) = Inr (q @ xs)" using real by (intro walk_real_path) (simp add: real_path_def)
    have step: "mkdir_in fs1 [] (q @ xs) x = (err, fs')" using snoc.prems(1) e rec None by simp
    then have cases: "err \<noteq> None \<and> fs' = fs1 \<or> err = None \<and> \<not> fs_denied fs1 (q @ xs @ [x]) \<and>
        (fs' = fs1 \<and> node_at fs1 (q @ xs @ [x]) = Some FDir \<or>
         fs' = set_node fs1 (q @ xs @ [x]) FDir \<and> node_at fs1 (q @ xs @ [x]) = None)"
      using w real_dir_node [OF real] by (auto simp: mkdir_in_def split: if_splits option.splits node.splits)
    have new: "grown fs (set_node fs1 (q @ xs @ [x]) FDir) q (xs @ [x])" if "node_at fs1 (q @ xs @ [x]) = None"
      using longer that unfolding grown_def by (metis fs_frame(1,3) node_at_Nil node_at_set option.distinct(1) prefix_order.refl)
    have kept: "real_dir (set_node fs1 (q @ xs @ [x]) FDir) (q @ xs)" if "node_at fs1 (q @ xs @ [x]) = None"
    proof (rule grown_real_dir [OF real])
      show "grown fs1 (set_node fs1 (q @ xs @ [x]) FDir) (q @ xs @ [x]) []" using that by (auto simp: grown_def)
    qed
    have snoc_dir: "real_dir f ((q @ xs) @ [x])" if "real_dir f (q @ xs)" "\<not> fs_denied f (q @ xs @ [x])"
      "node_at f (q @ xs @ [x]) = Some FDir" for f
      using real_sub [of f "q @ xs" x] that x by simp
    from cases consider (failed) "err \<noteq> None" "fs' = fs1"
      | (there) "fs' = fs1" "\<not> fs_denied fs1 (q @ xs @ [x])" "node_at fs1 (q @ xs @ [x]) = Some FDir"
      | (made) "fs' = set_node fs1 (q @ xs @ [x]) FDir" "\<not> fs_denied fs1 (q @ xs @ [x])" "node_at fs1 (q @ xs @ [x]) = None"
      by argo
    then show ?thesis
    proof cases
      case failed
      with longer show ?thesis by auto
    next
      case there
      with longer snoc_dir [OF real] show ?thesis by simp
    next
      case made
      with new kept snoc_dir [of fs'] show ?thesis by simp
    qed
  qed
qed

end
