(* ===== verification/Files_Store.thy ===== *)
theory Files_Store
  imports Go_FS "HOL-Library.List_Lexorder" "HOL-Library.Char_ord"
begin

text \<open>
  The file store, \<^verbatim>\<open>files/store.go\<close>: the allowlist of roots, the resolution of client paths
  against it and the operations on resolved paths. SHA-256 is a parameter.
\<close>


section \<open>Calls and errors\<close>

text \<open>The places where the operating system may fail for reasons outside the file system's state.\<close>

datatype io_site =
    ReadDirectory | StatFile | HashOpen | OpenFile | RemoveFile | CreatePart | WriteState | ReadState
  | StatPart | OpenPart | MakeTargetDir | RenamePart | CopyPart | RemovePart | RemoveState

text \<open>
  What one call draws from the environment: the failures, how much of a failing write was done, the
  attributes that listing reads, the entries that vanish while it does, random bytes, and the bytes
  that the request body delivers before it ends or breaks off.
\<close>

record file_call =
  fc_fault :: "io_site \<Rightarrow> bool"
  fc_partial :: nat
  fc_mtime :: "string list \<Rightarrow> int"
  fc_size :: "string list \<Rightarrow> int" \<comment> \<open>of what is not a regular file\<close>
  fc_vanished :: "string \<Rightarrow> bool"
  fc_rnd :: "string option"
  fc_body :: string
  fc_broken :: bool

text \<open>\<open>NoReturn\<close> stands for a resolution that does not return; it is shown never to occur.\<close>

datatype store_error =
    ErrOutsideRoots | NoRoots | FileError fs_error | IsADirectory | RefusingDirectory | NoReturn

type_synonym sha256 = "string \<Rightarrow> string"


section \<open>Roots and resolution\<close>

record Store =
  st_roots :: "string list"

definition resolve_root :: "fsys \<Rightarrow> string \<Rightarrow> string" where
  "resolve_root fs r =
     (let a = Abs fs r in Clean (case EvalSymlinks fs a of Inr real \<Rightarrow> real | Inl _ \<Rightarrow> a))"

definition NewStore :: "fsys \<Rightarrow> string list \<Rightarrow> store_error + Store" where
  "NewStore fs roots =
     (if roots = [] then Inl NoRoots else Inr \<lparr>st_roots = map (resolve_root fs) roots\<rparr>)"

definition Roots :: "Store \<Rightarrow> string list" where
  "Roots s = st_roots s"

text \<open>The loop of \<^verbatim>\<open>resolveExisting\<close>, from the path upwards; \<open>None\<close> would be a loop without end.\<close>

partial_function (option) resolve_loop ::
    "fsys \<Rightarrow> string \<Rightarrow> string \<Rightarrow> string \<Rightarrow> (fs_error + string) option" where
  "resolve_loop fs path current remainder =
     (case EvalSymlinks fs current of
        Inr real \<Rightarrow> Some (Inr (if remainder = [] then real else Join real remainder))
      | Inl e \<Rightarrow>
          if \<not> IsNotExist e then Some (Inl e)
          else let parent = Dir current
               in if parent = current then Some (Inr path)
                  else resolve_loop fs path parent (Join (Base current) remainder))"

definition resolveExisting :: "fsys \<Rightarrow> string \<Rightarrow> (fs_error + string) option" where
  "resolveExisting fs path = resolve_loop fs path path []"

definition Resolve :: "fsys \<Rightarrow> Store \<Rightarrow> string \<Rightarrow> store_error + string" where
  "Resolve fs s rel =
     (if CHR 0x00 \<in> set rel then Inl ErrOutsideRoots
      else let candidate = Clean (if IsAbs rel then rel else Join (hd (st_roots s)) rel)
           in case resolveExisting fs candidate of
                None \<Rightarrow> Inl NoReturn
              | Some (Inl e) \<Rightarrow> Inl (FileError e)
              | Some (Inr real) \<Rightarrow>
                  if list_ex (\<lambda>root. real = root \<or> HasPrefix real (root @ [slash])) (st_roots s)
                  then Inr real else Inl ErrOutsideRoots)"


section \<open>Listing\<close>

record Entry =
  e_Name :: string
  e_Size :: int
  e_IsDir :: bool
  e_ModTime :: int

text \<open>
  The order of the listing: directories first, then by name, byte by byte. The comparison handed to
  the sorting routine is a strict linear order, as that routine demands.
\<close>

datatype entry_key = EntryKey bool string

instantiation entry_key :: linorder
begin

fun less_entry_key :: "entry_key \<Rightarrow> entry_key \<Rightarrow> bool" where
  "less_entry_key (EntryKey d n) (EntryKey d' n') \<longleftrightarrow> (if d \<noteq> d' then d else n < n')"

definition less_eq_entry_key :: "entry_key \<Rightarrow> entry_key \<Rightarrow> bool" where
  "less_eq_entry_key a b \<longleftrightarrow> a = b \<or> a < b"

instance
proof
  fix x y z :: entry_key
  show "x < y \<longleftrightarrow> x \<le> y \<and> \<not> y \<le> x"
    by (cases x; cases y) (auto simp: less_eq_entry_key_def)
  show "x \<le> x" by (simp add: less_eq_entry_key_def)
  show "x \<le> y \<Longrightarrow> y \<le> z \<Longrightarrow> x \<le> z"
    by (cases x; cases y; cases z) (auto simp: less_eq_entry_key_def split: if_splits)
  show "x \<le> y \<Longrightarrow> y \<le> x \<Longrightarrow> x = y"
    by (cases x; cases y) (auto simp: less_eq_entry_key_def split: if_splits)
  show "x \<le> y \<or> y \<le> x"
    by (cases x; cases y) (auto simp: less_eq_entry_key_def)
qed

end

definition sort_key_of :: "Entry \<Rightarrow> entry_key" where
  "sort_key_of e = EntryKey (e_IsDir e) (e_Name e)"

definition entry_of :: "file_call \<Rightarrow> fsys \<Rightarrow> string list \<Rightarrow> string \<Rightarrow> Entry option" where
  "entry_of c fs q n =
     (if fc_vanished c n then None
      else Some \<lparr>e_Name = n,
                 e_Size = (case node_at fs (q @ [n]) of Some (FFile s) \<Rightarrow> int (length s) | _ \<Rightarrow> fc_size c (q @ [n])),
                 e_IsDir = (node_at fs (q @ [n]) = Some FDir),
                 e_ModTime = fc_mtime c (q @ [n])\<rparr>)"

definition ListDir :: "file_call \<Rightarrow> fsys \<Rightarrow> Store \<Rightarrow> string \<Rightarrow> store_error + Entry list" where
  "ListDir c fs s rel =
     (case Resolve fs s rel of
        Inl e \<Rightarrow> Inl e
      | Inr path \<Rightarrow>
          if fc_fault c ReadDirectory then Inl (FileError EIO)
          else case os_readdir fs path of
                 Inl e \<Rightarrow> Inl (FileError e)
               | Inr (q, names) \<Rightarrow> Inr (sort_key sort_key_of (List.map_filter (entry_of c fs q) names)))"


section \<open>Reading and deleting\<close>

definition HashFile :: "sha256 \<Rightarrow> file_call \<Rightarrow> fsys \<Rightarrow> string \<Rightarrow> fs_error + string" where
  "HashFile sha c fs path =
     (if fc_fault c HashOpen then Inl EIO
      else case os_read fs path of Inl e \<Rightarrow> Inl e | Inr s \<Rightarrow> Inr (hex_encode (sha s)))"

text \<open>The content stands for the open file.\<close>

definition OpenStored :: "sha256 \<Rightarrow> file_call \<Rightarrow> fsys \<Rightarrow> Store \<Rightarrow> string \<Rightarrow> store_error + (string \<times> int \<times> string)" where
  "OpenStored sha c fs s rel =
     (case Resolve fs s rel of
        Inl e \<Rightarrow> Inl e
      | Inr path \<Rightarrow>
          if fc_fault c StatFile then Inl (FileError EIO)
          else case os_stat fs path of
                 Inl e \<Rightarrow> Inl (FileError e)
               | Inr (_, n) \<Rightarrow>
                   if n = FDir then Inl IsADirectory
                   else case HashFile sha c fs path of
                          Inl e \<Rightarrow> Inl (FileError e)
                        | Inr digest \<Rightarrow>
                            if fc_fault c OpenFile then Inl (FileError EIO)
                            else case os_read fs path of
                                   Inl e \<Rightarrow> Inl (FileError e)
                                 | Inr content \<Rightarrow> Inr (content, int (length content), digest))"

definition DeleteFile :: "file_call \<Rightarrow> fsys \<Rightarrow> Store \<Rightarrow> string \<Rightarrow> store_error option \<times> fsys" where
  "DeleteFile c fs s rel =
     (case Resolve fs s rel of
        Inl e \<Rightarrow> (Some e, fs)
      | Inr path \<Rightarrow>
          if fc_fault c StatFile then (Some (FileError EIO), fs)
          else case os_stat fs path of
                 Inl e \<Rightarrow> (Some (FileError e), fs)
               | Inr (_, n) \<Rightarrow>
                   if n = FDir then (Some RefusingDirectory, fs)
                   else if fc_fault c RemoveFile then (Some (FileError EIO), fs)
                   else case os_remove fs path of
                          (Some e, fs1) \<Rightarrow> (Some (FileError e), fs1)
                        | (None, fs1) \<Rightarrow> (None, fs1))"


section \<open>Resolution on components\<close>

lemma EvalSymlinks_abs_path:
  assumes "list_all plain_elem cs"
  shows "EvalSymlinks fs (abs_path cs) = (case walk fs 255 [] cs of Inl e \<Rightarrow> Inl e | Inr q \<Rightarrow> Inr (abs_path q))"
  using assms by (cases "cs = []") (simp_all add: EvalSymlinks_def split_abs_path)

lemma kwalk_abs_path:
  assumes "list_all plain_elem cs"
  shows "kwalk fs (abs_path cs) = walk fs 40 [] cs"
proof -
  have "abs_path cs \<noteq> []" by (simp add: abs_path_def)
  with assms show ?thesis by (cases "cs = []") (simp_all add: kwalk_def split_abs_path)
qed

lemma join_plain_Nil [simp]: "list_all plain_elem rs \<Longrightarrow> join_byte slash rs = [] \<longleftrightarrow> rs = []"
  by (cases rs) (auto simp: join_byte_Cons plain_elem_def)

text \<open>
  The loop returns, and what it returns: the real form of the longest prefix that exists, with the
  rest appended.
\<close>

lemma resolve_loop_result:
  assumes "list_all plain_elem cs" "list_all plain_elem rs"
  shows "\<exists>r. resolve_loop fs path (abs_path cs) (join_byte slash rs) = Some r \<and>
     (case r of
        Inl e \<Rightarrow> \<not> IsNotExist e
      | Inr p \<Rightarrow> \<exists>ds us q. cs = ds @ us \<and> walk fs 255 [] ds = Inr q \<and> p = abs_path (q @ us @ rs) \<and>
                 (us \<noteq> [] \<longrightarrow> (\<exists>z b. walk fs 255 [] (ds @ [hd us]) = Inl (ENOENT z b))))"
  using assms
proof (induction cs arbitrary: rs rule: rev_induct)
  case Nil
  have "real_path fs []" by (simp add: real_path_def)
  have "Join (abs_path []) (join_byte slash rs) = abs_path rs" using Nil Join_abs_join [of "[]" rs] by simp
  then have "resolve_loop fs path (abs_path []) (join_byte slash rs) = Some (Inr (abs_path rs))"
    using Nil EvalSymlinks_abs_path [of "[]" fs] by (subst resolve_loop.simps) (simp add: abs_path_def)
  then show ?case by simp
next
  case (snoc e cs)
  have e: "plain_elem e" and cs: "list_all plain_elem cs" using snoc.prems by simp_all
  note eval = EvalSymlinks_abs_path [OF snoc.prems(1), of fs]
  show ?case
  proof (cases "walk fs 255 [] (cs @ [e])")
    case (Inr q)
    have q: "list_all plain_elem q"
      using walk_real [OF Inr] snoc.prems(1) by (force simp: list_all_iff plain_elem_def dest!: real_path_plain)
    have "resolve_loop fs path (abs_path (cs @ [e])) (join_byte slash rs) = Some (Inr (abs_path (q @ rs)))"
      using eval Inr Join_abs_join [OF q snoc.prems(2)] snoc.prems(2) by (subst resolve_loop.simps) simp
    then show ?thesis
      by (intro exI [of _ "Inr (abs_path (q @ rs))"] conjI, assumption, unfold sum.case,
          intro exI [of _ "cs @ [e]"] exI [of _ "[]"] exI [of _ q]) (simp add: Inr)
  next
    case (Inl err)
    show ?thesis
    proof (cases "IsNotExist err")
      case False
      then show ?thesis using eval Inl by (subst resolve_loop.simps) simp
    next
      case True
      then obtain z b where err: "err = ENOENT z b" by (cases err) simp_all
      have "abs_path cs \<noteq> abs_path (cs @ [e])" using abs_path_inject [of cs "cs @ [e]"] snoc.prems(1) by simp
      then have step: "resolve_loop fs path (abs_path (cs @ [e])) (join_byte slash rs)
          = resolve_loop fs path (abs_path cs) (join_byte slash (e # rs))"
        using eval Inl True Dir_abs_path [OF cs e] Base_abs_path [OF e] Join_elem_join [OF e snoc.prems(2)]
        by (subst resolve_loop.simps) (simp add: Let_def)
      have "list_all plain_elem (e # rs)" using e snoc.prems(2) by simp
      from snoc.IH [OF cs this] obtain r where
        r: "resolve_loop fs path (abs_path cs) (join_byte slash (e # rs)) = Some r"
        and res: "case r of Inl e \<Rightarrow> \<not> IsNotExist e
          | Inr p \<Rightarrow> \<exists>ds us q. cs = ds @ us \<and> walk fs 255 [] ds = Inr q \<and> p = abs_path (q @ us @ e # rs) \<and>
                 (us \<noteq> [] \<longrightarrow> (\<exists>z b. walk fs 255 [] (ds @ [hd us]) = Inl (ENOENT z b)))"
        by blast
      show ?thesis
      proof (cases r)
        case (Inl e')
        with r res step show ?thesis by simp
      next
        case (Inr p)
        with res obtain ds us q where *: "cs = ds @ us" "walk fs 255 [] ds = Inr q" "p = abs_path (q @ us @ e # rs)"
          "us \<noteq> [] \<longrightarrow> (\<exists>z b. walk fs 255 [] (ds @ [hd us]) = Inl (ENOENT z b))" by auto
        have "cs @ [e] = ds @ (us @ [e])" "p = abs_path (q @ (us @ [e]) @ rs)" using * by simp_all
        moreover have "\<exists>z b. walk fs 255 [] (ds @ [hd (us @ [e])]) = Inl (ENOENT z b)"
          using * Inl err \<open>walk fs 255 [] (cs @ [e]) = Inl err\<close> by (cases us) auto
        ultimately have res': "case r of Inl e \<Rightarrow> \<not> IsNotExist e
          | Inr p \<Rightarrow> \<exists>ds us q. cs @ [e] = ds @ us \<and> walk fs 255 [] ds = Inr q \<and> p = abs_path (q @ us @ rs) \<and>
                 (us \<noteq> [] \<longrightarrow> (\<exists>z b. walk fs 255 [] (ds @ [hd us]) = Inl (ENOENT z b)))"
          using *(2) unfolding Inr sum.case
          by (intro exI [of _ ds] exI [of _ "us @ [e]"] exI [of _ q]) simp
        show ?thesis by (rule exI [of _ r], rule conjI [OF _ res']) (simp only: step r)
      qed
    qed
  qed
qed


end
