(* ===== verification/Files_Confined.thy ===== *)
theory Files_Confined
  imports Files_Store
begin

text \<open>
  What the roots of the file store guarantee: resolution always returns, and whatever a resolved
  path leads to lies inside a root, for every file system and every path a client sends.
\<close>


section \<open>Roots and candidates\<close>

definition store_ok :: "Store \<Rightarrow> bool" where
  "store_ok s \<longleftrightarrow> st_roots s \<noteq> [] \<and> list_all clean_abs (st_roots s)"

lemma Join_abs_clean: "clean_abs (Join (abs_path cs) p)"
proof -
  have "IsAbs (abs_path cs @ slash # p)" by (simp add: abs_path_def)
  moreover have "Join (abs_path cs) p = Clean (abs_path cs @ slash # p)" by (simp add: Join_def abs_path_def)
  ultimately show ?thesis by (simp only: clean_abs_Clean)
qed

lemma clean_abs_IsAbs: "clean_abs p \<Longrightarrow> IsAbs p"
  by (auto simp: clean_abs_def abs_path_def)

lemma NewStore_ok:
  assumes "NewStore fs roots = Inr s"
  shows "store_ok s"
proof -
  have "clean_abs (resolve_root fs r)" for r
  proof -
    have "IsAbs (Abs fs r)"
      by (auto simp: Abs_def simp del: IsAbs_iff intro: clean_abs_IsAbs clean_abs_Clean Join_abs_clean)
    then show ?thesis
      by (auto simp: resolve_root_def EvalSymlinks_def Let_def simp del: IsAbs_iff split: sum.splits
          intro: clean_abs_Clean)
  qed
  with assms show ?thesis by (auto simp: NewStore_def store_ok_def list_all_iff split: if_splits)
qed

definition candidate :: "Store \<Rightarrow> string \<Rightarrow> string" where
  "candidate s rel = Clean (if IsAbs rel then rel else Join (hd (st_roots s)) rel)"

lemma candidate_clean:
  assumes "store_ok s"
  shows "clean_abs (candidate s rel)"
proof -
  obtain rt where rt: "hd (st_roots s) = abs_path rt"
    using assms by (cases "st_roots s") (auto simp: store_ok_def clean_abs_def)
  have "IsAbs (if IsAbs rel then rel else Join (hd (st_roots s)) rel)"
    using clean_abs_IsAbs [OF Join_abs_clean] by (simp add: rt del: IsAbs_iff)
  then show ?thesis unfolding candidate_def by (rule clean_abs_Clean)
qed

text \<open>The test against the roots, on components. The root directory itself admits only itself.\<close>

definition inside :: "Store \<Rightarrow> string list \<Rightarrow> bool" where
  "inside s cs \<longleftrightarrow> (\<exists>rt. list_all plain_elem rt \<and> abs_path rt \<in> set (st_roots s) \<and> prefix rt cs \<and> (rt = [] \<longrightarrow> cs = []))"

lemma inside_iff:
  assumes "store_ok s" "list_all plain_elem cs"
  shows "list_ex (\<lambda>root. abs_path cs = root \<or> HasPrefix (abs_path cs) (root @ [slash])) (st_roots s) \<longleftrightarrow> inside s cs"
proof -
  have test: "abs_path cs = abs_path rt \<or> HasPrefix (abs_path cs) (abs_path rt @ [slash]) \<longleftrightarrow>
      prefix rt cs \<and> (rt = [] \<longrightarrow> cs = [])" if "list_all plain_elem rt" for rt
  proof (cases "rt = []")
    case True
    have "\<not> HasPrefix (abs_path cs) ''//''"
    proof (cases cs)
      case (Cons c ds)
      then obtain x y where "c = x # y" "x \<noteq> slash" using assms(2) by (cases c) (auto simp: plain_elem_def)
      with Cons show ?thesis by (simp add: abs_path_def HasPrefix_def join_byte_Cons)
    qed (simp add: abs_path_def HasPrefix_def)
    with True assms(2) show ?thesis using abs_path_inject [of cs "[]"] by (auto simp: abs_path_def)
  next
    case False
    with assms(2) that show ?thesis
      by (auto simp: HasPrefix_below abs_path_inject strict_prefix_def)
  qed
  show ?thesis
  proof
    assume "list_ex (\<lambda>root. abs_path cs = root \<or> HasPrefix (abs_path cs) (root @ [slash])) (st_roots s)"
    then obtain root where root: "root \<in> set (st_roots s)"
      "abs_path cs = root \<or> HasPrefix (abs_path cs) (root @ [slash])" by (auto simp: list_ex_iff)
    then obtain rt where "root = abs_path rt" "list_all plain_elem rt"
      using assms(1) by (auto simp: store_ok_def list_all_iff clean_abs_def)
    with root test show "inside s cs" by (auto simp: inside_def)
  next
    assume "inside s cs"
    with test show "list_ex (\<lambda>root. abs_path cs = root \<or> HasPrefix (abs_path cs) (root @ [slash])) (st_roots s)"
      by (auto simp: inside_def list_ex_iff)
  qed
qed


section \<open>What resolution returns\<close>

text \<open>
  A resolved path is a real path with components appended of which the first does not exist, neither
  itself nor what it may link to.
\<close>

definition resolved :: "fsys \<Rightarrow> string list \<Rightarrow> string list \<Rightarrow> bool" where
  "resolved fs q us \<longleftrightarrow> real_path fs q \<and> list_all plain_elem us \<and>
     (us \<noteq> [] \<longrightarrow> (\<forall>k xs r. walk fs k q (hd us # xs) \<noteq> Inr r))"

lemma resolved_plain: "resolved fs q us \<Longrightarrow> list_all plain_elem (q @ us)"
  by (auto simp: resolved_def dest: real_path_plain)

lemma resolve_loop_resolved:
  assumes "list_all plain_elem cs"
  shows "\<exists>r. resolveExisting fs (abs_path cs) = Some r \<and>
     (case r of Inl e \<Rightarrow> \<not> IsNotExist e | Inr p \<Rightarrow> \<exists>q us. p = abs_path (q @ us) \<and> resolved fs q us)"
proof -
  obtain r where loop: "resolve_loop fs (abs_path cs) (abs_path cs) [] = Some r"
    and res: "case r of Inl e \<Rightarrow> \<not> IsNotExist e
      | Inr p \<Rightarrow> \<exists>ds us q. cs = ds @ us \<and> walk fs 255 [] ds = Inr q \<and> p = abs_path (q @ us) \<and>
          (us \<noteq> [] \<longrightarrow> (\<exists>z b. walk fs 255 [] (ds @ [hd us]) = Inl (ENOENT z b)))"
    using resolve_loop_result [OF assms, of "[]" fs "abs_path cs", unfolded append_Nil2] by auto
  have "\<exists>q us. p = abs_path (q @ us) \<and> resolved fs q us" if rp: "r = Inr p" for p
  proof -
    obtain ds us q where *: "cs = ds @ us" "walk fs 255 [] ds = Inr q" "p = abs_path (q @ us)"
      "us \<noteq> [] \<longrightarrow> (\<exists>z b. walk fs 255 [] (ds @ [hd us]) = Inl (ENOENT z b))" using res rp by auto
    have plain: "\<forall>c \<in> set ds. slash \<notin> set c" "list_all plain_elem us"
      using assms *(1) by (auto simp: list_all_iff plain_elem_def)
    have "real_path fs q" using walk_real [OF *(2)] plain by simp
    moreover have "walk fs k q (hd us # xs) \<noteq> Inr r" if "us \<noteq> []" for k xs r
    proof -
      obtain z b where z: "walk fs 255 [] (ds @ [hd us]) = Inl (ENOENT z b)" using * \<open>us \<noteq> []\<close> by blast
      then obtain j where "walk fs j q [hd us] = Inl (ENOENT z b)"
        using walk_append [OF *(2), of "[hd us]"] by auto
      from walk_missing [OF this, of k xs r] show ?thesis by simp
    qed
    ultimately have "resolved fs q us" using plain(2) by (simp add: resolved_def)
    with *(3) show ?thesis by blast
  qed
  with loop res show ?thesis by (auto simp: resolveExisting_def split: sum.splits)
qed

lemma Resolve_cases:
  assumes "store_ok s"
  obtains "Resolve fs s rel = Inl ErrOutsideRoots"
  | e where "Resolve fs s rel = Inl (FileError e)" "\<not> IsNotExist e"
  | q us where "Resolve fs s rel = Inr (abs_path (q @ us))" "resolved fs q us" "inside s (q @ us)"
proof -
  obtain cs where cs: "candidate s rel = abs_path cs" "list_all plain_elem cs"
    using candidate_clean [OF assms] by (auto simp: clean_abs_def)
  obtain r where r: "resolveExisting fs (abs_path cs) = Some r"
    and res: "case r of Inl e \<Rightarrow> \<not> IsNotExist e | Inr p \<Rightarrow> \<exists>q us. p = abs_path (q @ us) \<and> resolved fs q us"
    using resolve_loop_resolved [OF cs(2)] by blast
  have Res: "Resolve fs s rel = (if CHR 0x00 \<in> set rel then Inl ErrOutsideRoots
      else case r of Inl e \<Rightarrow> Inl (FileError e)
      | Inr real \<Rightarrow> if list_ex (\<lambda>root. real = root \<or> HasPrefix real (root @ [slash])) (st_roots s)
                  then Inr real else Inl ErrOutsideRoots)"
    using r cs(1) by (simp add: Resolve_def candidate_def Let_def del: IsAbs_iff)
  show ?thesis
  proof (cases "CHR 0x00 \<in> set rel")
    case True
    with Res that(1) show ?thesis by simp
  next
    case no_nul: False
    show ?thesis
    proof (cases r)
      case (Inl e)
      with Res no_nul res that(2) show ?thesis by simp
    next
      case (Inr p)
      with res obtain q us where p: "p = abs_path (q @ us)" "resolved fs q us" by auto
      have "list_all plain_elem (q @ us)" by (rule resolved_plain [OF p(2)])
      from inside_iff [OF assms this] Res no_nul Inr p that show ?thesis by (auto split: if_splits)
    qed
  qed
qed

text \<open>What the kernel finds behind a resolved path is the path itself, whatever links exist.\<close>

lemma kwalk_resolved:
  assumes "resolved fs q us" "kwalk fs (abs_path (q @ us)) = Inr r"
  shows "us = [] \<and> r = q"
proof -
  have q: "real_path fs q" and us: "list_all plain_elem us" using assms(1) by (simp_all add: resolved_def)
  have walk: "walk fs 40 [] (q @ us) = Inr r"
    using assms(2) us real_path_plain [OF q] by (simp add: kwalk_abs_path)
  show ?thesis
  proof (cases us)
    case Nil
    with walk walk_real_path [OF q] show ?thesis by simp
  next
    case (Cons h xs)
    with walk walk_append [OF walk_real_path [OF q, of 40], of us] obtain k where "walk fs k q (h # xs) = Inr r" by auto
    with assms(1) Cons show ?thesis by (simp add: resolved_def)
  qed
qed

lemma kwalk_real: "real_path fs q \<Longrightarrow> kwalk fs (abs_path q) = Inr q"
  using real_path_plain [of fs q] by (simp add: kwalk_abs_path walk_real_path)

lemma os_stat_resolved:
  "resolved fs q us \<Longrightarrow> os_stat fs (abs_path (q @ us)) = Inr (r, n) \<Longrightarrow>
     us = [] \<and> r = q \<and> real_path fs q \<and> node_at fs q = Some n"
  using kwalk_resolved [of fs q us] by (auto simp: os_stat_def resolved_def split: sum.splits option.splits)

text \<open>
  C29. Resolution always returns. Whatever the file system holds, links in circles included, the search
  for the deepest existing ancestor ends, since the root directory itself always exists: no path a
  client can send makes a request hang, for any store the daemon was started with.
\<close>

theorem Resolve_returns:
  assumes "NewStore fs0 roots = Inr s"
  shows "Resolve fs s rel \<noteq> Inl NoReturn"
  using NewStore_ok [OF assms] by (rule Resolve_cases [of s fs rel]) simp_all

definition loop_fs :: fsys where
  "loop_fs = \<lparr>fs_nodes = [([''srv''], FDir), ([''srv'', ''a''], FLink ''b''), ([''srv'', ''b''], FLink ''a'')],
              fs_denied = (\<lambda>_. False), fs_cwd = []\<rparr>"

theorem Resolve_returns_witness: "Resolve loop_fs \<lparr>st_roots = [resolve_root loop_fs ''/srv'']\<rparr> ''a/x'' \<noteq> Inl NoReturn"
  by (rule Resolve_returns [of loop_fs "[''/srv'']"]) (simp add: NewStore_def)

text \<open>
  C9. The roots confine every request: for every file system, with whatever links inside the roots,
  and every client path, a resolved path is lexically inside a root, and whatever exists behind it
  when the kernel follows it, links included, is at that very place; so nothing outside the roots
  can be read, listed or deleted through a resolved path.
\<close>

theorem Resolve_confined:
  assumes "NewStore fs0 roots = Inr s" and "Resolve fs s rel = Inr p"
  shows "\<exists>cs rt. p = abs_path cs \<and> list_all plain_elem cs \<and> abs_path rt \<in> set (st_roots s) \<and> prefix rt cs \<and>
     (\<forall>r. kwalk fs p = Inr r \<longrightarrow> r = cs)"
proof (cases rule: Resolve_cases [OF NewStore_ok [OF assms(1)], of fs rel])
  case (3 q us)
  then obtain rt where rt: "abs_path rt \<in> set (st_roots s)" "prefix rt (q @ us)" by (auto simp: inside_def)
  have p: "p = abs_path (q @ us)" using 3(1) assms(2) by simp
  have "\<forall>r. kwalk fs p = Inr r \<longrightarrow> r = q @ us" using kwalk_resolved [OF 3(2)] p by auto
  with p rt resolved_plain [OF 3(2)] show ?thesis by blast
qed (use assms(2) in simp_all)

definition escape_fs :: fsys where
  "escape_fs = \<lparr>fs_nodes = [([''srv''], FDir), ([''srv'', ''f''], FFile ''hi''), ([''etc''], FDir),
                 ([''etc'', ''passwd''], FFile ''root''), ([''srv'', ''l''], FLink ''/etc'')],
                fs_denied = (\<lambda>_. False), fs_cwd = []\<rparr>"

lemma escape_node: "node_at escape_fs [''srv'', ''f''] = Some (FFile ''hi'')"
  by (simp add: node_at_def escape_fs_def)

lemma escape_walks:
  "walk escape_fs n [] [''srv''] = Inr [''srv'']"
  "walk escape_fs n [] [''srv'', ''f''] = Inr [''srv'', ''f'']"
  "walk escape_fs (Suc n) [] [''srv'', ''l'', ''passwd''] = Inr [''etc'', ''passwd'']"
  by (simp_all add: walk.simps(2) node_at_def escape_fs_def)


lemma Resolve_candidate:
  assumes "store_ok s" "candidate s rel = abs_path cs" "CHR 0x00 \<notin> set rel"
    and "resolveExisting fs (abs_path cs) = Some (Inr (abs_path ds))" "list_all plain_elem ds" "inside s ds"
  shows "Resolve fs s rel = Inr (abs_path ds)"
  using assms inside_iff [OF assms(1,5)] by (simp add: Resolve_def candidate_def [symmetric] Let_def del: IsAbs_iff)

lemma Resolve_existing:
  assumes "store_ok s" "candidate s rel = abs_path cs" "CHR 0x00 \<notin> set rel" "real_path fs cs" "inside s cs"
  shows "Resolve fs s rel = Inr (abs_path cs)"
proof -
  have plain: "list_all plain_elem cs" using assms(4) by (rule real_path_plain)
  have "EvalSymlinks fs (abs_path cs) = Inr (abs_path cs)"
    using EvalSymlinks_abs_path [OF plain] walk_real_path [OF assms(4)] by simp
  then have "resolveExisting fs (abs_path cs) = Some (Inr (abs_path cs))"
    unfolding resolveExisting_def by (subst resolve_loop.simps) simp
  with assms plain show ?thesis by (intro Resolve_candidate)
qed

text \<open>A name that does not exist, or only as a link to nothing, in a real directory.\<close>

lemma Resolve_missing:
  assumes "store_ok s" "candidate s rel = abs_path (t @ [e])" "CHR 0x00 \<notin> set rel" "real_dir fs t" "plain_elem e"
    and "walk fs 255 t [e] = Inl (ENOENT z b)" "inside s (t @ [e])"
  shows "Resolve fs s rel = Inr (abs_path (t @ [e]))"
proof -
  have t: "list_all plain_elem t" "real_path fs t" using assms(4) by (auto simp: real_path_def dest: real_dir_plain)
  have "EvalSymlinks fs (abs_path (t @ [e])) = Inl (ENOENT z b)"
    using EvalSymlinks_abs_path [of "t @ [e]" fs] t(1) assms(5,6) walk_along [OF assms(4), of 255 "[e]"] by simp
  moreover have "EvalSymlinks fs (abs_path t) = Inr (abs_path t)"
    using EvalSymlinks_abs_path [OF t(1)] walk_real_path [OF t(2)] by simp
  moreover have "abs_path t \<noteq> abs_path (t @ [e])" using abs_path_inject [of t "t @ [e]"] t(1) assms(5) by simp
  moreover have "Join e [] = e" using Join_elem_join [OF assms(5), of "[]"] by simp
  moreover have "e \<noteq> []" using assms(5) by (simp add: plain_elem_def)
  ultimately have "resolveExisting fs (abs_path (t @ [e])) = Some (Inr (abs_path (t @ [e])))"
    unfolding resolveExisting_def
    by (subst resolve_loop.simps, simp add: Let_def Dir_abs_path Base_abs_path t(1) assms(5),
        subst resolve_loop.simps, simp add: Join_abs_path t(1) assms(5))
  with assms t(1) show ?thesis by (intro Resolve_candidate) simp_all
qed

lemma candidate_abs: "list_all plain_elem cs \<Longrightarrow> candidate s (abs_path cs) = abs_path cs"
  by (simp add: candidate_def del: IsAbs_iff)

lemma abs_path_no_nul: "\<forall>c \<in> set cs. CHR 0x00 \<notin> set c \<Longrightarrow> CHR 0x00 \<notin> set (abs_path cs)"
proof -
  assume "\<forall>c \<in> set cs. CHR 0x00 \<notin> set c"
  then have "CHR 0x00 \<notin> set (join_byte slash cs)" by (induction cs) (auto simp: join_byte_Cons)
  then show ?thesis by (simp add: abs_path_def)
qed

lemma Resolve_real:
  assumes "store_ok s" "real_path fs cs" "inside s cs" "\<forall>c \<in> set cs. CHR 0x00 \<notin> set c"
  shows "Resolve fs s (abs_path cs) = Inr (abs_path cs)"
  using assms candidate_abs [OF real_path_plain [OF assms(2)]] abs_path_no_nul [OF assms(4)]
  by (intro Resolve_existing)

definition escape_store :: Store where "escape_store = \<lparr>st_roots = [resolve_root escape_fs ''/srv'']\<rparr>"

lemma escape_new: "NewStore escape_fs [''/srv''] = Inr escape_store"
  by (simp add: NewStore_def escape_store_def)

lemma escape_plain: "plain_elem ''srv''" "plain_elem ''f''"
  by (simp_all add: plain_elem_def)

lemma escape_paths: "''/srv'' = abs_path [''srv'']" "''/srv/f'' = abs_path [''srv'', ''f'']"
  by (simp_all add: abs_path_def)

lemma escape_real: "real_path escape_fs [''srv'', ''f'']" "real_path escape_fs [''srv'']"
  using walk_real [OF escape_walks(2) [of 0]] walk_real [OF escape_walks(1) [of 0]] by simp_all

lemma escape_root: "st_roots escape_store = [abs_path [''srv'']]"
proof -
  have "Clean ''/srv'' = ''/srv''" unfolding escape_paths(1) using escape_plain by (intro Clean_abs_path) simp
  moreover have "EvalSymlinks escape_fs ''/srv'' = Inr ''/srv''"
    unfolding escape_paths(1) using escape_plain by (simp add: EvalSymlinks_abs_path escape_walks)
  ultimately show ?thesis
    by (simp add: escape_store_def resolve_root_def Abs_def Let_def escape_paths(1) [symmetric])
qed

lemma escape_resolve: "Resolve escape_fs escape_store ''/srv/f'' = Inr ''/srv/f''"
proof -
  have "inside escape_store [''srv'', ''f'']"
    unfolding inside_def escape_root using escape_plain by (intro exI [of _ "[''srv'']"]) simp
  then show ?thesis
    unfolding escape_paths(2) by (intro Resolve_real NewStore_ok [OF escape_new] escape_real) simp_all
qed

theorem Resolve_confined_witness:
  "\<exists>cs rt. ''/srv/f'' = abs_path cs \<and> list_all plain_elem cs \<and> abs_path rt \<in> set (st_roots escape_store) \<and>
     prefix rt cs \<and> (\<forall>r. kwalk escape_fs ''/srv/f'' = Inr r \<longrightarrow> r = cs)"
  by (rule Resolve_confined [OF escape_new escape_resolve])


section \<open>The operations\<close>

lemma os_remove_real:
  assumes "real_path fs cs" "node_at fs cs = Some (FFile content)"
  shows "os_remove fs (abs_path cs) = (None, del_node fs cs)"
proof -
  have "cs \<noteq> []" using assms(2) by auto
  then obtain d c where cs: "cs = d @ [c]" by (cases cs rule: rev_cases) auto
  then have "real_dir fs d" "plain_elem c" "\<not> fs_denied fs (d @ [c])" using assms by (auto simp: real_path_def)
  from os_remove_snoc [OF this] cs assms(2) show ?thesis by simp
qed

lemma ListDir_result:
  assumes "store_ok s" "ListDir c fs s rel = Inr es"
  obtains cs where "inside s cs" "real_dir fs cs"
    "es = sort_key sort_key_of (List.map_filter (entry_of c fs cs) (children fs cs))"
    "Resolve fs s rel = Inr (abs_path cs)"
proof (cases rule: Resolve_cases [OF assms(1), of fs rel])
  case (3 q us)
  obtain q' n where st: "os_stat fs (abs_path (q @ us)) = Inr (q', n)"
    using assms(2) 3(1) by (auto simp: ListDir_def os_readdir_def split: if_splits sum.splits prod.splits)
  note st' = os_stat_resolved [OF 3(2) st]
  with assms(2) 3(1) st have n: "n = FDir"
    by (auto simp: ListDir_def os_readdir_def split: if_splits node.splits)
  have "real_dir fs q" using st' n real_path_node [of fs q] by auto
  moreover have "es = sort_key sort_key_of (List.map_filter (entry_of c fs q) (children fs q))"
    using assms(2) 3(1) st st' n by (auto simp: ListDir_def os_readdir_def split: if_splits)
  ultimately show ?thesis using that 3(1,3) st' by simp
qed (use assms(2) in \<open>simp_all add: ListDir_def\<close>)

lemma OpenStored_result:
  assumes "store_ok s" "OpenStored sha c fs s rel = Inr (content, len, digest)"
  obtains cs where "inside s cs" "node_at fs cs = Some (FFile content)" "len = int (length content)"
    "digest = hex_encode (sha content)"
proof (cases rule: Resolve_cases [OF assms(1), of fs rel])
  case (3 q us)
  obtain q' n where st: "os_stat fs (abs_path (q @ us)) = Inr (q', n)"
    using assms(2) 3(1) by (auto simp: OpenStored_def split: if_splits sum.splits prod.splits)
  note st' = os_stat_resolved [OF 3(2) st]
  have "n = FFile content \<and> len = int (length content) \<and> digest = hex_encode (sha content)"
    using assms(2) 3(1) st by (auto simp: OpenStored_def HashFile_def os_read_def split: if_splits node.splits)
  then show ?thesis using that 3(3) st' by simp
qed (use assms(2) in \<open>simp_all add: OpenStored_def\<close>)

lemma DeleteFile_result:
  assumes "store_ok s" "DeleteFile c fs s rel = (res, fs')"
  shows "(res \<noteq> None \<and> fs' = fs) \<or>
     (res = None \<and> (\<exists>cs content. inside s cs \<and> node_at fs cs = Some (FFile content) \<and> fs' = del_node fs cs))"
proof (cases rule: Resolve_cases [OF assms(1), of fs rel])
  case (3 q us)
  show ?thesis
  proof (cases "os_stat fs (abs_path (q @ us))")
    case (Inr qn)
    obtain q' n where st: "os_stat fs (abs_path (q @ us)) = Inr (q', n)" using Inr by (cases qn) simp
    note st' = os_stat_resolved [OF 3(2) st]
    show ?thesis
    proof (cases n)
      case (FFile content)
      have "os_remove fs (abs_path (q @ us)) = (None, del_node fs q)"
        using os_remove_real [of fs q content] st' FFile by simp
      with assms(2) 3(1,3) st st' FFile show ?thesis by (auto simp: DeleteFile_def split: if_splits)
    next
      case FDir
      with assms(2) 3(1) st show ?thesis by (auto simp: DeleteFile_def split: if_splits)
    next
      case (FLink t)
      with st' real_path_node [of fs q] show ?thesis by (auto simp: real_path_def dest: real_dir_node)
    qed
  qed (use assms(2) 3(1) in \<open>auto simp: DeleteFile_def split: if_splits\<close>)
qed (use assms(2) in \<open>auto simp: DeleteFile_def\<close>)

text \<open>
  The store's operations touch only what is inside the roots: an opened file is a regular file
  inside a root whose own content, length and hash are delivered, a listed directory is inside a root,
  and a deletion removes one regular file inside a root and changes nothing else.
\<close>

lemma store_operations_confined:
  assumes "NewStore fs0 roots = Inr s"
  shows "(\<forall>content len digest. OpenStored sha c fs s rel = Inr (content, len, digest) \<longrightarrow>
       (\<exists>cs. inside s cs \<and> node_at fs cs = Some (FFile content) \<and> len = int (length content) \<and>
             digest = hex_encode (sha content))) \<and>
     (\<forall>es. ListDir c fs s rel = Inr es \<longrightarrow>
       (\<exists>cs. inside s cs \<and> node_at fs cs = Some FDir \<and> (\<forall>e \<in> set es. e_Name e \<in> set (children fs cs)))) \<and>
     (\<forall>res fs'. DeleteFile c fs s rel = (res, fs') \<longrightarrow>
       (res \<noteq> None \<and> fs' = fs) \<or>
       (\<exists>cs content. inside s cs \<and> node_at fs cs = Some (FFile content) \<and> fs' = del_node fs cs))"
proof (intro conjI allI impI)
  note ok = NewStore_ok [OF assms]
  fix content len digest
  assume "OpenStored sha c fs s rel = Inr (content, len, digest)"
  with ok show "\<exists>cs. inside s cs \<and> node_at fs cs = Some (FFile content) \<and> len = int (length content) \<and>
      digest = hex_encode (sha content)" by (rule OpenStored_result) blast
next
  note ok = NewStore_ok [OF assms]
  fix es
  assume "ListDir c fs s rel = Inr es"
  with ok show "\<exists>cs. inside s cs \<and> node_at fs cs = Some FDir \<and> (\<forall>e \<in> set es. e_Name e \<in> set (children fs cs))"
  proof (rule ListDir_result)
    fix cs
    assume "inside s cs" "real_dir fs cs" "es = sort_key sort_key_of (List.map_filter (entry_of c fs cs) (children fs cs))"
    then show ?thesis
      by (intro exI [of _ cs]) (auto simp: entry_of_def map_filter_def real_dir_node split: if_splits)
  qed
next
  note ok = NewStore_ok [OF assms]
  fix res fs'
  assume "DeleteFile c fs s rel = (res, fs')"
  from DeleteFile_result [OF ok this]
  show "(res \<noteq> None \<and> fs' = fs) \<or>
      (\<exists>cs content. inside s cs \<and> node_at fs cs = Some (FFile content) \<and> fs' = del_node fs cs)" by blast
qed

definition demo_file_call :: file_call where
  "demo_file_call = \<lparr>fc_fault = (\<lambda>_. False), fc_partial = 0, fc_mtime = (\<lambda>_. 0), fc_size = (\<lambda>_. 4096),
     fc_vanished = (\<lambda>_. False), fc_rnd = Some ''0123456789ab'',
     fc_body = [], fc_broken = False\<rparr>"

lemma store_operations_confined_example:
  "\<exists>cs. inside escape_store cs \<and> node_at escape_fs cs = Some (FFile ''hi'') \<and> int 2 = int (length ''hi'') \<and>
     hex_encode ''hi'' = hex_encode ''hi''"
proof -
  have "kwalk escape_fs ''/srv/f'' = Inr [''srv'', ''f'']"
    unfolding escape_paths(2) by (rule kwalk_real [OF escape_real(1)])
  then have "OpenStored (\<lambda>s. s) demo_file_call escape_fs escape_store ''/srv/f'' = Inr (''hi'', int 2, hex_encode ''hi'')"
    using escape_node by (simp add: OpenStored_def escape_resolve os_stat_def os_read_def HashFile_def demo_file_call_def)
  then show ?thesis
    using store_operations_confined [OF escape_new, of "\<lambda>s. s" demo_file_call escape_fs "''/srv/f''"] by blast
qed

text \<open>
  A root that is the root directory serves nothing: the test against the root and a separator then
  asks for a double slash, so every path but the root directory itself is refused, although the
  operator allowed the whole file system.
\<close>

lemma root_directory_refuses_all:
  assumes "st_roots s = [''/'']" and "Resolve fs s rel = Inr p"
  shows "p = ''/''"
proof -
  have ok: "store_ok s" using assms(1) clean_abs_def [of "''/''"]
    by (auto simp: store_ok_def abs_path_def intro: exI [of _ "[]"])
  show ?thesis
  proof (cases rule: Resolve_cases [OF ok, of fs rel])
    case (3 q us)
    then obtain rt where "list_all plain_elem rt" "abs_path rt = ''/''" "rt = [] \<longrightarrow> q @ us = []"
      using assms(1) by (auto simp: inside_def)
    moreover from this have "rt = []" using abs_path_inject [of rt "[]"] by (simp add: abs_path_def)
    ultimately show ?thesis using 3(1) assms(2) by (simp add: abs_path_def)
  qed (use assms(2) in simp_all)
qed

lemma root_directory_refuses_all_example:
  "Resolve loop_fs \<lparr>st_roots = [''/'']\<rparr> ''/srv'' \<noteq> Inr ''/srv'' \<and> Resolve loop_fs \<lparr>st_roots = [''/'']\<rparr> ''/'' = Inr ''/''"
proof -
  have root: "''/'' = abs_path []" by (simp add: abs_path_def)
  have ok: "store_ok \<lparr>st_roots = [''/'']\<rparr>" unfolding root by (auto simp: store_ok_def clean_abs_def)
  have "inside \<lparr>st_roots = [''/'']\<rparr> []" unfolding root inside_def by (intro exI [of _ "[]"]) simp
  then have "Resolve loop_fs \<lparr>st_roots = [''/'']\<rparr> ''/'' = Inr ''/''"
    using Resolve_real [OF ok, of loop_fs "[]"] by (simp add: real_path_def root [symmetric])
  moreover have "''/srv'' \<noteq> ''/''" by simp
  ultimately show ?thesis
    using root_directory_refuses_all [of "\<lparr>st_roots = [''/'']\<rparr>" loop_fs "''/srv''" "''/srv''"] by auto
qed

text \<open>
  C32. A listing is of the directory that was asked for, complete, without duplicates and in order: when a client
  path is listed, it was resolved to a directory inside the roots, and the listing shows each name in that very directory
  once, with its kind, its time of modification and, for a regular file, its size, directories before files and each
  group by name. No entry vanishes while the listing is made, and the names of the file system are distinct.
\<close>

theorem ListDir_exact:
  assumes "store_ok s" "ListDir c fs s rel = Inr es" "fc_vanished c = (\<lambda>_. False)" "distinct (map fst (fs_nodes fs))"
  shows "\<exists>cs. Resolve fs s rel = Inr (abs_path cs) \<and> list_all plain_elem cs \<and> inside s cs \<and> node_at fs cs = Some FDir \<and>
     distinct (map e_Name es) \<and> set (map e_Name es) = set (children fs cs) \<and>
     sorted_wrt (\<lambda>a b. e_IsDir a \<and> \<not> e_IsDir b \<or> e_IsDir a = e_IsDir b \<and> e_Name a < e_Name b) es \<and>
     (\<forall>e \<in> set es. e_IsDir e = (node_at fs (cs @ [e_Name e]) = Some FDir) \<and> e_ModTime e = fc_mtime c (cs @ [e_Name e]) \<and>
        (\<forall>content. node_at fs (cs @ [e_Name e]) = Some (FFile content) \<longrightarrow> e_Size e = int (length content)))"
proof -
  obtain cs where cs: "inside s cs" "es = sort_key sort_key_of (List.map_filter (entry_of c fs cs) (children fs cs))"
    "Resolve fs s rel = Inr (abs_path cs)" "node_at fs cs = Some FDir" "list_all plain_elem cs"
    using ListDir_result [OF assms(1,2)] real_dir_node real_dir_plain by metis
  define raw where "raw = List.map_filter (entry_of c fs cs) (children fs cs)"
  have names: "map e_Name raw = children fs cs"
    using assms(3) by (simp add: raw_def map_filter_def entry_of_def comp_def)
  have "distinct (children fs cs)"
  proof -
    have "inj_on last (set (filter (\<lambda>p. p \<noteq> [] \<and> butlast p = cs) (map fst (fs_nodes fs))))"
      by (auto simp: inj_on_def) (metis append_butlast_last_id)
    with assms(4) show ?thesis by (simp add: children_def distinct_map)
  qed
  then have dist: "distinct (map e_Name es)"
    using distinct_map [of e_Name raw] names cs(2) by (simp add: raw_def [symmetric] distinct_map)
  have le: "sorted_wrt (\<lambda>a b. sort_key_of a \<le> sort_key_of b) es"
    using cs(2) sorted_sort_key [of sort_key_of raw] by (simp add: raw_def sorted_map)
  have ne: "sorted_wrt (\<lambda>a b. e_Name a \<noteq> e_Name b) es" using dist by (simp add: sorted_wrt_iff_nth_less distinct_conv_nth)
  have "sorted_wrt (\<lambda>a b. e_IsDir a \<and> \<not> e_IsDir b \<or> e_IsDir a = e_IsDir b \<and> e_Name a < e_Name b) es"
    unfolding sorted_wrt_iff_nth_less
  proof (intro allI impI)
    fix i j
    assume "i < j" "j < length es"
    with le ne have "sort_key_of (es ! i) \<le> sort_key_of (es ! j)" "e_Name (es ! i) \<noteq> e_Name (es ! j)"
      by (simp_all add: sorted_wrt_iff_nth_less)
    then show "e_IsDir (es ! i) \<and> \<not> e_IsDir (es ! j) \<or>
        e_IsDir (es ! i) = e_IsDir (es ! j) \<and> e_Name (es ! i) < e_Name (es ! j)"
      by (auto simp: sort_key_of_def less_eq_entry_key_def split: if_splits)
  qed
  moreover have "set (map e_Name es) = set (children fs cs)"
    using names cs(2) by (metis raw_def list.set_map set_sort)
  moreover have "\<forall>e \<in> set es. e_IsDir e = (node_at fs (cs @ [e_Name e]) = Some FDir) \<and> e_ModTime e = fc_mtime c (cs @ [e_Name e]) \<and>
      (\<forall>content. node_at fs (cs @ [e_Name e]) = Some (FFile content) \<longrightarrow> e_Size e = int (length content))"
    using cs(2) by (auto simp: map_filter_def entry_of_def split: if_splits)
  ultimately show ?thesis using cs(1,3-5) dist by (intro exI [of _ cs] conjI)
qed

definition listed_fs :: fsys where
  "listed_fs = \<lparr>fs_nodes = [([''srv''], FDir), ([''srv'', ''f''], FFile ''abc''), ([''srv'', ''z''], FDir)],
     fs_denied = (\<lambda>_. False), fs_cwd = []\<rparr>"

theorem ListDir_exact_witness:
  "\<exists>es. ListDir demo_file_call listed_fs \<lparr>st_roots = [''/srv'']\<rparr> ''/srv'' = Inr es \<and> set (map e_Name es) = {''f'', ''z''} \<and>
     (\<forall>e \<in> set es. e_IsDir e = (e_Name e = ''z'') \<and> (e_Name e = ''f'' \<longrightarrow> e_Size e = 3))"
proof -
  let ?s = "\<lparr>st_roots = [''/srv'']\<rparr>"
  have srv: "''/srv'' = abs_path [''srv'']" "plain_elem ''srv''" by (simp_all add: abs_path_def plain_elem_def)
  have nodes: "node_at listed_fs [''srv''] = Some FDir" "node_at listed_fs [''srv'', ''f''] = Some (FFile ''abc'')"
    "node_at listed_fs [''srv'', ''z''] = Some FDir" "fs_denied listed_fs p = False" for p
    by (simp_all add: node_at_def listed_fs_def)
  have dir: "real_dir listed_fs [''srv'']"
    using real_sub [of listed_fs "[]" "''srv''"] srv(2) by (simp add: nodes)
  have real: "real_path listed_fs [''srv'']" using dir by (simp add: real_path_def)
  have ok: "store_ok ?s" unfolding srv(1) using srv(2) by (auto simp: store_ok_def clean_abs_def)
  have ins: "inside ?s [''srv'']" unfolding srv(1) inside_def using srv(2) by (intro exI [of _ "[''srv'']"]) simp
  have res: "Resolve listed_fs ?s ''/srv'' = Inr ''/srv''"
    unfolding srv(1) using ok ins real by (intro Resolve_real) (simp_all add: srv(1) [symmetric])
  have "kwalk listed_fs ''/srv'' = Inr [''srv'']" unfolding srv(1) by (rule kwalk_real [OF real])
  then obtain es where es: "ListDir demo_file_call listed_fs ?s ''/srv'' = Inr es"
    using res nodes by (simp add: ListDir_def os_readdir_def os_stat_def demo_file_call_def)
  have "fc_vanished demo_file_call = (\<lambda>_. False)" "distinct (map fst (fs_nodes listed_fs))"
    by (simp_all add: demo_file_call_def listed_fs_def)
  from ListDir_exact [OF ok es this] obtain cs where
    cs: "Resolve listed_fs ?s ''/srv'' = Inr (abs_path cs)" "list_all plain_elem cs" "set (map e_Name es) = set (children listed_fs cs)"
    and entries: "\<forall>e \<in> set es. e_IsDir e = (node_at listed_fs (cs @ [e_Name e]) = Some FDir) \<and>
      e_ModTime e = fc_mtime demo_file_call (cs @ [e_Name e]) \<and>
      (\<forall>content. node_at listed_fs (cs @ [e_Name e]) = Some (FFile content) \<longrightarrow> e_Size e = int (length content))"
    by (elim exE conjE) (rule that)
  have "abs_path cs = abs_path [''srv'']" using cs(1) res unfolding srv(1) by simp
  then have "cs = [''srv'']" using abs_path_inject [OF cs(2), of "[''srv'']"] srv(2) by simp
  moreover have "children listed_fs [''srv''] = [''f'', ''z'']" by (simp add: children_def listed_fs_def)
  ultimately have "set (map e_Name es) = {''f'', ''z''}" "\<forall>e \<in> set es. e_Name e = ''f'' \<or> e_Name e = ''z''"
    using cs(3) by auto
  with es entries \<open>cs = [''srv'']\<close> show ?thesis by (auto simp: nodes)
qed

end
