(* ===== verification/Files_Upload.thy ===== *)
theory Files_Upload
  imports Files_Confined
begin

text \<open>
  Resumable uploads, \<^verbatim>\<open>files/upload.go\<close>. A partial file and a state file per upload lie in the
  upload directory; SHA-256, the JSON form of the state and the Unicode tables behind
  \<^verbatim>\<open>strings.ToLower\<close> and \<^verbatim>\<open>strings.EqualFold\<close> are parameters.
\<close>


section \<open>Model\<close>

definition TusVersion :: string where "TusVersion = ''1.0.0''"

record uploadState =
  us_ID :: string
  us_Target :: string
  us_Length :: int
  us_Expected :: string

record Uploader =
  up_store :: Store
  up_dir :: string

record upload_env =
  ue_sha :: sha256
  ue_marshal :: "uploadState \<Rightarrow> string"
  ue_unmarshal :: "string \<Rightarrow> uploadState option"
  ue_lower :: "string \<Rightarrow> string"
  ue_fold :: "nat \<Rightarrow> nat"

datatype upload_error =
    UploadStore store_error | UploadFS fs_error | NegativeLength | InvalidUploadID | BadState
  | ErrOffsetConflict | ChunkFailed | LengthExceeded | ErrChecksumMismatch

definition NewUploader :: "fsys \<Rightarrow> Store \<Rightarrow> string \<Rightarrow> (fs_error + Uploader) \<times> fsys" where
  "NewUploader fs store dir =
     (case os_mkdir_all fs dir of
        (Some e, fs1) \<Rightarrow> (Inl e, fs1)
      | (None, fs1) \<Rightarrow> (Inr \<lparr>up_store = store, up_dir = dir\<rparr>, fs1))"

definition partPath :: "Uploader \<Rightarrow> string \<Rightarrow> string" where
  "partPath u uid = Join (up_dir u) (uid @ ''.part'')"

definition statePath :: "Uploader \<Rightarrow> string \<Rightarrow> string" where
  "statePath u uid = Join (up_dir u) (uid @ ''.json'')"

definition validUploadID :: "string \<Rightarrow> bool" where
  "validUploadID uid \<longleftrightarrow> uid \<noteq> [] \<and> length uid \<le> 64 \<and> (\<forall>r \<in> set (runes uid). ident_rune r)"

definition write_file :: "file_call \<Rightarrow> io_site \<Rightarrow> fsys \<Rightarrow> string \<Rightarrow> string \<Rightarrow> fs_error option \<times> fsys" where
  "write_file c site fs p s =
     (if fc_fault c site
      then (let (e, fs1) = os_write fs p (take (fc_partial c) s) in (Some (case e of Some e' \<Rightarrow> e' | None \<Rightarrow> EIO), fs1))
      else os_write fs p s)"

definition UploadCreate ::
    "upload_env \<Rightarrow> file_call \<Rightarrow> Uploader \<Rightarrow> fsys \<Rightarrow> string \<Rightarrow> string \<Rightarrow> int \<Rightarrow> string \<Rightarrow>
     upload_error option \<times> fsys" where
  "UploadCreate env c u fs uid target len expected =
     (if len < 0 then (Some NegativeLength, fs)
      else case Resolve fs (up_store u) target of
             Inl e \<Rightarrow> (Some (UploadStore e), fs)
           | Inr _ \<Rightarrow>
               if \<not> validUploadID uid then (Some InvalidUploadID, fs)
               else if fc_fault c CreatePart then (Some (UploadFS EIO), fs)
               else case os_create_excl fs (partPath u uid) of
                      (Some e, fs1) \<Rightarrow> (Some (UploadFS e), fs1)
                    | (None, fs1) \<Rightarrow>
                        let st = \<lparr>us_ID = uid, us_Target = target, us_Length = len,
                                  us_Expected = ue_lower env expected\<rparr>
                        in (case write_file c WriteState fs1 (statePath u uid) (ue_marshal env st) of
                              (Some e, fs2) \<Rightarrow> (Some (UploadFS e), fs2)
                            | (None, fs2) \<Rightarrow> (None, fs2)))"

definition loadState ::
    "upload_env \<Rightarrow> file_call \<Rightarrow> Uploader \<Rightarrow> fsys \<Rightarrow> string \<Rightarrow> upload_error + uploadState" where
  "loadState env c u fs uid =
     (if \<not> validUploadID uid then Inl InvalidUploadID
      else if fc_fault c ReadState then Inl (UploadFS EIO)
      else case os_read fs (statePath u uid) of
             Inl e \<Rightarrow> Inl (UploadFS e)
           | Inr blob \<Rightarrow> (case ue_unmarshal env blob of None \<Rightarrow> Inl BadState | Some st \<Rightarrow> Inr st))"

definition Offset ::
    "upload_env \<Rightarrow> file_call \<Rightarrow> Uploader \<Rightarrow> fsys \<Rightarrow> string \<Rightarrow> upload_error + int \<times> int" where
  "Offset env c u fs uid =
     (case loadState env c u fs uid of
        Inl e \<Rightarrow> Inl e
      | Inr st \<Rightarrow>
          if fc_fault c StatPart then Inl (UploadFS EIO)
          else case os_stat fs (partPath u uid) of
                 Inl e \<Rightarrow> Inl (UploadFS e)
               | Inr (q, FFile s) \<Rightarrow> Inr (int (length s), us_Length st)
               | Inr (q, _) \<Rightarrow> Inr (fc_size c q, us_Length st))"

text \<open>
  \<open>chunk\<close> is what the copy from the request body wrote, \<open>broken\<close> whether it ended in an error.
\<close>

definition WriteChunk ::
    "upload_env \<Rightarrow> file_call \<Rightarrow> Uploader \<Rightarrow> fsys \<Rightarrow> string \<Rightarrow> int \<Rightarrow> string \<Rightarrow> bool \<Rightarrow>
     (int \<times> bool \<times> upload_error option) \<times> fsys" where
  "WriteChunk env c u fs uid offset chunk broken =
     (case loadState env c u fs uid of
        Inl e \<Rightarrow> ((0, False, Some e), fs)
      | Inr st \<Rightarrow>
          if fc_fault c OpenPart then ((0, False, Some (UploadFS EIO)), fs)
          else case os_stat fs (partPath u uid) of
                 Inl e \<Rightarrow> ((0, False, Some (UploadFS e)), fs)
               | Inr (q, FFile s) \<Rightarrow>
                   if int (length s) \<noteq> offset then ((int (length s), False, Some ErrOffsetConflict), fs)
                   else let fs1 = set_node fs q (FFile (s @ chunk));
                            newOffset = offset + int (length chunk)
                        in (if broken then ((newOffset, False, Some ChunkFailed), fs1)
                            else if newOffset > us_Length st then ((newOffset, False, Some LengthExceeded), fs1)
                            else ((newOffset, newOffset = us_Length st, None), fs1))
               | Inr (q, _) \<Rightarrow> ((0, False, Some (UploadFS EISDIR)), fs))"

definition remove_ignored :: "file_call \<Rightarrow> io_site \<Rightarrow> fsys \<Rightarrow> string \<Rightarrow> fsys" where
  "remove_ignored c site fs p = (if fc_fault c site then fs else snd (os_remove fs p))"

definition discard :: "file_call \<Rightarrow> Uploader \<Rightarrow> fsys \<Rightarrow> string \<Rightarrow> fsys" where
  "discard c u fs uid =
     remove_ignored c RemoveState (remove_ignored c RemovePart fs (partPath u uid)) (statePath u uid)"

definition copyFile :: "file_call \<Rightarrow> fsys \<Rightarrow> string \<Rightarrow> string \<Rightarrow> fs_error option \<times> fsys" where
  "copyFile c fs src dst =
     (case os_read fs src of Inl e \<Rightarrow> (Some e, fs) | Inr s \<Rightarrow> write_file c CopyPart fs dst s)"

definition move_into_place ::
    "file_call \<Rightarrow> Uploader \<Rightarrow> fsys \<Rightarrow> string \<Rightarrow> string \<Rightarrow> fs_error option \<times> fsys" where
  "move_into_place c u fs uid target =
     (case (if fc_fault c RenamePart then (Some EIO, fs) else os_rename fs (partPath u uid) target) of
        (None, fs1) \<Rightarrow> (None, fs1)
      | (Some _, fs1) \<Rightarrow>
          (case copyFile c fs1 (partPath u uid) target of
             (Some e, fs2) \<Rightarrow> (Some e, fs2)
           | (None, fs2) \<Rightarrow> (None, remove_ignored c RemovePart fs2 (partPath u uid))))"

definition Finish ::
    "upload_env \<Rightarrow> file_call \<Rightarrow> Uploader \<Rightarrow> fsys \<Rightarrow> string \<Rightarrow> (string \<times> upload_error option) \<times> fsys" where
  "Finish env c u fs uid =
     (case loadState env c u fs uid of
        Inl e \<Rightarrow> (([], Some e), fs)
      | Inr st \<Rightarrow>
          (case HashFile (ue_sha env) c fs (partPath u uid) of
             Inl e \<Rightarrow> (([], Some (UploadFS e)), fs)
           | Inr digest \<Rightarrow>
               if us_Expected st \<noteq> [] \<and> \<not> EqualFold (ue_fold env) digest (us_Expected st)
               then ((digest, Some ErrChecksumMismatch), discard c u fs uid)
               else case Resolve fs (up_store u) (us_Target st) of
                      Inl e \<Rightarrow> ((digest, Some (UploadStore e)), discard c u fs uid)
                    | Inr target \<Rightarrow>
                        (case (if fc_fault c MakeTargetDir then (Some EIO, fs) else os_mkdir_all fs (Dir target)) of
                           (Some e, fs1) \<Rightarrow> ((digest, Some (UploadFS e)), fs1)
                         | (None, fs1) \<Rightarrow>
                             (case move_into_place c u fs1 uid target of
                                (Some e, fs2) \<Rightarrow> ((digest, Some (UploadFS e)), fs2)
                              | (None, fs2) \<Rightarrow>
                                  ((digest, None), remove_ignored c RemoveState fs2 (statePath u uid))))))"

definition Discard :: "file_call \<Rightarrow> Uploader \<Rightarrow> fsys \<Rightarrow> string \<Rightarrow> fsys" where
  "Discard c u fs uid = discard c u fs uid"

definition metadata_part :: "(string \<rightharpoonup> string) \<Rightarrow> string \<Rightarrow> (string \<rightharpoonup> string)" where
  "metadata_part out part =
     (let p = TrimSpace part
      in if p = [] then out
         else case split2 (CHR '' '') p of
                [key] \<Rightarrow> out(key \<mapsto> [])
              | key # v # _ \<Rightarrow> (case StdDecode v of None \<Rightarrow> out | Some d \<Rightarrow> out(key \<mapsto> d))
              | [] \<Rightarrow> out)"

definition ParseUploadMetadata :: "string \<Rightarrow> (string \<rightharpoonup> string)" where
  "ParseUploadMetadata header = foldl metadata_part Map.empty (split_byte (CHR '','') header)"

definition ParseOffset :: "string \<Rightarrow> int option" where
  "ParseOffset v =
     (if v = [] then None
      else case ParseInt v of None \<Rightarrow> None | Some n \<Rightarrow> if n < 0 then None else Some n)"


section \<open>Names in the upload directory\<close>

text \<open>A valid id cannot turn into a path: it yields one ordinary name below the directory.\<close>

lemma validUploadID_ident: "validUploadID uid \<Longrightarrow> ident_string uid \<and> uid \<noteq> []"
  by (simp add: validUploadID_def runes_ident_iff)

lemma valid_names:
  assumes "validUploadID uid"
  shows "plain_elem (uid @ ''.part'')" "plain_elem (uid @ ''.json'')"
  using validUploadID_ident [OF assms] ident_string_no_slash [of uid] by (auto simp: plain_elem_def append_eq_Cons_conv)

lemma names_differ:
  "uid @ ''.part'' \<noteq> vid @ ''.json''" "uid @ ''.part'' = vid @ ''.part'' \<longleftrightarrow> uid = vid"
  "uid @ ''.json'' = vid @ ''.json'' \<longleftrightarrow> uid = vid"
  by (auto dest: arg_cong [of _ _ last])

text \<open>The upload directory: a real one, whose files can be reached.\<close>

definition area :: "Uploader \<Rightarrow> fsys \<Rightarrow> string list \<Rightarrow> bool" where
  "area u fs d \<longleftrightarrow> up_dir u = abs_path d \<and> real_dir fs d"

lemma upload_paths:
  assumes "area u fs d" "validUploadID uid"
  shows "partPath u uid = abs_path (d @ [uid @ ''.part''])" "statePath u uid = abs_path (d @ [uid @ ''.json''])"
  using assms valid_names [OF assms(2)] Join_abs_path [OF real_dir_plain [of fs d]]
  by (simp_all add: area_def partPath_def statePath_def)

text \<open>An upload in progress: its state and what has been received so far.\<close>

definition uploading ::
    "upload_env \<Rightarrow> Uploader \<Rightarrow> fsys \<Rightarrow> string list \<Rightarrow> string \<Rightarrow> uploadState \<Rightarrow> string \<Rightarrow> bool" where
  "uploading env u fs d uid st s \<longleftrightarrow>
     area u fs d \<and> validUploadID uid \<and>
     \<not> fs_denied fs (d @ [uid @ ''.part'']) \<and> \<not> fs_denied fs (d @ [uid @ ''.json'']) \<and>
     node_at fs (d @ [uid @ ''.part'']) = Some (FFile s) \<and>
     (\<exists>blob. node_at fs (d @ [uid @ ''.json'']) = Some (FFile blob) \<and> ue_unmarshal env blob = Some st)"

lemma uploading_reads:
  assumes "uploading env u fs d uid st s"
  shows "os_stat fs (partPath u uid) = Inr (d @ [uid @ ''.part''], FFile s)"
    and "os_read fs (partPath u uid) = Inr s"
    and "\<not> fc_fault c ReadState \<Longrightarrow> loadState env c u fs uid = Inr st"
proof -
  have a: "area u fs d" "validUploadID uid" "real_dir fs d" using assms by (simp_all add: uploading_def area_def)
  note names = valid_names [OF a(2)] and paths = upload_paths [OF a(1,2)]
  show "os_stat fs (partPath u uid) = Inr (d @ [uid @ ''.part''], FFile s)"
    "os_read fs (partPath u uid) = Inr s"
    unfolding paths using assms os_stat_file [OF a(3) names(1)] os_read_file [OF a(3) names(1)]
    by (simp_all add: uploading_def)
  assume "\<not> fc_fault c ReadState"
  then show "loadState env c u fs uid = Inr st"
    using assms os_read_file [OF a(3) names(2)] a(2) paths
    by (auto simp: loadState_def uploading_def)
qed

end
