(* ===== verification/Files_Uploads.thy ===== *)
theory Files_Uploads
  imports Files_Upload
begin

text \<open>
  What resumable uploads guarantee: chunks are appended once and in order, the assembled file is
  verified before it is moved inside a root, and what goes wrong when the declared length is exceeded,
  two requests interleave, or the final rename crosses file systems.
\<close>


section \<open>The file system under single updates\<close>

lemma real_dir_set: "real_dir fs d \<Longrightarrow> node_at fs p \<noteq> Some FDir \<Longrightarrow> real_dir (set_node fs p n) d"
proof (induction rule: real_dir.induct)
  case (real_sub d c)
  then have "d @ [c] \<noteq> p" by auto
  with real_sub show ?case by simp
qed simp

lemma real_dir_del: "real_dir fs d \<Longrightarrow> node_at fs p \<noteq> Some FDir \<Longrightarrow> real_dir (del_node fs p) d"
proof (induction rule: real_dir.induct)
  case (real_sub d c)
  then have "d @ [c] \<noteq> p" by auto
  with real_sub show ?case by simp
qed simp

text \<open>Removing a name below a real directory changes that name only.\<close>

lemma os_remove_frame:
  assumes "real_dir fs d" "plain_elem e"
  shows "snd (os_remove fs (abs_path (d @ [e]))) = fs \<or> snd (os_remove fs (abs_path (d @ [e]))) = del_node fs (d @ [e])"
  using assms by (auto simp: os_remove_def kparent_snoc split: option.splits node.splits)

lemma remove_ignored_frame:
  assumes "real_dir fs d" "plain_elem e" "p \<noteq> d @ [e]"
  shows "node_at (remove_ignored c site fs (abs_path (d @ [e]))) p = node_at fs p"
  using os_remove_frame [OF assms(1,2)] assms(3) by (auto simp: remove_ignored_def)

lemma remove_ignored_file:
  assumes "real_dir fs d" "plain_elem e" "\<not> fs_denied fs (d @ [e])" "node_at fs (d @ [e]) = Some (FFile s)" "\<not> fc_fault c site"
  shows "remove_ignored c site fs (abs_path (d @ [e])) = del_node fs (d @ [e])"
  using os_remove_snoc [OF assms(1-4)] assms(5) by (simp add: remove_ignored_def)


section \<open>Chunks\<close>

lemma uploading_set:
  assumes "uploading env u fs d uid st s"
  shows "uploading env u (set_node fs (d @ [uid @ ''.part'']) (FFile s')) d uid st s'"
proof -
  have "real_dir (set_node fs (d @ [uid @ ''.part'']) (FFile s')) d"
    using assms by (intro real_dir_set) (simp_all add: uploading_def area_def)
  with assms names_differ(1) [of uid uid] show ?thesis by (auto simp: uploading_def area_def)
qed

lemma WriteChunk_uploading:
  assumes "uploading env u fs d uid st s" "\<not> fc_fault c ReadState" "\<not> fc_fault c OpenPart"
  shows "WriteChunk env c u fs uid offset chunk broken =
    (if int (length s) \<noteq> offset then ((int (length s), False, Some ErrOffsetConflict), fs)
     else ((offset + int (length chunk),
            \<not> broken \<and> offset + int (length chunk) = us_Length st,
            if broken then Some ChunkFailed
            else if offset + int (length chunk) > us_Length st then Some LengthExceeded else None),
           set_node fs (d @ [uid @ ''.part'']) (FFile (s @ chunk))))"
  using uploading_reads(1) [OF assms(1)] uploading_reads(3) [OF assms(1,2)] assms(3)
  by (simp add: WriteChunk_def Let_def)

text \<open>
  C23. A retried or duplicated chunk never corrupts the file: whatever offset a client names, either it
  is the number of bytes stored and the chunk is appended there, or nothing is written and the answer
  is the number of bytes to resume from; so repeating a chunk that was already stored is refused.
\<close>

theorem chunk_appended_once:
  assumes "uploading env u fs d uid st s" "\<not> fc_fault c ReadState" "\<not> fc_fault c OpenPart"
    and "WriteChunk env c u fs uid offset chunk broken = ((n, done, err), fs')"
  shows "uploading env u fs' d uid st (if offset = int (length s) then s @ chunk else s) \<and>
     (\<forall>p. p \<noteq> d @ [uid @ ''.part''] \<longrightarrow> node_at fs' p = node_at fs p) \<and>
     (offset \<noteq> int (length s) \<longrightarrow> n = int (length s) \<and> err = Some ErrOffsetConflict \<and> fs' = fs) \<and>
     (chunk \<noteq> [] \<and> offset = int (length s) \<longrightarrow>
        WriteChunk env c u fs' uid offset chunk broken =
          ((int (length s) + int (length chunk), False, Some ErrOffsetConflict), fs'))"
proof (cases "offset = int (length s)")
  case True
  then have fs': "fs' = set_node fs (d @ [uid @ ''.part'']) (FFile (s @ chunk))"
    using WriteChunk_uploading [OF assms(1-3)] assms(4) by simp
  have up: "uploading env u fs' d uid st (s @ chunk)" unfolding fs' by (rule uploading_set [OF assms(1)])
  show ?thesis using True up fs' WriteChunk_uploading [OF up assms(2,3)] by simp
next
  case False
  then have "fs' = fs \<and> n = int (length s) \<and> err = Some ErrOffsetConflict"
    using WriteChunk_uploading [OF assms(1-3)] assms(4) by simp
  with False assms(1) show ?thesis by simp
qed

text \<open>An upload for the witnesses: three bytes declared, one received.\<close>

definition demo_state :: uploadState where
  "demo_state = \<lparr>us_ID = ''u1'', us_Target = ''/srv/g'', us_Length = 3, us_Expected = []\<rparr>"

definition demo_upload_env :: upload_env where
  "demo_upload_env = \<lparr>ue_sha = (\<lambda>s. take 32 (s @ replicate 32 (CHR ''x''))), ue_marshal = us_Target,
     ue_unmarshal = (\<lambda>b. Some \<lparr>us_ID = ''u1'', us_Target = b, us_Length = 3, us_Expected = []\<rparr>),
     ue_lower = (\<lambda>s. s), ue_fold = ascii_fold\<rparr>"

definition demo_upload_fs :: "string \<Rightarrow> fsys" where
  "demo_upload_fs s = \<lparr>fs_nodes = [([''srv''], FDir), ([''up''], FDir), ([''up'', ''u1.part''], FFile s),
       ([''up'', ''u1.json''], FFile ''/srv/g'')], fs_denied = (\<lambda>_. False), fs_cwd = []\<rparr>"

definition demo_uploader :: Uploader where
  "demo_uploader = \<lparr>up_store = \<lparr>st_roots = [''/srv'']\<rparr>, up_dir = ''/up''\<rparr>"

lemma demo_nodes:
  "node_at (demo_upload_fs s) [''srv''] = Some FDir" "node_at (demo_upload_fs s) [''up''] = Some FDir"
  "node_at (demo_upload_fs s) [''up'', ''u1.part''] = Some (FFile s)"
  "node_at (demo_upload_fs s) [''up'', ''u1.json''] = Some (FFile ''/srv/g'')"
  "node_at (demo_upload_fs s) [''srv'', ''g''] = None" "fs_denied (demo_upload_fs s) p = False"
  by (simp_all add: node_at_def demo_upload_fs_def)

lemma demo_dirs: "real_dir (demo_upload_fs s) [''up'']" "real_dir (demo_upload_fs s) [''srv'']"
  using real_sub [of "demo_upload_fs s" "[]" "''up''"] real_sub [of "demo_upload_fs s" "[]" "''srv''"]
  by (simp_all add: demo_nodes plain_elem_def)

lemma demo_valid: "validUploadID ''u1''"
  by (simp add: validUploadID_def ident_rune_def)

lemma demo_uploading: "uploading demo_upload_env demo_uploader (demo_upload_fs s) [''up''] ''u1'' demo_state s"
  using demo_dirs demo_valid
  by (simp add: uploading_def area_def demo_nodes demo_uploader_def demo_upload_env_def demo_state_def abs_path_def)

theorem chunk_appended_once_witness:
  "uploading demo_upload_env demo_uploader
     (snd (WriteChunk demo_upload_env demo_file_call demo_uploader (demo_upload_fs ''a'') ''u1'' 1 ''b'' False))
     [''up''] ''u1'' demo_state ''ab''"
proof -
  obtain n don err fs' where w: "WriteChunk demo_upload_env demo_file_call demo_uploader (demo_upload_fs ''a'') ''u1'' 1 ''b'' False
      = ((n, don, err), fs')" by (metis prod.collapse)
  have "\<not> fc_fault demo_file_call ReadState" "\<not> fc_fault demo_file_call OpenPart" by (simp_all add: demo_file_call_def)
  from chunk_appended_once [OF demo_uploading this w] w show ?thesis by simp
qed


section \<open>An upload that grew too long\<close>

text \<open>A PATCH is a chunk and, if the chunk completed the upload, the final step.\<close>

definition patch_step :: "upload_env \<Rightarrow> Uploader \<Rightarrow> string \<Rightarrow> fsys \<Rightarrow> file_call \<times> int \<times> string \<times> bool \<Rightarrow> fsys" where
  "patch_step env u uid fs e =
     (case e of (c, offset, chunk, broken) \<Rightarrow>
        (case WriteChunk env c u fs uid offset chunk broken of
           ((_, True, None), fs1) \<Rightarrow> snd (Finish env c u fs1 uid)
         | (_, fs1) \<Rightarrow> fs1))"

text \<open>
  An upload that once exceeded its declared length is stuck: the chunk that overran is kept, and no
  later sequence of PATCH requests ever completes the upload or removes anything, so the part file
  stays until it is deleted explicitly; the offset it reports stays beyond the declared length.
\<close>

lemma overrun_is_stuck:
  assumes "uploading env u fs d uid st s" "us_Length st < int (length s)"
  shows "\<exists>s'. uploading env u (run_steps (patch_step env u uid) fs es) d uid st s' \<and> prefix s s'"
proof -
  have step: "\<exists>s2. uploading env u (patch_step env u uid fs1 e) d uid st s2 \<and> prefix s s2"
    if up: "\<exists>s1. uploading env u fs1 d uid st s1 \<and> prefix s s1" for fs1 e
  proof -
    obtain s1 where s1: "uploading env u fs1 d uid st s1" "prefix s s1" using up by blast
    obtain c offset chunk broken where e: "e = (c, offset, chunk, broken)" by (metis prod_cases4)
    have len: "us_Length st < int (length s1)" using assms(2) prefix_length_le [OF s1(2)] by simp
    show ?thesis
    proof (cases "fc_fault c ReadState \<or> fc_fault c OpenPart")
      case True
      then have "WriteChunk env c u fs1 uid offset chunk broken = (fst (WriteChunk env c u fs1 uid offset chunk broken), fs1) \<and>
          fst (snd (fst (WriteChunk env c u fs1 uid offset chunk broken))) = False"
        using uploading_reads(3) [OF s1(1), of c] s1(1)
        by (cases "fc_fault c ReadState") (auto simp: WriteChunk_def loadState_def)
      then obtain n err where "WriteChunk env c u fs1 uid offset chunk broken = ((n, False, err), fs1)"
        by (metis prod.collapse)
      with s1 e show ?thesis by (auto simp: patch_step_def)
    next
      case False
      then have w: "patch_step env u uid fs1 e =
          (if int (length s1) \<noteq> offset then fs1 else set_node fs1 (d @ [uid @ ''.part'']) (FFile (s1 @ chunk)))"
        using WriteChunk_uploading [OF s1(1), of c offset chunk broken] len by (simp add: patch_step_def e split: option.split)
      show ?thesis using s1 uploading_set [OF s1(1), of "s1 @ chunk"] w by auto
    qed
  qed
  show ?thesis
    by (rule run_steps_invariant [where P = "\<lambda>fs. \<exists>s'. uploading env u fs d uid st s' \<and> prefix s s'"])
      (use assms(1) step in auto)
qed

lemma overrun_is_stuck_example:
  "\<exists>s'. uploading demo_upload_env demo_uploader
      (run_steps (patch_step demo_upload_env demo_uploader ''u1'') (demo_upload_fs ''abcd'') [(demo_file_call, 4, [], False)])
      [''up''] ''u1'' demo_state s' \<and> prefix ''abcd'' s'"
  by (rule overrun_is_stuck [OF demo_uploading]) (simp add: demo_state_def)


section \<open>Finishing\<close>

lemma discard_frame:
  assumes "area u fs d" "validUploadID uid" "p \<noteq> d @ [uid @ ''.part'']" "p \<noteq> d @ [uid @ ''.json'']"
    and "node_at fs (d @ [uid @ ''.part'']) \<noteq> Some FDir"
  shows "node_at (discard c u fs uid) p = node_at fs p"
proof -
  let ?f = "remove_ignored c RemovePart fs (partPath u uid)"
  have d: "real_dir fs d" using assms(1) by (simp add: area_def)
  note names = valid_names [OF assms(2)] and paths = upload_paths [OF assms(1,2)]
  have "?f = fs \<or> ?f = del_node fs (d @ [uid @ ''.part''])"
    using os_remove_frame [OF d names(1)] paths by (auto simp: remove_ignored_def)
  then have "real_dir ?f d" using d real_dir_del [OF d assms(5)] by auto
  then show ?thesis
    using remove_ignored_frame [OF _ names(2) assms(4)] remove_ignored_frame [OF d names(1) assms(3)]
    by (simp add: discard_def paths)
qed

text \<open>Making the target's directory, for a resolved target that is not the root directory.\<close>

lemma mkdir_target:
  assumes "resolved fs q us" "q @ us = t @ [e]" "os_mkdir_all fs (Dir (abs_path (q @ us))) = (err, fs')"
  shows "\<exists>q' xs. t = q' @ xs \<and> grown fs fs' q' xs \<and> (err = None \<longrightarrow> real_dir fs' t)"
proof -
  have plain: "list_all plain_elem t" "plain_elem e" using resolved_plain [OF assms(1)] assms(2) by simp_all
  have "filter (\<lambda>c. c \<noteq> []) (split_byte slash (abs_path t)) = t"
    using plain(1) by (auto simp: split_abs_path filter_id_conv list_all_iff plain_elem_def)
  moreover have "abs_path t \<noteq> []" by (simp add: abs_path_def)
  ultimately have mk: "mkdir_all fs [] (rev t) = (err, fs')"
    using assms(2,3) Dir_abs_path [OF plain] by (simp add: os_mkdir_all_def)
  show ?thesis
  proof (cases us rule: rev_cases)
    case Nil
    then have "real_path fs (t @ [e])" using assms(1,2) by (simp add: resolved_def)
    then have "real_path fs t" by (auto simp: real_path_def)
    with mkdir_all_real [of fs t "[]" err fs'] mk show ?thesis by (intro exI [of _ t] exI [of _ "[]"]) simp
  next
    case (snoc xs x)
    then have t: "t = q @ xs" using assms(2) by simp
    have "\<forall>k ys r. walk fs k q (hd xs # ys) \<noteq> Inr r" if "xs \<noteq> []"
      using assms(1) snoc that by (simp add: resolved_def)
    then show ?thesis
      using mkdir_all_real [of fs q xs err fs'] mk t assms(1) snoc
      by (intro exI [of _ q] exI [of _ xs]) (simp add: resolved_def)
  qed
qed

text \<open>
  Moving the part file, when a failing rename is not the environment's doing: it is renamed, or nothing
  happens.
\<close>

lemma move_renamed:
  assumes "uploading env u fs d uid st s" "real_dir fs t" "plain_elem e" "\<not> fc_fault c RenamePart"
    and "t @ [e] \<noteq> d @ [uid @ ''.part'']"
    and "move_into_place c u fs uid (abs_path (t @ [e])) = (err, fs')"
  shows "if err = None then fs' = set_node (del_node fs (d @ [uid @ ''.part''])) (t @ [e]) (FFile s) \<and>
           node_at fs (t @ [e]) \<noteq> Some FDir
         else fs' = fs"
proof -
  have a: "area u fs d" "validUploadID uid" "real_dir fs d" using assms(1) by (simp_all add: uploading_def area_def)
  note paths = upload_paths(1) [OF a(1,2)] and name = valid_names(1) [OF a(2)]
  have part: "kparent fs (partPath u uid) = Inr (d, uid @ ''.part'')"
    using assms(1) kparent_snoc [OF a(3) name] paths by (simp add: uploading_def)
  have node: "node_at fs (d @ [uid @ ''.part'']) = Some (FFile s)" using assms(1) by (simp add: uploading_def)
  consider (denied) "fs_denied fs (t @ [e])" | (dir) "\<not> fs_denied fs (t @ [e])" "node_at fs (t @ [e]) = Some FDir"
    | (free) "\<not> fs_denied fs (t @ [e])" "node_at fs (t @ [e]) \<noteq> Some FDir" by blast
  then show ?thesis
  proof cases
    case denied
    then have "os_rename fs (partPath u uid) (abs_path (t @ [e])) = (Some EACCES, fs)"
      "os_write fs (abs_path (t @ [e])) x = (Some EACCES, fs)" for x
      using part assms(2,3) by (simp_all add: os_rename_def os_write_def kparent_snoc kwalk_snoc walk_ordinary)
    with assms(4,6) uploading_reads(2) [OF assms(1)] show ?thesis
      by (auto simp: move_into_place_def copyFile_def write_file_def split: if_splits)
  next
    case dir
    then have "os_rename fs (partPath u uid) (abs_path (t @ [e])) = (Some EISDIR, fs)"
      "os_write fs (abs_path (t @ [e])) x = (Some EISDIR, fs)" for x
      using part node assms(2,3) by (simp_all add: os_rename_def os_write_def kparent_snoc kwalk_snoc walk_ordinary)
    with assms(4,6) uploading_reads(2) [OF assms(1)] show ?thesis
      by (auto simp: move_into_place_def copyFile_def write_file_def split: if_splits)
  next
    case free
    then have "os_rename fs (partPath u uid) (abs_path (t @ [e])) =
        (None, set_node (del_node fs (d @ [uid @ ''.part''])) (t @ [e]) (FFile s))"
      using part node assms(2,3,5) by (auto simp: os_rename_def kparent_snoc)
    with assms(4,6) free show ?thesis by (simp add: move_into_place_def)
  qed
qed

text \<open>What \<open>Finish\<close> can do to an upload, with the upload directory outside the roots.\<close>

lemma uploading_grown:
  assumes "uploading env u fs d uid st s" "grown fs fs' q xs"
  shows "uploading env u fs' d uid st s"
proof -
  have "fs_denied fs' = fs_denied fs" using assms(2) by (simp add: grown_def)
  moreover have "real_dir fs' d" using grown_real_dir [OF _ assms(2)] assms(1) by (simp add: uploading_def area_def)
  moreover obtain blob where blob: "node_at fs (d @ [uid @ ''.json'']) = Some (FFile blob)" "ue_unmarshal env blob = Some st"
    using assms(1) by (auto simp: uploading_def)
  moreover have "node_at fs (d @ [uid @ ''.part'']) = Some (FFile s)" using assms(1) by (simp add: uploading_def)
  note grown_kept [OF assms(2) this] grown_kept [OF assms(2) blob(1)]
  ultimately show ?thesis using assms(1) by (simp add: uploading_def area_def)
qed

lemma Finish_cases:
  assumes up: "uploading env u fs d uid st s" and ok: "store_ok (up_store u)"
    and calm: "\<not> fc_fault c ReadState" "\<not> fc_fault c HashOpen" "\<not> fc_fault c RenamePart"
    and out: "\<not> inside (up_store u) (d @ [uid @ ''.part''])"
    and fin: "Finish env c u fs uid = ((digest, err), fs')"
  obtains (discarded) "err \<noteq> None" "fs' = discard c u fs uid"
  | (failed) q xs cs where "err \<noteq> None" "grown fs fs' q xs" "prefix (q @ xs) cs" "inside (up_store u) cs"
  | (stored) q xs e fs1 where "err = None" "grown fs fs1 q xs" "inside (up_store u) (q @ xs @ [e])"
      "Resolve fs (up_store u) (us_Target st) = Inr (abs_path (q @ xs @ [e]))"
      "node_at fs1 (q @ xs @ [e]) \<noteq> Some FDir"
      "real_dir fs1 (q @ xs)" "plain_elem e"
      "us_Expected st = [] \<or> EqualFold (ue_fold env) digest (us_Expected st)"
      "fs' = remove_ignored c RemoveState
         (set_node (del_node fs1 (d @ [uid @ ''.part''])) (q @ xs @ [e]) (FFile s)) (statePath u uid)"
proof -
  have load: "loadState env c u fs uid = Inr st" by (rule uploading_reads(3) [OF up calm(1)])
  have hash: "HashFile (ue_sha env) c fs (partPath u uid) = Inr (hex_encode (ue_sha env s))"
    using calm(2) uploading_reads(2) [OF up] by (simp add: HashFile_def)
  show ?thesis
  proof (cases "(us_Expected st \<noteq> [] \<and> \<not> EqualFold (ue_fold env) (hex_encode (ue_sha env s)) (us_Expected st)) \<or>
      (\<exists>e. Resolve fs (up_store u) (us_Target st) = Inl e)")
    case True
    with load hash fin have "err \<noteq> None \<and> fs' = discard c u fs uid"
      by (auto simp: Finish_def split: if_splits)
    then show ?thesis by (intro discarded) simp_all
  next
    case False
    then obtain target where res: "Resolve fs (up_store u) (us_Target st) = Inr target"
      by (cases "Resolve fs (up_store u) (us_Target st)") auto
    obtain q us where target: "target = abs_path (q @ us)" "resolved fs q us" "inside (up_store u) (q @ us)"
      using res by (cases rule: Resolve_cases [OF ok, of fs "us_Target st"]) auto
    obtain merr fs1 where mk: "(if fc_fault c MakeTargetDir then (Some EIO, fs) else os_mkdir_all fs (Dir target)) = (merr, fs1)"
      by fastforce
    obtain verr fs2 where mv: "move_into_place c u fs1 uid target = (verr, fs2)" by fastforce
    have cond: "\<not> (us_Expected st \<noteq> [] \<and> \<not> EqualFold (ue_fold env) (hex_encode (ue_sha env s)) (us_Expected st))"
      using False by blast
    have fin': "((digest, err), fs') =
        (case merr of Some e \<Rightarrow> ((hex_encode (ue_sha env s), Some (UploadFS e)), fs1)
         | None \<Rightarrow> (case verr of Some e \<Rightarrow> ((hex_encode (ue_sha env s), Some (UploadFS e)), fs2)
                  | None \<Rightarrow> ((hex_encode (ue_sha env s), None), remove_ignored c RemoveState fs2 (statePath u uid))))"
      unfolding fin [symmetric] Finish_def load sum.case hash if_not_P [OF cond] res mk prod.case mv by (rule refl)
    show ?thesis
    proof (cases "q @ us" rule: rev_cases)
      case Nil
      then have t: "target = ''/''" using target(1) by (simp add: abs_path_def)
      have dir: "Dir ''/'' = ''/''" by code_simp
      have "fs1 = fs" using mk by (auto simp: t dir os_mkdir_all_def split: if_splits)
      moreover have "kparent fs ''/'' = Inl EISDIR" "kwalk fs ''/'' = Inr []" by (simp_all add: kparent_def kwalk_def)
      then have "verr \<noteq> None \<and> fs2 = fs1"
        using mv calm(3) \<open>fs1 = fs\<close>
        by (auto simp: t move_into_place_def os_rename_def copyFile_def write_file_def os_write_def split: if_splits sum.splits prod.splits)
      ultimately show ?thesis
        using fin' target(3) Nil by (intro failed [of "[]" "[]" "[]"]) (auto split: option.splits)
    next
      case (snoc t e)
      have e: "plain_elem e" using resolved_plain [OF target(2)] snoc by simp
      have "\<exists>q' xs. t = q' @ xs \<and> grown fs fs1 q' xs \<and> (merr = None \<longrightarrow> real_dir fs1 t)"
      proof (cases "fc_fault c MakeTargetDir")
        case True
        with mk show ?thesis by (intro exI [of _ t] exI [of _ "[]"]) auto
      next
        case False
        with mk mkdir_target [OF target(2) snoc] target(1) show ?thesis by simp
      qed
      then obtain q' xs where t: "t = q' @ xs" "grown fs fs1 q' xs" "merr = None \<longrightarrow> real_dir fs1 t" by blast
      have in_t: "inside (up_store u) (q' @ xs @ [e])" using target(3) snoc t by simp
      show ?thesis
      proof (cases "merr = None")
        case False
        with fin' t in_t show ?thesis by (intro failed [of q' xs "q' @ xs @ [e]"]) auto
      next
        case True
        have ne: "t @ [e] \<noteq> d @ [uid @ ''.part'']" using in_t out t by auto
        have mv': "move_into_place c u fs1 uid (abs_path (t @ [e])) = (verr, fs2)" using mv target(1) snoc by simp
        note moved = move_renamed [OF uploading_grown [OF up t(2)] _ e calm(3) ne mv']
        show ?thesis
        proof (cases "verr = None")
          case False
          with fin' moved t True in_t show ?thesis by (intro failed [of q' xs "q' @ xs @ [e]"]) auto
        next
          case vnone: True
          have exp: "us_Expected st = [] \<or> EqualFold (ue_fold env) digest (us_Expected st)"
            using cond fin' True vnone by auto
          show ?thesis
            using fin' moved t True vnone in_t e res target(1) snoc exp
            by (intro stored [of fs1 q' xs e]) auto
        qed
      qed
    qed
  qed
qed


lemma Finish_digest:
  assumes "uploading env u fs d uid st s" "\<not> fc_fault c ReadState" "\<not> fc_fault c HashOpen"
    and "Finish env c u fs uid = ((digest, err), fs')"
  shows "digest = hex_encode (ue_sha env s)"
proof -
  have hash: "HashFile (ue_sha env) c fs (partPath u uid) = Inr (hex_encode (ue_sha env s))"
    using assms(3) uploading_reads(2) [OF assms(1)] by (simp add: HashFile_def)
  have "fst (fst (Finish env c u fs uid)) = hex_encode (ue_sha env s)"
    unfolding Finish_def uploading_reads(3) [OF assms(1,2)] sum.case hash
    by (simp split: sum.split prod.split option.split)
  with assms(4) show ?thesis by simp
qed

lemma os_mkdir_all_real: "real_dir fs t \<Longrightarrow> os_mkdir_all fs (abs_path t) = (None, fs)"
proof -
  assume t: "real_dir fs t"
  then have "walk fs 40 [] t = Inr t" by (intro walk_real_path) (simp add: real_path_def)
  moreover have "filter (\<lambda>c. c \<noteq> []) (split_byte slash (abs_path t)) = t"
    using real_dir_plain [OF t] by (auto simp: split_abs_path filter_id_conv list_all_iff plain_elem_def)
  moreover have "abs_path t \<noteq> []" by (simp add: abs_path_def)
  ultimately show ?thesis
    using real_dir_node [OF t] by (cases t rule: rev_cases) (simp_all add: os_mkdir_all_def)
qed

text \<open>The final step when nothing fails.\<close>

lemma Finish_ok:
  assumes up: "uploading env u fs d uid st s" and calm: "\<forall>site. \<not> fc_fault c site"
    and exp: "us_Expected st = [] \<or> EqualFold (ue_fold env) (hex_encode (ue_sha env s)) (us_Expected st)"
    and res: "Resolve fs (up_store u) (us_Target st) = Inr (abs_path (t @ [e]))"
    and t: "real_dir fs t" "plain_elem e" "\<not> fs_denied fs (t @ [e])" "node_at fs (t @ [e]) \<noteq> Some FDir"
    and ne: "t @ [e] \<noteq> d @ [uid @ ''.part'']" "t @ [e] \<noteq> d @ [uid @ ''.json'']"
  shows "Finish env c u fs uid = ((hex_encode (ue_sha env s), None),
    del_node (set_node (del_node fs (d @ [uid @ ''.part''])) (t @ [e]) (FFile s)) (d @ [uid @ ''.json'']))"
proof -
  have a: "area u fs d" "validUploadID uid" "real_dir fs d" using up by (simp_all add: uploading_def area_def)
  have hash: "HashFile (ue_sha env) c fs (partPath u uid) = Inr (hex_encode (ue_sha env s))"
    using calm uploading_reads(2) [OF up] by (simp add: HashFile_def)
  have cond: "\<not> (us_Expected st \<noteq> [] \<and> \<not> EqualFold (ue_fold env) (hex_encode (ue_sha env s)) (us_Expected st))"
    using exp by blast
  have dir: "Dir (abs_path (t @ [e])) = abs_path t" using Dir_abs_path real_dir_plain t(1,2) by simp
  let ?fs2 = "set_node (del_node fs (d @ [uid @ ''.part''])) (t @ [e]) (FFile s)"
  have part: "node_at fs (d @ [uid @ ''.part'']) = Some (FFile s)" using up by (simp add: uploading_def)
  have "kparent fs (partPath u uid) = Inr (d, uid @ ''.part'')"
    using up kparent_snoc [OF a(3) valid_names(1) [OF a(2)]] upload_paths(1) [OF a(1,2)] by (simp add: uploading_def)
  then have "os_rename fs (partPath u uid) (abs_path (t @ [e])) = (None, ?fs2)"
    using part t ne(1) by (auto simp: os_rename_def kparent_snoc)
  then have mv: "move_into_place c u fs uid (abs_path (t @ [e])) = (None, ?fs2)"
    using calm by (simp add: move_into_place_def)
  have "real_dir ?fs2 d" using a(3) part t(4) by (intro real_dir_set real_dir_del) auto
  moreover obtain blob where "node_at ?fs2 (d @ [uid @ ''.json'']) = Some (FFile blob)"
    using up ne(2) names_differ(1) [of uid uid] by (auto simp: uploading_def)
  ultimately have "remove_ignored c RemoveState ?fs2 (statePath u uid) = del_node ?fs2 (d @ [uid @ ''.json''])"
    using up calm remove_ignored_file [OF _ valid_names(2) [OF a(2)]] upload_paths(2) [OF a(1,2)]
    by (simp add: uploading_def)
  then show ?thesis
    using uploading_reads(3) [OF up] hash cond res mv dir os_mkdir_all_real [OF t(1)] calm
    by (simp add: Finish_def)
qed

lemma inside_or_above:
  assumes "inside s cs" "prefix p cs"
  shows "inside s p \<or> (\<exists>rt. abs_path rt \<in> set (st_roots s) \<and> prefix p rt)"
proof -
  obtain rt where rt: "list_all plain_elem rt" "abs_path rt \<in> set (st_roots s)" "prefix rt cs" "rt = [] \<longrightarrow> cs = []"
    using assms(1) by (auto simp: inside_def)
  consider "prefix p rt" | "prefix rt p" using prefix_same_cases [OF rt(3) assms(2)] by blast
  then show ?thesis
  proof cases
    case 1
    with rt show ?thesis by blast
  next
    case 2
    moreover have "rt = [] \<longrightarrow> p = []" using rt(4) assms(2) by auto
    ultimately show ?thesis using rt(1,2) unfolding inside_def by blast
  qed
qed

text \<open>
  Finishing an upload writes only inside the roots: whatever the target was, whatever links there
  are and however the call ends, as long as the rename itself is not refused, every name whose
  content changes is the part or state file of this upload, lies inside a root, or is a new directory
  on the way to a root that does not exist yet.
\<close>

lemma Finish_confined:
  assumes "uploading env u fs d uid st s" "NewStore fs0 roots = Inr (up_store u)"
    and "\<not> fc_fault c ReadState" "\<not> fc_fault c HashOpen" "\<not> fc_fault c RenamePart"
    and "\<not> inside (up_store u) (d @ [uid @ ''.part''])"
    and "node_at (snd (Finish env c u fs uid)) p \<noteq> node_at fs p"
  shows "p = d @ [uid @ ''.part''] \<or> p = d @ [uid @ ''.json''] \<or> inside (up_store u) p \<or>
     (node_at fs p = None \<and> node_at (snd (Finish env c u fs uid)) p = Some FDir \<and>
      (\<exists>rt. abs_path rt \<in> set (st_roots (up_store u)) \<and> prefix p rt))"
proof -
  obtain digest err fs' where fin: "Finish env c u fs uid = ((digest, err), fs')" by (metis prod.collapse)
  note ok = NewStore_ok [OF assms(2)]
  have a: "area u fs d" "validUploadID uid" "real_dir fs d" and part: "node_at fs (d @ [uid @ ''.part'']) = Some (FFile s)"
    using assms(1) by (simp_all add: uploading_def area_def)
  have grown_case: ?thesis if "node_at fs' p = node_at f p" "grown fs f q xs" "prefix (q @ xs) cs" "inside (up_store u) cs" for f q xs cs
  proof -
    have "node_at fs p = None \<and> node_at f p = Some FDir \<and> prefix p (q @ xs)"
      using that(1,2) assms(7) fin by (auto simp: grown_def)
    moreover from this have "prefix p cs" using that(3) prefix_order.trans by blast
    ultimately show ?thesis using inside_or_above [OF that(4)] that(1) fin by auto
  qed
  from assms(1) ok assms(3-6) fin show ?thesis
  proof (cases rule: Finish_cases)
    case discarded
    then show ?thesis using discard_frame [OF a(1,2), of p c] part fin assms(7) by auto
  next
    case (failed q xs cs)
    then show ?thesis using grown_case [OF refl] by blast
  next
    case (stored q xs e fs1)
    let ?fs2 = "set_node (del_node fs1 (d @ [uid @ ''.part''])) (q @ xs @ [e]) (FFile s)"
    have "node_at fs1 (d @ [uid @ ''.part'']) = Some (FFile s)" using part grown_kept [OF stored(2)] by blast
    then have "real_dir ?fs2 d"
      using grown_real_dir [OF a(3) stored(2)] stored(5) by (intro real_dir_set real_dir_del) (auto split: if_splits)
    then have "node_at fs' p = node_at ?fs2 p" if "p \<noteq> d @ [uid @ ''.json'']"
      using that remove_ignored_frame [OF _ valid_names(2) [OF a(2)]] upload_paths(2) [OF a(1,2)] stored(9) by simp
    then have *: "node_at fs' p = node_at fs1 p" if "p \<noteq> d @ [uid @ ''.json'']" "p \<noteq> d @ [uid @ ''.part'']" "p \<noteq> q @ xs @ [e]"
      using that by (cases "p = []") auto
    show ?thesis
    proof (cases "p = d @ [uid @ ''.json''] \<or> p = d @ [uid @ ''.part''] \<or> p = q @ xs @ [e]")
      case True
      with stored(3) show ?thesis by auto
    next
      case False
      with * grown_case [OF _ stored(2) _ stored(3)] show ?thesis by simp
    qed
  qed
qed

lemma demo_store: "NewStore (demo_upload_fs s) [''/srv''] = Inr (up_store demo_uploader)"
proof -
  have srv: "''/srv'' = abs_path [''srv'']" "plain_elem ''srv''" by (simp_all add: abs_path_def plain_elem_def)
  have "walk (demo_upload_fs s) 255 [] [''srv''] = Inr [''srv'']"
    by (rule walk_real_path) (simp add: real_path_def demo_dirs(2))
  then have "EvalSymlinks (demo_upload_fs s) ''/srv'' = Inr ''/srv''"
    using EvalSymlinks_abs_path [of "[''srv'']"] srv by simp
  moreover have "Clean ''/srv'' = ''/srv''" unfolding srv(1) using srv(2) by (intro Clean_abs_path) simp
  ultimately show ?thesis by (simp add: NewStore_def resolve_root_def Abs_def demo_uploader_def)
qed

lemma demo_inside: "prefix [''srv''] cs \<Longrightarrow> inside (up_store demo_uploader) cs"
  unfolding inside_def by (intro exI [of _ "[''srv'']"]) (simp add: demo_uploader_def abs_path_def plain_elem_def)

lemma demo_outside: "\<not> inside (up_store demo_uploader) (''up'' # cs)"
proof
  assume "inside (up_store demo_uploader) (''up'' # cs)"
  then obtain rt where "list_all plain_elem rt" "abs_path rt = abs_path [''srv'']" "prefix rt (''up'' # cs)"
    by (auto simp: inside_def demo_uploader_def abs_path_def)
  moreover from this have "rt = [''srv'']" using abs_path_inject [of rt "[''srv'']"] by (simp add: plain_elem_def)
  ultimately show False by simp
qed

lemma demo_calm: "\<not> fc_fault demo_file_call site"
  by (simp add: demo_file_call_def)

lemma demo_resolve: "Resolve (demo_upload_fs s) (up_store demo_uploader) ''/srv/g'' = Inr (abs_path ([''srv''] @ [''g'']))"
proof (rule Resolve_missing)
  show "store_ok (up_store demo_uploader)" by (rule NewStore_ok [OF demo_store])
  show "candidate (up_store demo_uploader) ''/srv/g'' = abs_path ([''srv''] @ [''g''])"
    using candidate_abs [of "[''srv'', ''g'']" "up_store demo_uploader"] by (simp add: abs_path_def plain_elem_def)
  show "walk (demo_upload_fs s) 255 [''srv''] [''g''] = Inl (ENOENT ([''srv''] @ [''g'']) True)"
    by (simp add: walk_ordinary ordinary_def demo_nodes)
qed (simp_all add: demo_dirs demo_inside plain_elem_def)

lemma demo_finish:
  "Finish demo_upload_env demo_file_call demo_uploader (demo_upload_fs s) ''u1'' =
     ((hex_encode (ue_sha demo_upload_env s), None),
      del_node (set_node (del_node (demo_upload_fs s) [''up'', ''u1.part'']) [''srv'', ''g''] (FFile s)) [''up'', ''u1.json''])"
  using Finish_ok [OF demo_uploading, of demo_file_call s "[''srv'']" "''g''"]
  by (simp add: demo_calm demo_resolve demo_state_def demo_dirs demo_nodes plain_elem_def)

lemma Finish_confined_example:
  "[''srv'', ''g''] = [''up''] @ [''u1'' @ ''.part''] \<or> [''srv'', ''g''] = [''up''] @ [''u1'' @ ''.json''] \<or>
   inside (up_store demo_uploader) [''srv'', ''g''] \<or>
   (node_at (demo_upload_fs ''abc'') [''srv'', ''g''] = None \<and>
    node_at (snd (Finish demo_upload_env demo_file_call demo_uploader (demo_upload_fs ''abc'') ''u1'')) [''srv'', ''g''] = Some FDir \<and>
    (\<exists>rt. abs_path rt \<in> set (st_roots (up_store demo_uploader)) \<and> prefix [''srv'', ''g''] rt))"
proof (rule Finish_confined [OF demo_uploading demo_store demo_calm demo_calm demo_calm])
  show "\<not> inside (up_store demo_uploader) ([''up''] @ [''u1'' @ ''.part''])" using demo_outside by simp
  show "node_at (snd (Finish demo_upload_env demo_file_call demo_uploader (demo_upload_fs ''abc'') ''u1'')) [''srv'', ''g'']
      \<noteq> node_at (demo_upload_fs ''abc'') [''srv'', ''g'']"
    by (simp add: demo_finish demo_nodes)
qed

text \<open>
  Moving the part file successfully, whatever fails on the way: by the rename or, when that is refused, by the copy.
\<close>

lemma move_success:
  assumes "uploading env u fs d uid st s" "real_dir fs t" "plain_elem e" "t @ [e] \<noteq> d @ [uid @ ''.part'']"
    and "\<forall>l. node_at fs (t @ [e]) \<noteq> Some (FLink l)"
    and "move_into_place c u fs uid (abs_path (t @ [e])) = (None, fs')"
  shows "node_at fs' (t @ [e]) = Some (FFile s) \<and> real_dir fs' d"
proof -
  have a: "area u fs d" "validUploadID uid" "real_dir fs d" using assms(1) by (simp_all add: uploading_def area_def)
  note paths = upload_paths(1) [OF a(1,2)] and name = valid_names(1) [OF a(2)]
  let ?part = "d @ [uid @ ''.part'']" and ?fs2 = "set_node fs (t @ [e]) (FFile s)"
  have part: "kparent fs (partPath u uid) = Inr (d, uid @ ''.part'')" "node_at fs ?part = Some (FFile s)"
    using assms(1) kparent_snoc [OF a(3) name] paths by (simp_all add: uploading_def)
  consider (denied) "fs_denied fs (t @ [e])" | (dir) "\<not> fs_denied fs (t @ [e])" "node_at fs (t @ [e]) = Some FDir"
    | (free) "\<not> fs_denied fs (t @ [e])" "node_at fs (t @ [e]) \<noteq> Some FDir" by blast
  then show ?thesis
  proof cases
    case denied
    then have "os_rename fs (partPath u uid) (abs_path (t @ [e])) = (Some EACCES, fs)"
      "os_write fs (abs_path (t @ [e])) x = (Some EACCES, fs)" for x
      using part assms(2,3) by (simp_all add: os_rename_def os_write_def kparent_snoc kwalk_snoc walk_ordinary)
    with assms(6) uploading_reads(2) [OF assms(1)] show ?thesis
      by (auto simp: move_into_place_def copyFile_def write_file_def split: if_splits)
  next
    case dir
    then have "os_rename fs (partPath u uid) (abs_path (t @ [e])) = (Some EISDIR, fs)"
      "os_write fs (abs_path (t @ [e])) x = (Some EISDIR, fs)" for x
      using part assms(2,3) by (simp_all add: os_rename_def os_write_def kparent_snoc kwalk_snoc walk_ordinary)
    with assms(6) uploading_reads(2) [OF assms(1)] show ?thesis
      by (auto simp: move_into_place_def copyFile_def write_file_def split: if_splits)
  next
    case free
    have ren: "os_rename fs (partPath u uid) (abs_path (t @ [e])) = (None, set_node (del_node fs ?part) (t @ [e]) (FFile s))"
      using part free assms(2-4) by (auto simp: os_rename_def kparent_snoc)
    have wr: "os_write fs (abs_path (t @ [e])) x = (None, set_node fs (t @ [e]) (FFile x))" for x
      using free assms(2,3,5)
      by (cases "node_at fs (t @ [e])") (auto simp: os_write_def kwalk_snoc walk_ordinary split: node.splits)
    show ?thesis
    proof (cases "fc_fault c RenamePart")
      case False
      with assms(6) ren have "fs' = set_node (del_node fs ?part) (t @ [e]) (FFile s)" by (simp add: move_into_place_def)
      moreover have "real_dir (set_node (del_node fs ?part) (t @ [e]) (FFile s)) d"
        using a(3) part(2) free(2) by (intro real_dir_set real_dir_del) auto
      ultimately show ?thesis by simp
    next
      case True
      with assms(6) wr uploading_reads(2) [OF assms(1)]
      have fs': "fs' = remove_ignored c RemovePart ?fs2 (partPath u uid)"
        by (auto simp: move_into_place_def copyFile_def write_file_def split: if_splits)
      have d2: "real_dir ?fs2 d" using a(3) free(2) by (intro real_dir_set) auto
      have "fs' = ?fs2 \<or> fs' = del_node ?fs2 ?part"
        unfolding fs' paths using os_remove_frame [OF d2 name] by (auto simp: remove_ignored_def)
      moreover have "real_dir (del_node ?fs2 ?part) d" using d2 part(2) assms(4) by (intro real_dir_del) auto
      ultimately show ?thesis using d2 assms(4) by auto
    qed
  qed
qed

text \<open>An upload that is answered as finished: the hash was compared and the bytes are in place.\<close>

lemma Finish_stored:
  assumes up: "uploading env u fs d uid st s" and ok: "store_ok (up_store u)"
    and out: "\<not> inside (up_store u) (d @ [uid @ ''.part''])" "\<not> inside (up_store u) (d @ [uid @ ''.json''])"
    and fin: "Finish env c u fs uid = ((digest, None), fs')"
  shows "digest = hex_encode (ue_sha env s) \<and> (us_Expected st = [] \<or> EqualFold (ue_fold env) digest (us_Expected st)) \<and>
     (\<exists>cs. Resolve fs (up_store u) (us_Target st) = Inr (abs_path cs) \<and>
        (node_at fs' cs = Some (FFile s) \<or> (\<exists>l. node_at fs cs = Some (FLink l))))"
proof -
  have a: "area u fs d" "validUploadID uid" "real_dir fs d" using up by (simp_all add: uploading_def area_def)
  note names = valid_names [OF a(2)] and paths = upload_paths [OF a(1,2)]
  have "\<not> fc_fault c ReadState" using fin a(2) by (auto simp: Finish_def loadState_def)
  then have load: "loadState env c u fs uid = Inr st" by (rule uploading_reads(3) [OF up])
  have "\<not> fc_fault c HashOpen" using fin load by (auto simp: Finish_def HashFile_def)
  then have hash: "HashFile (ue_sha env) c fs (partPath u uid) = Inr (hex_encode (ue_sha env s))"
    using uploading_reads(2) [OF up] by (simp add: HashFile_def)
  have cond: "\<not> (us_Expected st \<noteq> [] \<and> \<not> EqualFold (ue_fold env) (hex_encode (ue_sha env s)) (us_Expected st))"
    using fin load hash by (auto simp: Finish_def split: if_splits)
  obtain target where res: "Resolve fs (up_store u) (us_Target st) = Inr target"
    using fin load hash cond by (cases "Resolve fs (up_store u) (us_Target st)") (auto simp: Finish_def)
  obtain q us where target: "target = abs_path (q @ us)" "resolved fs q us" "inside (up_store u) (q @ us)"
    using res by (cases rule: Resolve_cases [OF ok, of fs "us_Target st"]) auto
  obtain merr fs1 where mk: "(if fc_fault c MakeTargetDir then (Some EIO, fs) else os_mkdir_all fs (Dir target)) = (merr, fs1)"
    by fastforce
  obtain verr fs2 where mv: "move_into_place c u fs1 uid target = (verr, fs2)" by fastforce
  have fin': "((digest, None), fs') =
      (case merr of Some e \<Rightarrow> ((hex_encode (ue_sha env s), Some (UploadFS e)), fs1)
       | None \<Rightarrow> (case verr of Some e \<Rightarrow> ((hex_encode (ue_sha env s), Some (UploadFS e)), fs2)
                | None \<Rightarrow> ((hex_encode (ue_sha env s), None), remove_ignored c RemoveState fs2 (statePath u uid))))"
    unfolding fin [symmetric] Finish_def load sum.case hash if_not_P [OF cond] res mk prod.case mv by (rule refl)
  then have none: "merr = None" "verr = None" "digest = hex_encode (ue_sha env s)"
    "fs' = remove_ignored c RemoveState fs2 (statePath u uid)"
    by (auto split: option.splits)
  have "node_at fs' (q @ us) = Some (FFile s) \<or> (\<exists>l. node_at fs (q @ us) = Some (FLink l))"
  proof (cases "q @ us" rule: rev_cases)
    case Nil
    then have t: "target = ''/''" using target(1) by (simp add: abs_path_def)
    have dir: "Dir ''/'' = ''/''" by code_simp
    have "fs1 = fs" using mk by (auto simp: t dir os_mkdir_all_def split: if_splits)
    moreover have "kparent fs ''/'' = Inl EISDIR" "kwalk fs ''/'' = Inr []" by (simp_all add: kparent_def kwalk_def)
    ultimately have "verr \<noteq> None"
      using mv by (auto simp: t move_into_place_def os_rename_def copyFile_def write_file_def os_write_def
          split: if_splits sum.splits prod.splits)
    with none show ?thesis by simp
  next
    case (snoc t e)
    have e: "plain_elem e" using resolved_plain [OF target(2)] snoc by simp
    obtain q' xs where g: "grown fs fs1 q' xs" "real_dir fs1 t"
      using mk none(1) mkdir_target [OF target(2) snoc] target(1) by (fastforce split: if_splits)
    have ne: "t @ [e] \<noteq> d @ [uid @ ''.part'']" "t @ [e] \<noteq> d @ [uid @ ''.json'']" using target(3) snoc out by auto
    show ?thesis
    proof (cases "\<exists>l. node_at fs1 (t @ [e]) = Some (FLink l)")
      case True
      then obtain l where "node_at fs1 (t @ [e]) = Some (FLink l)" by blast
      moreover have "node_at fs1 (t @ [e]) = node_at fs (t @ [e]) \<or> node_at fs1 (t @ [e]) = Some FDir"
        using g(1) unfolding grown_def by blast
      ultimately have "node_at fs (t @ [e]) = Some (FLink l)" by simp
      with snoc show ?thesis by simp
    next
      case False
      then have "node_at fs2 (t @ [e]) = Some (FFile s) \<and> real_dir fs2 d"
        using move_success [OF uploading_grown [OF up g(1)] g(2) e ne(1)] mv none(2) target(1) snoc by simp
      then show ?thesis using remove_ignored_frame [OF _ names(2) ne(2)] none(4) paths(2) snoc by simp
    qed
  qed
  with none(3) cond res target(1) show ?thesis by auto
qed

text \<open>
  C24. What the declared hash is good for, whatever fails: when the client declared one and the upload directory
  is outside the roots, an upload that is answered as finished had exactly that hash, and the bytes that were hashed are
  what is in place, unless the name was taken by a symbolic link, through which a copy writes. An upload whose bytes hash
  to something else is never answered as finished and touches nothing but its own two files; if these can be read and removed,
  the answer is the mismatch with the hash that was computed, and both are gone. The case in between is not excluded:
  an upload with the right hash whose rename is refused and whose copy breaks off is answered with an error, and what was
  copied so far stays in place.
\<close>

theorem Finish_verifies:
  assumes "uploading env u fs d uid st s" "NewStore fs0 roots = Inr (up_store u)"
    and "\<not> inside (up_store u) (d @ [uid @ ''.part''])" "\<not> inside (up_store u) (d @ [uid @ ''.json''])"
    and "us_Expected st \<noteq> []" "Finish env c u fs uid = ((digest, err), fs')"
  shows "(err = None \<longrightarrow> digest = hex_encode (ue_sha env s) \<and> EqualFold (ue_fold env) digest (us_Expected st) \<and>
       (\<exists>cs. Resolve fs (up_store u) (us_Target st) = Inr (abs_path cs) \<and>
          (node_at fs' cs = Some (FFile s) \<or> (\<exists>l. node_at fs cs = Some (FLink l))))) \<and>
     (\<not> EqualFold (ue_fold env) (hex_encode (ue_sha env s)) (us_Expected st) \<longrightarrow>
       err \<noteq> None \<and>
       (\<forall>p. p \<noteq> d @ [uid @ ''.part''] \<longrightarrow> p \<noteq> d @ [uid @ ''.json''] \<longrightarrow> node_at fs' p = node_at fs p) \<and>
       ((\<forall>site \<in> {ReadState, HashOpen, RemovePart, RemoveState}. \<not> fc_fault c site) \<longrightarrow>
          digest = hex_encode (ue_sha env s) \<and> err = Some ErrChecksumMismatch \<and>
          fs' = del_node (del_node fs (d @ [uid @ ''.part''])) (d @ [uid @ ''.json''])))"
proof -
  have a: "area u fs d" "validUploadID uid" "real_dir fs d" using assms(1) by (simp_all add: uploading_def area_def)
  note ok = NewStore_ok [OF assms(2)] and names = valid_names [OF a(2)] and paths = upload_paths [OF a(1,2)]
  have part: "node_at fs (d @ [uid @ ''.part'']) = Some (FFile s)" using assms(1) by (simp add: uploading_def)
  let ?mismatch = "\<not> EqualFold (ue_fold env) (hex_encode (ue_sha env s)) (us_Expected st)"
  have bad: "(err \<noteq> None \<and> fs' = fs \<and> (fc_fault c ReadState \<or> fc_fault c HashOpen)) \<or>
      (digest = hex_encode (ue_sha env s) \<and> err = Some ErrChecksumMismatch \<and> fs' = discard c u fs uid)" if ?mismatch
  proof (cases "fc_fault c ReadState \<or> fc_fault c HashOpen")
    case True
    then have "err \<noteq> None \<and> fs' = fs"
    proof (cases "fc_fault c ReadState")
      case True
      with assms(6) a(2) show ?thesis by (auto simp: Finish_def loadState_def)
    next
      case False
      with \<open>fc_fault c ReadState \<or> fc_fault c HashOpen\<close> assms(6) uploading_reads(3) [OF assms(1) False] show ?thesis
        by (auto simp: Finish_def HashFile_def)
    qed
    with True show ?thesis by blast
  next
    case False
    then have load: "loadState env c u fs uid = Inr st" using uploading_reads(3) [OF assms(1)] by simp
    have "HashFile (ue_sha env) c fs (partPath u uid) = Inr (hex_encode (ue_sha env s))"
      using False uploading_reads(2) [OF assms(1)] by (simp add: HashFile_def)
    with load that assms(5,6) show ?thesis by (simp add: Finish_def)
  qed
  have frame: "node_at fs' p = node_at fs p"
    if ?mismatch "p \<noteq> d @ [uid @ ''.part'']" "p \<noteq> d @ [uid @ ''.json'']" for p
    using bad [OF that(1)] discard_frame [OF a(1,2) that(2,3), of c] part by auto
  have gone: "discard c u fs uid = del_node (del_node fs (d @ [uid @ ''.part''])) (d @ [uid @ ''.json''])"
    if calm: "\<not> fc_fault c RemovePart" "\<not> fc_fault c RemoveState"
  proof -
    let ?fs1 = "del_node fs (d @ [uid @ ''.part''])"
    have "real_dir ?fs1 d" using a(3) part by (intro real_dir_del) simp_all
    moreover obtain blob where "node_at ?fs1 (d @ [uid @ ''.json'']) = Some (FFile blob)"
      using assms(1) names_differ(1) [of uid uid] by (auto simp: uploading_def)
    ultimately have "remove_ignored c RemoveState ?fs1 (statePath u uid) = del_node ?fs1 (d @ [uid @ ''.json''])"
      using remove_ignored_file [OF _ names(2)] assms(1) calm(2) paths(2) by (simp add: uploading_def)
    moreover have "remove_ignored c RemovePart fs (partPath u uid) = ?fs1"
      using remove_ignored_file [OF a(3) names(1) _ part] assms(1) calm(1) paths(1) by (simp add: uploading_def)
    ultimately show ?thesis by (simp add: discard_def)
  qed
  show ?thesis
    using Finish_stored [OF assms(1) ok assms(3,4)] assms(5,6) bad frame gone by auto
qed

definition demo_hash_env :: upload_env where
  "demo_hash_env = demo_upload_env\<lparr>ue_unmarshal := (\<lambda>b. Some (demo_state\<lparr>us_Expected := ''00''\<rparr>))\<rparr>"

theorem Finish_verifies_witness:
  "Finish demo_hash_env demo_file_call demo_uploader (demo_upload_fs ''abc'') ''u1'' =
     ((hex_encode (ue_sha demo_hash_env ''abc''), Some ErrChecksumMismatch),
      del_node (del_node (demo_upload_fs ''abc'') [''up'', ''u1.part'']) [''up'', ''u1.json''])"
proof -
  let ?st = "demo_state\<lparr>us_Expected := ''00''\<rparr>"
  have up: "uploading demo_hash_env demo_uploader (demo_upload_fs ''abc'') [''up''] ''u1'' ?st ''abc''"
    using demo_uploading [of "''abc''"] by (auto simp: uploading_def demo_hash_env_def)
  obtain digest err fs' where fin: "Finish demo_hash_env demo_file_call demo_uploader (demo_upload_fs ''abc'') ''u1'' = ((digest, err), fs')"
    by (metis prod.collapse)
  have "\<not> EqualFold (ue_fold demo_hash_env) (hex_encode (ue_sha demo_hash_env ''abc'')) ''00''"
    by (simp add: demo_hash_env_def demo_upload_env_def) code_simp
  with Finish_verifies [OF up demo_store _ _ _ fin] fin demo_outside show ?thesis by (simp add: demo_calm)
qed

end
