(* ===== verification/Files_Delivery.thy ===== *)
theory Files_Delivery
  imports Files_Uploads
begin

text \<open>
  Uploads from end to end: what is sent in any chunks is what a later download delivers; what two
  interleaved requests can do to one upload; where the copy that replaces a failed rename writes; and
  the headers of the protocol.
\<close>


section \<open>From creation to download\<close>

lemma real_dir_mono:
  "real_dir fs d \<Longrightarrow> (\<And>p. node_at fs p = Some FDir \<Longrightarrow> node_at fs' p = Some FDir) \<Longrightarrow> fs_denied fs' = fs_denied fs
   \<Longrightarrow> real_dir fs' d"
  by (induction rule: real_dir.induct) simp_all

lemma os_create_excl_snoc:
  assumes "real_dir fs d" "plain_elem e" "\<not> fs_denied fs (d @ [e])" "node_at fs (d @ [e]) = None"
  shows "os_create_excl fs (abs_path (d @ [e])) = (None, set_node fs (d @ [e]) (FFile []))"
  using assms by (simp add: os_create_excl_def kparent_snoc)

lemma os_write_new:
  assumes "real_dir fs d" "plain_elem e" "\<not> fs_denied fs (d @ [e])" "node_at fs (d @ [e]) = None"
  shows "os_write fs (abs_path (d @ [e])) s = (None, set_node fs (d @ [e]) (FFile s))"
  using assms by (simp add: os_write_def kwalk_snoc walk_ordinary)

lemma Create_uploading:
  assumes "area u fs d" "validUploadID uid" "\<forall>site. \<not> fc_fault c site" "0 \<le> len"
    and "\<not> fs_denied fs (d @ [uid @ ''.part''])" "\<not> fs_denied fs (d @ [uid @ ''.json''])"
    and "node_at fs (d @ [uid @ ''.part'']) = None" "node_at fs (d @ [uid @ ''.json'']) = None"
    and "Resolve fs (up_store u) target = Inr p"
    and "st = \<lparr>us_ID = uid, us_Target = target, us_Length = len, us_Expected = ue_lower env expected\<rparr>"
    and "ue_unmarshal env (ue_marshal env st) = Some st"
  obtains fs' where "UploadCreate env c u fs uid target len expected = (None, fs')"
    "uploading env u fs' d uid st []"
    "fs' = set_node (set_node fs (d @ [uid @ ''.part'']) (FFile [])) (d @ [uid @ ''.json'']) (FFile (ue_marshal env st))"
proof -
  have d: "real_dir fs d" using assms(1) by (simp add: area_def)
  note names = valid_names [OF assms(2)] and paths = upload_paths [OF assms(1,2)]
  let ?f1 = "set_node fs (d @ [uid @ ''.part'']) (FFile [])"
  let ?f2 = "set_node ?f1 (d @ [uid @ ''.json'']) (FFile (ue_marshal env st))"
  have d1: "real_dir ?f1 d" using d assms(7) by (intro real_dir_set) simp_all
  have d2: "real_dir ?f2 d" using assms(8) names_differ(1) [of uid uid] by (intro real_dir_set [OF d1]) auto
  have "os_create_excl fs (partPath u uid) = (None, ?f1)"
    unfolding paths by (rule os_create_excl_snoc [OF d names(1) assms(5,7)])
  moreover have "os_write ?f1 (statePath u uid) (ue_marshal env st) = (None, ?f2)"
    unfolding paths using assms(6,8) names_differ(1) [of uid uid] by (intro os_write_new [OF d1 names(2)]) auto
  ultimately have "UploadCreate env c u fs uid target len expected = (None, ?f2)"
    using assms(2,3,4,9,10) by (simp add: UploadCreate_def write_file_def Let_def)
  moreover have "uploading env u ?f2 d uid st []"
    using assms(1,2,5,6,11) d2 names_differ(1) [of uid uid] by (auto simp: uploading_def area_def)
  ultimately show ?thesis by (rule that) simp
qed

text \<open>The chunks of one client, each sent at the offset the previous answer named.\<close>

fun send_chunks ::
    "upload_env \<Rightarrow> file_call \<Rightarrow> Uploader \<Rightarrow> string \<Rightarrow> fsys \<Rightarrow> int \<Rightarrow> string list \<Rightarrow>
     (int \<times> bool \<times> upload_error option) \<times> fsys" where
  "send_chunks env c u uid fs offset [] = ((offset, False, None), fs)"
| "send_chunks env c u uid fs offset (chunk # chunks) =
     (case WriteChunk env c u fs uid offset chunk False of
        ((n, False, None), fs1) \<Rightarrow> send_chunks env c u uid fs1 n chunks
      | r \<Rightarrow> r)"

lemma send_chunks_all:
  assumes "uploading env u fs d uid st s" "\<not> fc_fault c ReadState" "\<not> fc_fault c OpenPart"
    and "\<forall>chunk \<in> set chunks. chunk \<noteq> []" "chunks \<noteq> []" "int (length s + length (concat chunks)) = us_Length st"
  shows "\<exists>fs'. send_chunks env c u uid fs (int (length s)) chunks = ((us_Length st, True, None), fs') \<and>
     uploading env u fs' d uid st (s @ concat chunks) \<and> (\<forall>p. p \<noteq> d @ [uid @ ''.part''] \<longrightarrow> node_at fs' p = node_at fs p) \<and>
     fs_denied fs' = fs_denied fs"
  using assms
proof (induction chunks arbitrary: fs s)
  case (Cons chunk chunks)
  let ?f1 = "set_node fs (d @ [uid @ ''.part'']) (FFile (s @ chunk))"
  have up1: "uploading env u ?f1 d uid st (s @ chunk)" by (rule uploading_set [OF Cons.prems(1)])
  note w = WriteChunk_uploading [OF Cons.prems(1-3), of "int (length s)" chunk False]
  show ?case
  proof (cases "chunks = []")
    case True
    with w up1 Cons.prems(6) show ?thesis by simp
  next
    case False
    obtain x xs where x: "chunks = x # xs" using False by (cases chunks) auto
    have "concat chunks \<noteq> []" using Cons.prems(4) x by simp
    then obtain k where "length (concat chunks) = Suc k" by (cases "concat chunks") simp_all
    then have "int (length s) + int (length chunk) < us_Length st" using Cons.prems(6) by simp
    then have "WriteChunk env c u fs uid (int (length s)) chunk False = ((int (length (s @ chunk)), False, None), ?f1)"
      using w by simp
    moreover obtain fs' where "send_chunks env c u uid ?f1 (int (length (s @ chunk))) chunks = ((us_Length st, True, None), fs')"
      "uploading env u fs' d uid st ((s @ chunk) @ concat chunks)" "fs_denied fs' = fs_denied ?f1"
      "\<forall>p. p \<noteq> d @ [uid @ ''.part''] \<longrightarrow> node_at fs' p = node_at ?f1 p"
      using Cons.IH [OF up1 Cons.prems(2,3) _ False] Cons.prems(4,6) by auto
    ultimately show ?thesis by (intro exI [of _ fs']) auto
  qed
qed simp

lemma OpenStored_real:
  assumes "store_ok s" "candidate s rel = abs_path (t @ [e])" "CHR 0x00 \<notin> set rel" "inside s (t @ [e])"
    and "real_dir fs t" "plain_elem e" "\<not> fs_denied fs (t @ [e])" "node_at fs (t @ [e]) = Some (FFile content)"
    and "\<forall>site. \<not> fc_fault c site"
  shows "OpenStored sha c fs s rel = Inr (content, int (length content), hex_encode (sha content))"
proof -
  have "real_path fs (t @ [e])" using assms(5-8) by (auto simp: real_path_def)
  then have "Resolve fs s rel = Inr (abs_path (t @ [e]))" using assms(1-4) by (intro Resolve_existing)
  with os_stat_file [OF assms(5-8)] os_read_file [OF assms(5-8)] assms(9) show ?thesis
    by (simp add: OpenStored_def HashFile_def)
qed

text \<open>
  Uploads are faithful: a file that is created, sent in any number of non-empty chunks of any sizes
  and finished is stored under the name that was asked for, byte for byte; the last chunk is the one
  that is answered as completing it; and a later download delivers exactly these bytes with their
  length and their hash, the hash that the upload was answered with.
\<close>

lemma upload_delivers:
  assumes u: "area u fs d" "validUploadID uid" "NewStore fs0 roots = Inr (up_store u)"
    and calm: "\<forall>site. \<not> fc_fault c site"
    and free: "\<not> fs_denied fs (d @ [uid @ ''.part''])" "\<not> fs_denied fs (d @ [uid @ ''.json''])"
      "node_at fs (d @ [uid @ ''.part'']) = None" "node_at fs (d @ [uid @ ''.json'']) = None"
    and target: "candidate (up_store u) target = abs_path (t @ [e])" "CHR 0x00 \<notin> set target" "real_dir fs t" "plain_elem e"
      "inside (up_store u) (t @ [e])" "\<not> fs_denied fs (t @ [e])" "node_at fs (t @ [e]) = None"
      "t @ [e] \<noteq> d @ [uid @ ''.part'']" "t @ [e] \<noteq> d @ [uid @ ''.json'']"
    and chunks: "\<forall>chunk \<in> set chunks. chunk \<noteq> []" "chunks \<noteq> []" "len = int (length (concat chunks))"
    and st: "st = \<lparr>us_ID = uid, us_Target = target, us_Length = len, us_Expected = ue_lower env expected\<rparr>"
      "ue_unmarshal env (ue_marshal env st) = Some st"
    and hash: "us_Expected st = [] \<or> EqualFold (ue_fold env) (hex_encode (ue_sha env (concat chunks))) (us_Expected st)"
  shows "\<exists>fs1 fs2 fs3. UploadCreate env c u fs uid target len expected = (None, fs1) \<and>
     send_chunks env c u uid fs1 0 chunks = ((len, True, None), fs2) \<and>
     Finish env c u fs2 uid = ((hex_encode (ue_sha env (concat chunks)), None), fs3) \<and>
     OpenStored (ue_sha env) c fs3 (up_store u) target =
       Inr (concat chunks, len, hex_encode (ue_sha env (concat chunks)))"
proof -
  note ok = NewStore_ok [OF u(3)]
  have miss: "walk f 255 t [e] = Inl (ENOENT (t @ [e]) True)" if "\<not> fs_denied f (t @ [e])" "node_at f (t @ [e]) = None" for f
    using that target(4) by (simp add: walk_ordinary)
  have res: "Resolve fs (up_store u) target = Inr (abs_path (t @ [e]))"
    by (rule Resolve_missing [OF ok target(1-4) miss [OF target(6,7)] target(5)])
  have "0 \<le> len" using chunks(3) by simp
  then obtain fs1 where create: "UploadCreate env c u fs uid target len expected = (None, fs1)"
    and up1: "uploading env u fs1 d uid st []"
    and fs1: "fs1 = set_node (set_node fs (d @ [uid @ ''.part'']) (FFile [])) (d @ [uid @ ''.json'']) (FFile (ue_marshal env st))"
    using Create_uploading [OF u(1,2) calm _ free res st] by metis
  have lenst: "us_Length st = len" "us_Target st = target" using st(1) by simp_all
  obtain fs2 where send: "send_chunks env c u uid fs1 0 chunks = ((len, True, None), fs2)"
    and up2: "uploading env u fs2 d uid st (concat chunks)"
    and same: "\<forall>p. p \<noteq> d @ [uid @ ''.part''] \<longrightarrow> node_at fs2 p = node_at fs1 p" "fs_denied fs2 = fs_denied fs1"
    using send_chunks_all [OF up1 _ _ chunks(1,2), of c] calm chunks(3) lenst by auto
  have t1: "real_dir fs1 t" unfolding fs1 using target(3) free names_differ(1) [of uid uid] by (intro real_dir_set) auto
  have t2: "real_dir fs2 t"
  proof (rule real_dir_mono [OF t1])
    show "node_at fs2 p = Some FDir" if "node_at fs1 p = Some FDir" for p
      using that same(1) up1 by (cases "p = d @ [uid @ ''.part'']") (simp_all add: uploading_def)
  qed (rule same(2))
  have node2: "node_at fs2 (t @ [e]) = None" using same target(7-9) fs1 by simp
  have den2: "\<not> fs_denied fs2 (t @ [e])" using same(2) target(6) fs1 by simp
  have res2: "Resolve fs2 (up_store u) (us_Target st) = Inr (abs_path (t @ [e]))"
    unfolding lenst by (rule Resolve_missing [OF ok target(1,2) t2 target(4) miss [OF den2 node2] target(5)])
  let ?f3 = "set_node (del_node fs2 (d @ [uid @ ''.part''])) (t @ [e]) (FFile (concat chunks))"
  let ?f4 = "del_node ?f3 (d @ [uid @ ''.json''])"
  have fin: "Finish env c u fs2 uid = ((hex_encode (ue_sha env (concat chunks)), None), ?f4)"
    using Finish_ok [OF up2 calm hash res2 t2 target(4) den2 _ target(8,9)] node2 by simp
  have "real_dir ?f4 t"
    using t2 up2 node2 target(9) names_differ(1) [of uid uid]
    by (intro real_dir_del real_dir_set) (auto simp: uploading_def)
  then have "OpenStored (ue_sha env) c ?f4 (up_store u) target =
      Inr (concat chunks, len, hex_encode (ue_sha env (concat chunks)))"
    using OpenStored_real [OF ok target(1,2,5) _ target(4) _ _ calm, of ?f4 "concat chunks"] den2 target(9) chunks(3) by simp
  with create send fin show ?thesis by blast
qed

definition demo_empty_fs :: fsys where
  "demo_empty_fs = \<lparr>fs_nodes = [([''srv''], FDir), ([''up''], FDir)], fs_denied = (\<lambda>_. False), fs_cwd = []\<rparr>"

lemma demo_empty:
  "node_at demo_empty_fs [''srv''] = Some FDir" "node_at demo_empty_fs [''up''] = Some FDir"
  "node_at demo_empty_fs [x, y] = None" "fs_denied demo_empty_fs p = False"
  by (simp_all add: node_at_def demo_empty_fs_def)

lemma demo_empty_dirs: "real_dir demo_empty_fs [''up'']" "real_dir demo_empty_fs [''srv'']"
  using real_sub [of demo_empty_fs "[]" "''up''"] real_sub [of demo_empty_fs "[]" "''srv''"]
  by (simp_all add: demo_empty plain_elem_def)

lemma demo_up_dir: "up_dir demo_uploader = abs_path [''up'']"
  by (simp add: demo_uploader_def abs_path_def)

lemma demo_target: "candidate (up_store demo_uploader) ''/srv/g'' = abs_path ([''srv''] @ [''g''])"
  using candidate_abs [of "[''srv'', ''g'']" "up_store demo_uploader"] by (simp add: abs_path_def plain_elem_def)

lemma upload_delivers_example:
  "\<exists>fs1 fs2 fs3. UploadCreate demo_upload_env demo_file_call demo_uploader demo_empty_fs ''u1'' ''/srv/g'' 3 [] = (None, fs1) \<and>
     send_chunks demo_upload_env demo_file_call demo_uploader ''u1'' fs1 0 [''a'', ''bc''] = ((3, True, None), fs2) \<and>
     Finish demo_upload_env demo_file_call demo_uploader fs2 ''u1'' =
       ((hex_encode (ue_sha demo_upload_env (concat [''a'', ''bc''])), None), fs3) \<and>
     OpenStored (ue_sha demo_upload_env) demo_file_call fs3 (up_store demo_uploader) ''/srv/g'' =
       Inr (concat [''a'', ''bc''], 3, hex_encode (ue_sha demo_upload_env (concat [''a'', ''bc''])))"
  by (rule upload_delivers [where d = "[''up'']" and t = "[''srv'']" and e = "''g''" and st = demo_state,
        OF _ demo_valid demo_store _ _ _ _ _ demo_target])
    (simp_all add: area_def demo_empty demo_empty_dirs demo_calm demo_inside demo_up_dir plain_elem_def demo_state_def
      demo_upload_env_def)


section \<open>Two requests on one upload\<close>

text \<open>
  The mutex is held for one chunk and for one finishing step, not for the request: between the last
  chunk and the final step of a PATCH another request can run. A request is about to send, about to
  finish, or answered.
\<close>

datatype patch = Sending int string | Finishing | Answered "upload_error option"

inductive patch_race ::
    "upload_env \<Rightarrow> file_call \<Rightarrow> Uploader \<Rightarrow> string \<Rightarrow> fsys \<times> patch list \<Rightarrow> fsys \<times> patch list \<Rightarrow> bool"
  for env c u uid where
  race_send: "i < length ps \<Longrightarrow> ps ! i = Sending offset chunk \<Longrightarrow>
     WriteChunk env c u fs uid offset chunk False = ((n, complete, err), fs') \<Longrightarrow>
     patch_race env c u uid (fs, ps) (fs', ps[i := if err = None \<and> complete then Finishing else Answered err])"
| race_finish: "i < length ps \<Longrightarrow> ps ! i = Finishing \<Longrightarrow>
     Finish env c u fs uid = ((digest, err), fs') \<Longrightarrow>
     patch_race env c u uid (fs, ps) (fs', ps[i := Answered err])"

inductive_cases patch_raceE: "patch_race env c u uid (fs, ps) (fs', ps')"

text \<open>
  C30. The declared length is not enforced under concurrency: when a second request appends behind the
  last chunk before the first request finishes, the second is refused for exceeding the length, but
  its bytes stay and, if no hash was declared, the first request stores the overlong file and reports
  success.
\<close>

theorem racing_append_is_stored:
  assumes up: "uploading env u fs d uid st s" and calm: "\<forall>site. \<not> fc_fault c site"
    and len: "int (length s + length a) = us_Length st" "b \<noteq> []" "us_Expected st = []"
    and ok: "store_ok (up_store u)" "candidate (up_store u) (us_Target st) = abs_path (t @ [e])"
      "CHR 0x00 \<notin> set (us_Target st)" "inside (up_store u) (t @ [e])"
    and t: "real_dir fs t" "plain_elem e" "\<not> fs_denied fs (t @ [e])" "node_at fs (t @ [e]) = None"
      "t @ [e] \<noteq> d @ [uid @ ''.part'']" "t @ [e] \<noteq> d @ [uid @ ''.json'']"
  shows "\<exists>fs'. (patch_race env c u uid)\<^sup>*\<^sup>* (fs, [Sending (int (length s)) a, Sending (us_Length st) b])
       (fs', [Answered None, Answered (Some LengthExceeded)]) \<and>
     node_at fs' (t @ [e]) = Some (FFile (s @ a @ b)) \<and> us_Length st < int (length (s @ a @ b))"
proof -
  let ?part = "d @ [uid @ ''.part'']"
  let ?f1 = "set_node fs ?part (FFile (s @ a))"
  let ?f2 = "set_node ?f1 ?part (FFile ((s @ a) @ b))"
  have calm': "\<not> fc_fault c ReadState" "\<not> fc_fault c OpenPart" using calm by simp_all
  have up1: "uploading env u ?f1 d uid st (s @ a)" by (rule uploading_set [OF up])
  have up2: "uploading env u ?f2 d uid st ((s @ a) @ b)" by (rule uploading_set [OF up1])
  have w1: "WriteChunk env c u fs uid (int (length s)) a False = ((us_Length st, True, None), ?f1)"
    using WriteChunk_uploading [OF up calm', of "int (length s)" a False] len(1) by simp
  have w2: "WriteChunk env c u ?f1 uid (us_Length st) b False = ((us_Length st + int (length b), False, Some LengthExceeded), ?f2)"
    using WriteChunk_uploading [OF up1 calm', of "us_Length st" b False] len(1,2) by simp
  have nodir: "node_at fs ?part \<noteq> Some FDir" "node_at ?f1 ?part \<noteq> Some FDir"
    using up by (simp_all add: uploading_def)
  have t2: "real_dir ?f2 t" using real_dir_set [OF real_dir_set [OF t(1) nodir(1)] nodir(2)] .
  have node2: "node_at ?f2 (t @ [e]) = None" "\<not> fs_denied ?f2 (t @ [e])" using t(3-5) by simp_all
  then have "walk ?f2 255 t [e] = Inl (ENOENT (t @ [e]) True)" using t(2) by (simp add: walk_ordinary)
  then have res: "Resolve ?f2 (up_store u) (us_Target st) = Inr (abs_path (t @ [e]))"
    using Resolve_missing [OF ok(1-3) t2 t(2)] ok(4) by blast
  let ?f3 = "del_node (set_node (del_node ?f2 ?part) (t @ [e]) (FFile ((s @ a) @ b))) (d @ [uid @ ''.json''])"
  have fin: "Finish env c u ?f2 uid = ((hex_encode (ue_sha env ((s @ a) @ b)), None), ?f3)"
    using Finish_ok [OF up2 calm _ res t2 t(2) node2(2) _ t(5,6)] node2(1) len(3) by simp
  let ?p = "[Sending (int (length s)) a, Sending (us_Length st) b]"
  have "patch_race env c u uid (fs, ?p) (?f1, [Finishing, Sending (us_Length st) b])"
    using race_send [of 0 ?p "int (length s)" a env c u fs uid, OF _ _ w1] by simp
  moreover have "patch_race env c u uid (?f1, [Finishing, Sending (us_Length st) b]) (?f2, [Finishing, Answered (Some LengthExceeded)])"
    using race_send [of 1 "[Finishing, Sending (us_Length st) b]" "us_Length st" b env c u ?f1 uid, OF _ _ w2] by simp
  moreover have "patch_race env c u uid (?f2, [Finishing, Answered (Some LengthExceeded)]) (?f3, [Answered None, Answered (Some LengthExceeded)])"
    using race_finish [of 0 "[Finishing, Answered (Some LengthExceeded)]" env c u ?f2 uid, OF _ _ fin] by simp
  ultimately have "(patch_race env c u uid)\<^sup>*\<^sup>* (fs, ?p) (?f3, [Answered None, Answered (Some LengthExceeded)])"
    by (meson converse_rtranclp_into_rtranclp rtranclp.rtrancl_refl)
  moreover have "node_at ?f3 (t @ [e]) = Some (FFile (s @ a @ b))" using t(6) by simp
  moreover have "us_Length st < int (length (s @ a @ b))" using len(1,2) by (cases b) simp_all
  ultimately show ?thesis by blast
qed

theorem racing_append_is_stored_witness:
  "\<exists>fs'. (patch_race demo_upload_env demo_file_call demo_uploader ''u1'')\<^sup>*\<^sup>*
       (demo_upload_fs ''a'', [Sending (int (length ''a'')) ''bc'', Sending (us_Length demo_state) ''XX''])
       (fs', [Answered None, Answered (Some LengthExceeded)]) \<and>
     node_at fs' ([''srv''] @ [''g'']) = Some (FFile (''a'' @ ''bc'' @ ''XX'')) \<and>
     us_Length demo_state < int (length (''a'' @ ''bc'' @ ''XX''))"
  by (rule racing_append_is_stored [OF demo_uploading _ _ _ _ NewStore_ok [OF demo_store]])
    (use demo_target in \<open>simp_all add: demo_calm demo_state_def demo_inside demo_dirs demo_nodes plain_elem_def\<close>)


section \<open>When the rename crosses file systems\<close>

text \<open>
  C31. The copy that replaces a failed rename escapes the roots: if the target is the name of a link inside
  a root that leads to a name that does not exist yet outside it, the path is resolved and admitted,
  and when the rename fails, as it does across file systems, the copy follows the link and creates
  the file outside the roots.
\<close>

theorem copy_follows_dangling_link:
  assumes up: "uploading env u fs d uid st s"
    and faults: "\<forall>site. fc_fault c site \<longleftrightarrow> site = RenamePart"
    and exp: "us_Expected st = []"
    and ok: "store_ok (up_store u)" "candidate (up_store u) (us_Target st) = abs_path (t @ [e])"
      "CHR 0x00 \<notin> set (us_Target st)" "inside (up_store u) (t @ [e])"
    and t: "real_dir fs t" "plain_elem e" "\<not> fs_denied fs (t @ [e])" "node_at fs (t @ [e]) = Some (FLink (abs_path (w @ [x])))"
    and out: "real_dir fs w" "plain_elem x" "\<not> fs_denied fs (w @ [x])" "node_at fs (w @ [x]) = None"
      "\<not> inside (up_store u) (w @ [x])" "w @ [x] \<noteq> d @ [uid @ ''.part'']" "w @ [x] \<noteq> d @ [uid @ ''.json'']"
  shows "snd (fst (Finish env c u fs uid)) = None \<and>
     node_at (snd (Finish env c u fs uid)) (w @ [x]) = Some (FFile s)"
proof -
  have a: "area u fs d" "validUploadID uid" "real_dir fs d" and part: "node_at fs (d @ [uid @ ''.part'']) = Some (FFile s)"
    using up by (simp_all add: uploading_def area_def)
  note names = valid_names [OF a(2)] and paths = upload_paths [OF a(1,2)]
  have follow: "walk fs (Suc n) t [e] = Inl (ENOENT (w @ [x]) True)" for n
  proof -
    have "walk fs n [] (w @ [x]) = Inl (ENOENT (w @ [x]) True)"
      using walk_along [OF out(1)] out(2-4) by (simp add: walk_ordinary)
    then have "walk fs n [] (split_byte slash (abs_path (w @ [x])) @ []) = Inl (ENOENT (w @ [x]) True)"
      using split_abs_snoc [OF real_dir_plain [OF out(1)] out(2)] by simp
    with t(2-4) show ?thesis by (simp add: walk_ordinary del: IsAbs_iff)
  qed
  have res: "Resolve fs (up_store u) (us_Target st) = Inr (abs_path (t @ [e]))"
    using Resolve_missing [OF ok(1-3) t(1,2) _ ok(4)] follow [of 254] by simp
  have hash: "HashFile (ue_sha env) c fs (partPath u uid) = Inr (hex_encode (ue_sha env s))"
    using faults uploading_reads(2) [OF up] by (simp add: HashFile_def)
  let ?fs2 = "set_node fs (w @ [x]) (FFile s)"
  have "os_write fs (abs_path (t @ [e])) s = (None, ?fs2)"
    using kwalk_snoc [OF t(1,2)] follow [of 39] by (simp add: os_write_def)
  then have "copyFile c fs (partPath u uid) (abs_path (t @ [e])) = (None, ?fs2)"
    using faults uploading_reads(2) [OF up] by (simp add: copyFile_def write_file_def)
  then have mv: "move_into_place c u fs uid (abs_path (t @ [e])) = (None, remove_ignored c RemovePart ?fs2 (partPath u uid))"
    using faults by (simp add: move_into_place_def)
  have d2: "real_dir ?fs2 d" using a(3) out(4) by (intro real_dir_set) simp_all
  have "?fs2 = ?fs2 \<and> node_at ?fs2 (d @ [uid @ ''.part'']) = Some (FFile s)" using part out(6) by auto
  then have rm: "remove_ignored c RemovePart ?fs2 (partPath u uid) = del_node ?fs2 (d @ [uid @ ''.part''])"
    using remove_ignored_file [OF d2 names(1), of s] up faults by (simp add: paths uploading_def)
  let ?fs3 = "del_node ?fs2 (d @ [uid @ ''.part''])"
  have "real_dir ?fs3 d" using d2 part out(6) by (intro real_dir_del) auto
  then have last: "node_at (remove_ignored c RemoveState ?fs3 (statePath u uid)) (w @ [x]) = Some (FFile s)"
    using remove_ignored_frame [OF _ names(2) out(7)] out(6) by (simp add: paths)
  have "Finish env c u fs uid = ((hex_encode (ue_sha env s), None), remove_ignored c RemoveState ?fs3 (statePath u uid))"
    using uploading_reads(3) [OF up, of c] hash exp res mv rm os_mkdir_all_real [OF t(1)] faults
      Dir_abs_path [OF real_dir_plain [OF t(1)] t(2)]
    by (simp add: Finish_def)
  with last show ?thesis by simp
qed

definition dangling_fs :: fsys where
  "dangling_fs = \<lparr>fs_nodes = [([''srv''], FDir), ([''up''], FDir), ([''etc''], FDir),
       ([''srv'', ''g''], FLink ''/etc/new''), ([''up'', ''u1.part''], FFile ''abc''),
       ([''up'', ''u1.json''], FFile ''/srv/g'')], fs_denied = (\<lambda>_. False), fs_cwd = []\<rparr>"

lemma dangling_nodes:
  "node_at dangling_fs [''srv''] = Some FDir" "node_at dangling_fs [''up''] = Some FDir" "node_at dangling_fs [''etc''] = Some FDir"
  "node_at dangling_fs [''up'', ''u1.part''] = Some (FFile ''abc'')" "node_at dangling_fs [''up'', ''u1.json''] = Some (FFile ''/srv/g'')"
  "node_at dangling_fs [''srv'', ''g''] = Some (FLink ''/etc/new'')" "node_at dangling_fs [''etc'', ''new''] = None"
  "fs_denied dangling_fs p = False"
  by (simp_all add: node_at_def dangling_fs_def)

lemma dangling_dirs: "real_dir dangling_fs [''up'']" "real_dir dangling_fs [''srv'']" "real_dir dangling_fs [''etc'']"
  using real_sub [of dangling_fs "[]" "''up''"] real_sub [of dangling_fs "[]" "''srv''"] real_sub [of dangling_fs "[]" "''etc''"]
  by (simp_all add: dangling_nodes plain_elem_def)

lemma dangling_uploading: "uploading demo_upload_env demo_uploader dangling_fs [''up''] ''u1'' demo_state ''abc''"
  using dangling_dirs demo_valid
  by (simp add: uploading_def area_def dangling_nodes demo_uploader_def demo_upload_env_def demo_state_def abs_path_def)

lemma etc_outside: "\<not> inside (up_store demo_uploader) (''etc'' # cs)"
proof
  assume "inside (up_store demo_uploader) (''etc'' # cs)"
  then obtain rt where "list_all plain_elem rt" "abs_path rt = abs_path [''srv'']" "prefix rt (''etc'' # cs)"
    by (auto simp: inside_def demo_uploader_def abs_path_def)
  moreover from this have "rt = [''srv'']" using abs_path_inject [of rt "[''srv'']"] by (simp add: plain_elem_def)
  ultimately show False by simp
qed

theorem copy_follows_dangling_link_witness:
  "node_at (snd (Finish demo_upload_env (demo_file_call\<lparr>fc_fault := (\<lambda>site. site = RenamePart)\<rparr>) demo_uploader dangling_fs ''u1''))
     [''etc'', ''new''] = Some (FFile ''abc'')"
  using copy_follows_dangling_link [OF dangling_uploading, of "demo_file_call\<lparr>fc_fault := (\<lambda>site. site = RenamePart)\<rparr>"
      "[''srv'']" "''g''" "[''etc'']" "''new''"] NewStore_ok [OF demo_store] demo_target
  by (simp add: demo_state_def demo_inside etc_outside dangling_dirs dangling_nodes plain_elem_def abs_path_def)

text \<open>
  C27. A copy that breaks off leaves a silently corrupt file: when the rename is refused, as it is across file systems, and
  the copy that replaces it breaks off, the request is answered with an error, but what was copied so far stays under
  the target's name, in place of the file that was there before, and a later download delivers it as a complete file with
  a length and a hash of its own. A declared hash, though it matches the bytes that were sent, does not protect against this.
\<close>

theorem broken_copy_leaves_truncated_file:
  assumes up: "uploading env u fs d uid st s"
    and faults: "\<forall>site. fc_fault c site \<longleftrightarrow> site \<in> {RenamePart, CopyPart}" and later: "\<forall>site. \<not> fc_fault c' site"
    and hash: "us_Expected st = [] \<or> EqualFold (ue_fold env) (hex_encode (ue_sha env s)) (us_Expected st)"
    and ok: "store_ok (up_store u)" "candidate (up_store u) (us_Target st) = abs_path (t @ [e])"
      "CHR 0x00 \<notin> set (us_Target st)" "inside (up_store u) (t @ [e])"
    and t: "real_dir fs t" "plain_elem e" "\<not> fs_denied fs (t @ [e])"
      "node_at fs (t @ [e]) = None \<or> node_at fs (t @ [e]) = Some (FFile old)"
      "t @ [e] \<noteq> d @ [uid @ ''.part'']" "t @ [e] \<noteq> d @ [uid @ ''.json'']"
  shows "\<exists>fs'. Finish env c u fs uid = ((hex_encode (ue_sha env s), Some (UploadFS EIO)), fs') \<and>
     node_at fs' (t @ [e]) = Some (FFile (take (fc_partial c) s)) \<and>
     uploading env u fs' d uid st s \<and>
     OpenStored (ue_sha env) c' fs' (up_store u) (us_Target st) =
       Inr (take (fc_partial c) s, int (min (length s) (fc_partial c)), hex_encode (ue_sha env (take (fc_partial c) s)))"
proof -
  let ?short = "take (fc_partial c) s" and ?fs' = "set_node fs (t @ [e]) (FFile (take (fc_partial c) s))"
  have res: "Resolve fs (up_store u) (us_Target st) = Inr (abs_path (t @ [e]))"
  proof (cases "node_at fs (t @ [e])")
    case None
    then have "walk fs 255 t [e] = Inl (ENOENT (t @ [e]) True)" using t(2,3) by (simp add: walk_ordinary)
    then show ?thesis by (rule Resolve_missing [OF ok(1-3) t(1,2) _ ok(4)])
  next
    case (Some n)
    then have "real_path fs (t @ [e])" using t(1-4) by (auto simp: real_path_def)
    then show ?thesis by (rule Resolve_existing [OF ok(1-3) _ ok(4)])
  qed
  have load: "loadState env c u fs uid = Inr st" using uploading_reads(3) [OF up] faults by simp
  have digest: "HashFile (ue_sha env) c fs (partPath u uid) = Inr (hex_encode (ue_sha env s))"
    using faults uploading_reads(2) [OF up] by (simp add: HashFile_def)
  have "os_write fs (abs_path (t @ [e])) ?short = (None, ?fs')"
    using t(1-4) by (auto simp: os_write_def kwalk_snoc walk_ordinary)
  then have "copyFile c fs (partPath u uid) (abs_path (t @ [e])) = (Some EIO, ?fs')"
    using faults uploading_reads(2) [OF up] by (simp add: copyFile_def write_file_def)
  then have "move_into_place c u fs uid (abs_path (t @ [e])) = (Some EIO, ?fs')"
    using faults by (simp add: move_into_place_def)
  with load digest hash res faults have fin: "Finish env c u fs uid = ((hex_encode (ue_sha env s), Some (UploadFS EIO)), ?fs')"
    using os_mkdir_all_real [OF t(1)] Dir_abs_path [OF real_dir_plain [OF t(1)] t(2)] by (auto simp: Finish_def)
  have keep: "node_at fs p = Some FDir \<Longrightarrow> node_at ?fs' p = Some FDir" for p using t(4) by auto
  have "real_dir fs d" using up by (simp add: uploading_def area_def)
  then have "real_dir ?fs' d" by (rule real_dir_mono) (use keep in simp_all)
  then have still: "uploading env u ?fs' d uid st s" using up t(5,6) by (auto simp: uploading_def area_def)
  have "real_dir ?fs' t" by (rule real_dir_mono [OF t(1)]) (use keep in simp_all)
  then have "OpenStored (ue_sha env) c' ?fs' (up_store u) (us_Target st) =
      Inr (?short, int (min (length s) (fc_partial c)), hex_encode (ue_sha env ?short))"
    using OpenStored_real [OF ok(1-4) _ t(2) _ _ later, of ?fs' ?short] t(3) by simp
  with fin still show ?thesis by auto
qed

definition stale_fs :: fsys where
  "stale_fs = set_node (demo_upload_fs ''abc'') [''srv'', ''g''] (FFile ''old'')"

lemma stale_uploading: "uploading demo_upload_env demo_uploader stale_fs [''up''] ''u1'' demo_state ''abc''"
proof -
  have "real_dir stale_fs [''up'']" unfolding stale_fs_def by (rule real_dir_set) (simp_all add: demo_dirs demo_nodes)
  then show ?thesis using demo_uploading [of "''abc''"] by (simp add: uploading_def area_def stale_fs_def)
qed

theorem broken_copy_leaves_truncated_file_witness:
  "\<exists>fs'. Finish demo_upload_env (demo_file_call\<lparr>fc_fault := (\<lambda>site. site \<in> {RenamePart, CopyPart}), fc_partial := 2\<rparr>)
       demo_uploader stale_fs ''u1'' = ((hex_encode (ue_sha demo_upload_env ''abc''), Some (UploadFS EIO)), fs') \<and>
     OpenStored (ue_sha demo_upload_env) demo_file_call fs' (up_store demo_uploader) ''/srv/g'' =
       Inr (''ab'', 2, hex_encode (ue_sha demo_upload_env ''ab''))"
proof -
  have "real_dir stale_fs [''srv'']" unfolding stale_fs_def by (rule real_dir_set) (simp_all add: demo_dirs demo_nodes)
  then show ?thesis
    using broken_copy_leaves_truncated_file [OF stale_uploading, of
        "demo_file_call\<lparr>fc_fault := (\<lambda>site. site \<in> {RenamePart, CopyPart}), fc_partial := 2\<rparr>" demo_file_call
        "[''srv'']" "''g''" "''old''"] NewStore_ok [OF demo_store] demo_target
    by (auto simp: demo_state_def demo_calm demo_inside plain_elem_def stale_fs_def demo_nodes numeral_2_eq_2)
qed

end
