(* ===== verification/Files_Http.thy ===== *)
theory Files_Http
  imports Files_Delivery
begin

text \<open>
  The file endpoints, \<^verbatim>\<open>files/http.go\<close>: listing, deletion, download and the tus upload protocol over
  the store and the uploader. A handler runs against one state of the file system.
\<close>


section \<open>Requests and responses\<close>

abbreviation MethodOptions :: string where "MethodOptions \<equiv> ''OPTIONS''"

record API =
  api_Store :: Store
  api_Uploader :: Uploader

datatype file_body =
    FileMessage string | StoreFailure store_error | UploadFailure upload_error
  | EntryList "Entry list" | Content string | NoContent

record file_resp =
  fr_status :: nat
  fr_headers :: "(string \<times> string) list"
  fr_body :: file_body

definition file_reply :: "nat \<Rightarrow> file_body \<Rightarrow> file_resp" where
  "file_reply status body = \<lparr>fr_status = status, fr_headers = [], fr_body = body\<rparr>"

definition with_header :: "string \<Rightarrow> string \<Rightarrow> file_resp \<Rightarrow> file_resp" where
  "with_header k v r = r\<lparr>fr_headers := (k, v) # fr_headers r\<rparr>"

definition statusFor :: "store_error \<Rightarrow> nat" where
  "statusFor e = (if e = ErrOutsideRoots then StatusForbidden else StatusInternalServerError)"

definition statusForUpload :: "upload_error \<Rightarrow> nat" where
  "statusForUpload e = (case e of UploadStore e' \<Rightarrow> statusFor e' | _ \<Rightarrow> StatusInternalServerError)"

definition FormatInt :: "int \<Rightarrow> string" where
  "FormatInt n = (if n < 0 then CHR ''-'' # decimal (nat (- n)) else decimal (nat n))"


section \<open>The handlers\<close>

definition handleFiles :: "file_call \<Rightarrow> API \<Rightarrow> fsys \<Rightarrow> http_request \<Rightarrow> file_resp \<times> fsys" where
  "handleFiles c a fs r =
     (let p = (if req_query r ''path'' = [] then ''.'' else req_query r ''path'')
      in if req_method r = MethodGet then
           (case ListDir c fs (api_Store a) p of
              Inl e \<Rightarrow> (file_reply (statusFor e) (StoreFailure e), fs)
            | Inr es \<Rightarrow> (file_reply StatusOK (EntryList es), fs))
         else if req_method r = MethodDelete then
           (case DeleteFile c fs (api_Store a) p of
              (Some e, fs1) \<Rightarrow> (file_reply (statusFor e) (StoreFailure e), fs1)
            | (None, fs1) \<Rightarrow> (file_reply StatusNoContent NoContent, fs1))
         else (file_reply StatusMethodNotAllowed (FileMessage ''method not allowed''), fs))"

text \<open>\<open>quote\<close> is the verb \<^verbatim>\<open>%q\<close> of package fmt.\<close>

definition handleDownload ::
    "sha256 \<Rightarrow> (string \<Rightarrow> string) \<Rightarrow> file_call \<Rightarrow> API \<Rightarrow> fsys \<Rightarrow> http_request \<Rightarrow> file_resp" where
  "handleDownload sha quote c a fs r =
     (if req_method r \<noteq> MethodGet then file_reply StatusMethodNotAllowed (FileMessage ''method not allowed'')
      else if req_query r ''path'' = [] then file_reply StatusBadRequest (FileMessage ''path is required'')
      else case OpenStored sha c fs (api_Store a) (req_query r ''path'') of
             Inl e \<Rightarrow> file_reply (statusFor e) (StoreFailure e)
           | Inr (content, len, digest) \<Rightarrow>
               \<lparr>fr_status = StatusOK,
                fr_headers = [(''X-Checksum-SHA256'', digest), (''Content-Length'', FormatInt len),
                  (''Content-Type'', ''application/octet-stream''),
                  (''Content-Disposition'', ''attachment; filename='' @ quote (Base (req_query r ''path'')))],
                fr_body = Content content\<rparr>)"

definition setTusHeaders :: "file_resp \<Rightarrow> file_resp" where
  "setTusHeaders r = with_header ''Tus-Resumable'' TusVersion (with_header ''Tus-Version'' TusVersion r)"

definition newUploadID :: "string option \<Rightarrow> string option" where
  "newUploadID rnd = map_option hex_encode rnd"

definition meta_value :: "(string \<rightharpoonup> string) \<Rightarrow> string \<Rightarrow> string" where
  "meta_value m k = (case m k of None \<Rightarrow> [] | Some v \<Rightarrow> v)"

definition upload_target :: "(string \<rightharpoonup> string) \<Rightarrow> string" where
  "upload_target m =
     (if meta_value m ''dir'' \<noteq> [] then Join (meta_value m ''dir'') (meta_value m ''filename'')
      else meta_value m ''filename'')"

definition handleUploadCreate ::
    "upload_env \<Rightarrow> file_call \<Rightarrow> API \<Rightarrow> fsys \<Rightarrow> http_request \<Rightarrow> file_resp \<times> fsys" where
  "handleUploadCreate env c a fs r =
     (if req_method r = MethodOptions then
        (setTusHeaders (with_header ''Tus-Extension'' ''creation'' (file_reply StatusNoContent NoContent)), fs)
      else if req_method r \<noteq> MethodPost then
        (setTusHeaders (file_reply StatusMethodNotAllowed (FileMessage ''method not allowed'')), fs)
      else case ParseOffset (req_header r ''Upload-Length'') of
             None \<Rightarrow>
               (setTusHeaders (file_reply StatusBadRequest
                  (FileMessage ''Upload-Length is required and must be a non-negative integer'')), fs)
           | Some len \<Rightarrow>
               let meta = ParseUploadMetadata (req_header r ''Upload-Metadata'')
               in if meta_value meta ''filename'' = [] then
                    (setTusHeaders (file_reply StatusBadRequest
                       (FileMessage ''Upload-Metadata must contain a filename'')), fs)
                  else case newUploadID (fc_rnd c) of
                         None \<Rightarrow>
                           (setTusHeaders (file_reply StatusInternalServerError (FileMessage ''generate upload id'')), fs)
                       | Some uid \<Rightarrow>
                           (case UploadCreate env c (api_Uploader a) fs uid (upload_target meta) len (meta_value meta ''sha256'') of
                              (Some e, fs1) \<Rightarrow> (setTusHeaders (file_reply (statusForUpload e) (UploadFailure e)), fs1)
                            | (None, fs1) \<Rightarrow>
                                (setTusHeaders (with_header ''Location'' (''/files/upload/'' @ uid)
                                   (with_header ''Upload-Offset'' ''0'' (file_reply StatusCreated NoContent))), fs1)))"

definition patch_done ::
    "upload_env \<Rightarrow> file_call \<Rightarrow> API \<Rightarrow> fsys \<Rightarrow> string \<Rightarrow> int \<Rightarrow> file_resp \<times> fsys" where
  "patch_done env c a fs uid n =
     (let ((digest, err), fs1) = Finish env c (api_Uploader a) fs uid;
          hdr = (\<lambda>r. with_header ''Upload-Offset'' (FormatInt n) (with_header ''X-Checksum-SHA256'' digest r))
      in (hdr (case err of
                 Some ErrChecksumMismatch \<Rightarrow>
                   file_reply StatusUnprocessableEntity
                     (FileMessage ''checksum mismatch; the upload was discarded, send it again'')
               | Some e \<Rightarrow> file_reply (statusForUpload e) (UploadFailure e)
               | None \<Rightarrow> file_reply StatusNoContent NoContent), fs1))"

definition handlePatch ::
    "upload_env \<Rightarrow> file_call \<Rightarrow> API \<Rightarrow> fsys \<Rightarrow> http_request \<Rightarrow> string \<Rightarrow> file_resp \<times> fsys" where
  "handlePatch env c a fs r uid =
     (let ct = req_header r ''Content-Type''
      in if ct \<noteq> [] \<and> ct \<noteq> ''application/offset+octet-stream'' then
           (file_reply StatusUnsupportedMediaType
              (FileMessage ''Content-Type must be application/offset+octet-stream''), fs)
         else case ParseOffset (req_header r ''Upload-Offset'') of
                None \<Rightarrow> (file_reply StatusBadRequest (FileMessage ''Upload-Offset is required''), fs)
              | Some offset \<Rightarrow>
                  (case WriteChunk env c (api_Uploader a) fs uid offset (fc_body c) (fc_broken c) of
                     ((n, _, Some ErrOffsetConflict), fs1) \<Rightarrow>
                       (with_header ''Upload-Offset'' (FormatInt n)
                          (file_reply StatusConflict (FileMessage ''offset conflict; resume from Upload-Offset'')), fs1)
                   | ((_, _, Some e), fs1) \<Rightarrow> (file_reply (statusForUpload e) (UploadFailure e), fs1)
                   | ((n, complete, None), fs1) \<Rightarrow>
                       if \<not> complete
                       then (with_header ''Upload-Offset'' (FormatInt n) (file_reply StatusNoContent NoContent), fs1)
                       else patch_done env c a fs1 uid n))"

definition handleHead ::
    "upload_env \<Rightarrow> file_call \<Rightarrow> API \<Rightarrow> fsys \<Rightarrow> string \<Rightarrow> file_resp" where
  "handleHead env c a fs uid =
     (case Offset env c (api_Uploader a) fs uid of
        Inl _ \<Rightarrow> file_reply StatusNotFound NoContent
      | Inr (offset, len) \<Rightarrow>
          with_header ''Cache-Control'' ''no-store''
            (with_header ''Upload-Offset'' (FormatInt offset)
              (with_header ''Upload-Length'' (FormatInt len) (file_reply StatusOK NoContent))))"

definition handleUploadResume ::
    "upload_env \<Rightarrow> file_call \<Rightarrow> API \<Rightarrow> fsys \<Rightarrow> http_request \<Rightarrow> file_resp \<times> fsys" where
  "handleUploadResume env c a fs r =
     (let uid = TrimPrefix (req_path r) ''/files/upload/'';
          tus = (\<lambda>(resp, fs1). (setTusHeaders resp, fs1))
      in if uid = [] \<or> slash \<in> set uid then tus (file_reply StatusNotFound (FileMessage ''not found''), fs)
         else if req_method r = MethodHead then tus (handleHead env c a fs uid, fs)
         else if req_method r = MethodPatch then tus (handlePatch env c a fs r uid)
         else if req_method r = MethodDelete then
           tus (file_reply StatusNoContent NoContent, Discard c (api_Uploader a) fs uid)
         else tus (file_reply StatusMethodNotAllowed (FileMessage ''method not allowed''), fs))"

definition RegisterFiles ::
    "upload_env \<Rightarrow> (string \<Rightarrow> string) \<Rightarrow> file_call \<Rightarrow> API \<Rightarrow> fsys \<Rightarrow> http_request \<Rightarrow> file_resp \<times> fsys" where
  "RegisterFiles env quote c a fs r =
     (if req_path r = ''/files'' then handleFiles c a fs r
      else if req_path r = ''/files/download'' then (handleDownload (ue_sha env) quote c a fs r, fs)
      else if req_path r = ''/files/upload'' then handleUploadCreate env c a fs r
      else if HasPrefix (req_path r) ''/files/upload/'' then handleUploadResume env c a fs r
      else (file_reply StatusNotFound (FileMessage ''404 page not found''), fs))"

end
