(* ===== verification/Files_Requests.thy ===== *)
theory Files_Requests
  imports Files_Http
begin

text \<open>
  The file endpoints as a whole: what any sequence of requests can change, and the headers of the
  upload protocol.
\<close>


section \<open>Effects\<close>

text \<open>The upload directory neither contains a root nor lies in one.\<close>

definition apart :: "Store \<Rightarrow> string list \<Rightarrow> bool" where
  "apart s d \<longleftrightarrow> (\<forall>rt. abs_path rt \<in> set (st_roots s) \<longrightarrow> \<not> prefix rt d \<and> \<not> prefix d rt)"

fun file_or_none :: "node option \<Rightarrow> bool" where
  "file_or_none None = True"
| "file_or_none (Some (FFile _)) = True"
| "file_or_none _ = False"

text \<open>
  What requests may change: files of the upload directory, anything inside the roots, and missing
  directories above a root that does not exist.
\<close>

definition effect :: "Store \<Rightarrow> string list \<Rightarrow> fsys \<Rightarrow> fsys \<Rightarrow> bool" where
  "effect s d fs fs' \<longleftrightarrow> fs_denied fs' = fs_denied fs \<and>
     (\<forall>p. node_at fs' p = node_at fs p \<or>
          (\<exists>n. p = d @ [n] \<and> file_or_none (node_at fs' p)) \<or>
          inside s p \<or>
          (node_at fs p = None \<and> node_at fs' p = Some FDir \<and> (\<exists>rt. abs_path rt \<in> set (st_roots s) \<and> prefix p rt)))"

lemma effect_refl [simp]: "effect s d fs fs"
  by (simp add: effect_def)

lemma effect_trans:
  assumes "apart s d" "effect s d fs fs1" "effect s d fs1 fs2"
  shows "effect s d fs fs2"
proof -
  have "node_at fs2 p = node_at fs p \<or> (\<exists>n. p = d @ [n] \<and> file_or_none (node_at fs2 p)) \<or> inside s p \<or>
      (node_at fs p = None \<and> node_at fs2 p = Some FDir \<and> (\<exists>rt. abs_path rt \<in> set (st_roots s) \<and> prefix p rt))" for p
  proof (cases "(\<exists>n. p = d @ [n]) \<or> inside s p")
    case True
    then show ?thesis
    proof
      assume "\<exists>n. p = d @ [n]"
      then obtain n where p: "p = d @ [n]" ..
      have "\<not> (\<exists>rt. abs_path rt \<in> set (st_roots s) \<and> prefix p rt)"
        using assms(1) by (auto simp: apart_def p dest: append_prefixD)
      then show ?thesis using assms(2,3) p unfolding effect_def by metis
    qed simp
  next
    case False
    then show ?thesis using assms(2,3) unfolding effect_def by (metis option.distinct(1))
  qed
  with assms(2,3) show ?thesis by (simp add: effect_def)
qed

lemma effect_upload_file:
  "file_or_none (node_at fs' (d @ [n])) \<Longrightarrow> (\<And>p. p \<noteq> d @ [n] \<Longrightarrow> node_at fs' p = node_at fs p) \<Longrightarrow>
     fs_denied fs' = fs_denied fs \<Longrightarrow> effect s d fs fs'"
  unfolding effect_def by metis

lemma effect_set [simp]: "effect s d fs (set_node fs (d @ [n]) (FFile x))"
  by (rule effect_upload_file [of _ _ n]) auto

lemma effect_del [simp]: "effect s d fs (del_node fs (d @ [n]))"
  by (rule effect_upload_file [of _ _ n]) auto

text \<open>The upload directory: real, and holding regular files only.\<close>

definition upload_area :: "Uploader \<Rightarrow> fsys \<Rightarrow> string list \<Rightarrow> bool" where
  "upload_area u fs d \<longleftrightarrow> area u fs d \<and> (\<forall>n. file_or_none (node_at fs (d @ [n])))"

lemma real_dir_prefixes:
  assumes "real_dir fs d" "\<And>p. prefix p d \<Longrightarrow> node_at fs' p = node_at fs p" "fs_denied fs' = fs_denied fs"
  shows "real_dir fs' d"
  using assms
proof (induction rule: real_dir.induct)
  case (real_sub d c)
  have "node_at fs' (d @ [c]) = Some FDir" using real_sub.hyps(4) real_sub.prems(1) [of "d @ [c]"] by simp
  moreover have "real_dir fs' d" using real_sub.IH real_sub.prems by (simp add: prefix_prefix)
  ultimately show ?case using real_sub by simp
qed simp

lemma upload_area_effect:
  assumes "upload_area u fs d" "apart s d" "effect s d fs fs'"
  shows "upload_area u fs' d"
proof -
  have out: "\<not> inside s p" if "prefix p d" for p
    using that assms(2) unfolding inside_def apart_def by (meson prefix_order.trans)
  have out': "\<not> inside s (d @ [n])" for n
    using assms(2) unfolding inside_def apart_def by (metis prefix_order.eq_refl prefix_snoc append_prefixD)
  have up: "\<not> (\<exists>rt. abs_path rt \<in> set (st_roots s) \<and> prefix (d @ [n]) rt)" for n
    using assms(2) by (auto simp: apart_def dest: append_prefixD)
  have r: "real_dir fs d" using assms(1) by (simp add: upload_area_def area_def)
  have "node_at fs' p = node_at fs p" if "prefix p d" for p
  proof -
    have "\<exists>n. node_at fs p = Some n"
      using r that by (induction rule: real_dir.induct) (auto simp: prefix_snoc)
    moreover have "p \<noteq> d @ [n]" for n using that by auto
    ultimately show ?thesis using assms(3) out [OF that] unfolding effect_def by (metis option.distinct(1))
  qed
  then have "real_dir fs' d" using real_dir_prefixes [OF r] assms(3) by (simp add: effect_def)
  moreover have "file_or_none (node_at fs' (d @ [n]))" for n
    using assms(1,3) out' up unfolding effect_def upload_area_def by metis
  ultimately show ?thesis using assms(1) by (simp add: upload_area_def area_def)
qed


section \<open>The effect of each operation\<close>

lemma file_name_plain: "slash \<notin> set uid \<Longrightarrow> plain_elem (uid @ ''.part'') \<and> plain_elem (uid @ ''.json'')"
  by (auto simp: plain_elem_def append_eq_Cons_conv)

lemma area_paths:
  assumes "upload_area u fs d" "slash \<notin> set uid"
  shows "partPath u uid = abs_path (d @ [uid @ ''.part''])" "statePath u uid = abs_path (d @ [uid @ ''.json''])"
  using assms file_name_plain [OF assms(2)] Join_abs_path [OF real_dir_plain [of fs d]]
  by (simp_all add: upload_area_def area_def partPath_def statePath_def)

lemma effect_remove:
  assumes "upload_area u fs d" "plain_elem e"
  shows "effect s d fs (remove_ignored c site fs (abs_path (d @ [e])))"
  using os_remove_frame [of fs d e] assms by (auto simp: remove_ignored_def upload_area_def area_def)

lemma effect_discard:
  assumes "upload_area u fs d" "apart s d" "slash \<notin> set uid"
  shows "effect s d fs (discard c u fs uid)"
proof -
  note names = file_name_plain [OF assms(3)] and paths = area_paths [OF assms(1,3)]
  have "effect s d fs (remove_ignored c RemovePart fs (partPath u uid))"
    unfolding paths using assms(1) names by (intro effect_remove) simp_all
  moreover from this have "upload_area u (remove_ignored c RemovePart fs (partPath u uid)) d"
    by (rule upload_area_effect [OF assms(1,2)])
  then have "effect s d (remove_ignored c RemovePart fs (partPath u uid)) (discard c u fs uid)"
    unfolding discard_def paths using names by (intro effect_remove) simp_all
  ultimately show ?thesis by (rule effect_trans [OF assms(2)])
qed

lemma valid_no_slash: "validUploadID uid \<Longrightarrow> slash \<notin> set uid"
  using validUploadID_ident ident_string_no_slash by blast

lemma effect_os_write:
  assumes "upload_area u fs d" "plain_elem e"
  shows "effect s d fs (snd (os_write fs (abs_path (d @ [e])) x))"
proof -
  have d: "real_dir fs d" and f: "file_or_none (node_at fs (d @ [e]))"
    using assms(1) by (simp_all add: upload_area_def area_def)
  show ?thesis
    using f assms(2) by (cases "node_at fs (d @ [e])" rule: file_or_none.cases)
      (auto simp: os_write_def kwalk_snoc [OF d assms(2)] walk_ordinary)
qed

lemma effect_Create:
  assumes "upload_area u fs d" "apart s d"
  shows "effect s d fs (snd (UploadCreate env c u fs uid target len expected))"
proof (cases "validUploadID uid")
  case True
  note ns = valid_no_slash [OF True]
  note names = file_name_plain [OF ns] and paths = area_paths [OF assms(1) ns]
  have d: "real_dir fs d" using assms(1) by (simp add: upload_area_def area_def)
  obtain e1 fs1 where mk: "os_create_excl fs (partPath u uid) = (e1, fs1)" by fastforce
  have eff1: "effect s d fs fs1"
    using mk names by (auto simp: os_create_excl_def paths kparent_snoc [OF d] split: if_splits)
  have area1: "upload_area u fs1 d" by (rule upload_area_effect [OF assms eff1])
  have "effect s d fs1 (snd (write_file c WriteState fs1 (statePath u uid) x))" for x
    using effect_os_write [OF area1, of "uid @ ''.json''" s] names
    by (auto simp: write_file_def area_paths(2) [OF area1 ns] split: prod.splits)
      (metis snd_conv)
  then have w: "effect s d fs (snd (write_file c WriteState fs1 (statePath u uid) x))" for x
    using effect_trans [OF assms(2) eff1] by blast
  have "snd (UploadCreate env c u fs uid target len expected) \<in>
      {fs, fs1, snd (write_file c WriteState fs1 (statePath u uid)
        (ue_marshal env \<lparr>us_ID = uid, us_Target = target, us_Length = len, us_Expected = ue_lower env expected\<rparr>))}"
    using mk by (auto simp: UploadCreate_def Let_def split: sum.split option.split prod.split)
  with eff1 w show ?thesis by auto
next
  case False
  then have "snd (UploadCreate env c u fs uid target len expected) = fs"
    by (simp add: UploadCreate_def split: sum.split)
  then show ?thesis by simp
qed

text \<open>Unless the calls fail early, a loaded state means an upload in progress.\<close>

lemma area_reads:
  assumes "upload_area u fs d" "plain_elem e" "os_stat fs (abs_path (d @ [e])) = Inr (q, n)"
  shows "\<exists>x. n = FFile x \<and> q = d @ [e] \<and> node_at fs (d @ [e]) = Some (FFile x) \<and> \<not> fs_denied fs (d @ [e])"
proof -
  have d: "real_dir fs d" and f: "file_or_none (node_at fs (d @ [e]))"
    using assms(1) by (simp_all add: upload_area_def area_def)
  show ?thesis
    using f assms(2,3) by (cases "node_at fs (d @ [e])" rule: file_or_none.cases)
      (auto simp: os_stat_def kwalk_snoc [OF d assms(2)] walk_ordinary split: if_splits)
qed

lemma loaded_uploading:
  assumes "upload_area u fs d" "loadState env c u fs uid = Inr st" "os_stat fs (partPath u uid) = Inr (q, n)"
  shows "\<exists>x. n = FFile x \<and> q = d @ [uid @ ''.part''] \<and> uploading env u fs d uid st x \<and> \<not> fc_fault c ReadState"
proof -
  have valid: "validUploadID uid" and calm: "\<not> fc_fault c ReadState"
    using assms(2) by (auto simp: loadState_def split: if_splits)
  note ns = valid_no_slash [OF valid]
  note names = file_name_plain [OF ns] and paths = area_paths [OF assms(1) ns]
  obtain blob where blob: "os_read fs (statePath u uid) = Inr blob" "ue_unmarshal env blob = Some st"
    using assms(2) valid calm by (auto simp: loadState_def split: sum.splits option.splits)
  then obtain q' where "os_stat fs (abs_path (d @ [uid @ ''.json''])) = Inr (q', FFile blob)"
    by (auto simp: os_read_def paths split: sum.splits node.splits)
  from area_reads [OF assms(1) _ this] names blob(2)
  have state: "node_at fs (d @ [uid @ ''.json'']) = Some (FFile blob)" "\<not> fs_denied fs (d @ [uid @ ''.json''])" by auto
  obtain x where "n = FFile x" "q = d @ [uid @ ''.part'']" "node_at fs (d @ [uid @ ''.part'']) = Some (FFile x)"
    "\<not> fs_denied fs (d @ [uid @ ''.part''])"
    using area_reads [OF assms(1), of "uid @ ''.part''" q n] assms(3) names by (auto simp: paths)
  with state valid calm blob(2) assms(1) show ?thesis by (auto simp: uploading_def upload_area_def)
qed

lemma effect_WriteChunk:
  assumes "upload_area u fs d"
  shows "effect s d fs (snd (WriteChunk env c u fs uid offset chunk broken))"
proof (cases "loadState env c u fs uid")
  case (Inr st)
  show ?thesis
  proof (cases "os_stat fs (partPath u uid)")
    case (Inr qn)
    obtain q n where "qn = (q, n)" by fastforce
    with Inr loaded_uploading [OF assms \<open>loadState env c u fs uid = Inr st\<close>] obtain x
      where "n = FFile x" "q = d @ [uid @ ''.part'']" by blast
    with Inr \<open>qn = (q, n)\<close> \<open>loadState env c u fs uid = Inr st\<close> show ?thesis
      by (simp add: WriteChunk_def Let_def)
  qed (simp add: WriteChunk_def Inr)
qed (simp add: WriteChunk_def)

lemma effect_Finish:
  assumes "upload_area u fs d" "apart (up_store u) d" "store_ok (up_store u)" "\<not> fc_fault c RenamePart"
  shows "effect (up_store u) d fs (snd (Finish env c u fs uid))"
proof (cases "\<exists>st x. loadState env c u fs uid = Inr st \<and> HashFile (ue_sha env) c fs (partPath u uid) = Inr x")
  case False
  then have "snd (Finish env c u fs uid) = fs" by (auto simp: Finish_def split: sum.split)
  then show ?thesis by simp
next
  case True
  then obtain st x where load: "loadState env c u fs uid = Inr st" and hash: "HashFile (ue_sha env) c fs (partPath u uid) = Inr x"
    by blast
  obtain q n where "os_stat fs (partPath u uid) = Inr (q, n)"
    using hash by (auto simp: HashFile_def os_read_def split: if_splits sum.splits)
  then obtain y where up: "uploading env u fs d uid st y" and calm: "\<not> fc_fault c ReadState" "\<not> fc_fault c HashOpen"
    using loaded_uploading [OF assms(1) load] hash by (auto simp: HashFile_def split: if_splits)
  have a: "area u fs d" "validUploadID uid" "real_dir fs d" using up by (simp_all add: uploading_def area_def)
  note paths = upload_paths [OF a(1,2)] and names = valid_names [OF a(2)]
  have out: "\<not> inside (up_store u) (d @ [e])" for e
    using assms(2) unfolding inside_def apart_def by (metis append_prefixD prefix_order.eq_refl prefix_snoc)
  obtain digest err fs' where fin: "Finish env c u fs uid = ((digest, err), fs')" by (metis prod.collapse)
  have grown_effect: "effect (up_store u) d fs f" if "grown fs f q xs" "prefix (q @ xs) cs" "inside (up_store u) cs" for f q xs cs
    using that inside_or_above [OF that(3)] unfolding effect_def grown_def by (meson prefix_order.trans)
  have "effect (up_store u) d fs fs'"
  proof (rule Finish_cases [OF up assms(3) calm assms(4) out fin])
    assume "fs' = discard c u fs uid"
    then show ?thesis using effect_discard [OF assms(1,2) valid_no_slash [OF a(2)]] by simp
  next
    fix q xs cs
    assume "grown fs fs' q xs" "prefix (q @ xs) cs" "inside (up_store u) cs"
    then show ?thesis by (rule grown_effect)
  next
    fix q xs :: "string list" and e :: string and fs1 :: fsys
    let ?t = "q @ xs @ [e]"
    assume g: "grown fs fs1 q xs" and ins: "inside (up_store u) ?t"
      and fs': "fs' = remove_ignored c RemoveState (set_node (del_node fs1 (d @ [uid @ ''.part''])) ?t (FFile y)) (statePath u uid)"
    have e1: "effect (up_store u) d fs fs1" by (rule grown_effect [OF g _ ins]) simp
    have e2: "effect (up_store u) d fs1 (del_node fs1 (d @ [uid @ ''.part'']))" by simp
    have e3: "effect (up_store u) d f (set_node f ?t (FFile y))" for f using ins by (auto simp: effect_def)
    note e = effect_trans [OF assms(2) effect_trans [OF assms(2) e1 e2] e3]
    have "upload_area u (set_node (del_node fs1 (d @ [uid @ ''.part''])) ?t (FFile y)) d"
      by (rule upload_area_effect [OF assms(1,2) e])
    from effect_remove [OF this names(2)] show ?thesis unfolding fs' paths by (rule effect_trans [OF assms(2) e])
  qed
  with fin show ?thesis by simp
qed


section \<open>The effect of requests\<close>

lemma effect_Delete:
  assumes "store_ok s"
  shows "effect s d fs (snd (DeleteFile c fs s rel))"
proof -
  obtain res fs' where del: "DeleteFile c fs s rel = (res, fs')" by fastforce
  have "effect s d fs (del_node fs cs)" if "inside s cs" for cs using that by (auto simp: effect_def)
  with DeleteFile_result [OF assms del] del show ?thesis by auto
qed

lemma effect_patch:
  assumes "upload_area u fs d" "apart (up_store u) d" "store_ok (up_store u)" "\<not> fc_fault c RenamePart" "u = api_Uploader a"
  shows "effect (up_store u) d fs (snd (handlePatch env c a fs r uid))"
proof -
  have "snd (handlePatch env c a fs r uid) \<in>
      {fs} \<union> {snd (WriteChunk env c u fs uid offset (fc_body c) (fc_broken c)) | offset. True}
           \<union> {snd (Finish env c u (snd (WriteChunk env c u fs uid offset (fc_body c) (fc_broken c))) uid) | offset. True}"
  proof (cases "ParseOffset (req_header r ''Upload-Offset'')")
    case (Some offset)
    obtain n don err fs1 where w: "WriteChunk env c u fs uid offset (fc_body c) (fc_broken c) = ((n, don, err), fs1)"
      by (metis prod.collapse)
    have "snd (handlePatch env c a fs r uid) \<in> {fs, fs1, snd (Finish env c u fs1 uid)}"
      using Some w assms(5)
      by (cases err) (auto simp: handlePatch_def Let_def patch_done_def split: upload_error.splits prod.splits)
    moreover have "fs1 = snd (WriteChunk env c u fs uid offset (fc_body c) (fc_broken c))" using w by simp
    ultimately show ?thesis by blast
  qed (simp add: handlePatch_def Let_def)
  moreover have w: "effect (up_store u) d fs (snd (WriteChunk env c u fs uid offset (fc_body c) (fc_broken c)))" for offset
    by (rule effect_WriteChunk [OF assms(1)])
  moreover have "effect (up_store u) d fs (snd (Finish env c u (snd (WriteChunk env c u fs uid offset (fc_body c) (fc_broken c))) uid))" for offset
    by (rule effect_trans [OF assms(2) w effect_Finish [OF upload_area_effect [OF assms(1,2) w] assms(2,3,4)]])
  ultimately show ?thesis by auto
qed

lemma effect_request:
  assumes "upload_area (api_Uploader a) fs d" "apart (api_Store a) d" "store_ok (api_Store a)"
    and "up_store (api_Uploader a) = api_Store a" "\<not> fc_fault c RenamePart"
  shows "effect (api_Store a) d fs (snd (RegisterFiles env quote c a fs r))"
proof -
  let ?uid = "TrimPrefix (req_path r) ''/files/upload/''"
  have files: "effect (api_Store a) d fs (snd (handleFiles c a fs r))"
  proof -
    have "snd (handleFiles c a fs r) \<in> {fs} \<union> {snd (DeleteFile c fs (api_Store a) p) | p. True}"
      by (auto simp: handleFiles_def Let_def split: sum.split prod.split option.split) (metis snd_conv)+
    then show ?thesis using effect_Delete [OF assms(3)] by auto
  qed
  have create: "effect (api_Store a) d fs (snd (handleUploadCreate env c a fs r))"
  proof -
    have "snd (handleUploadCreate env c a fs r) \<in> {fs} \<union>
        {snd (UploadCreate env c (api_Uploader a) fs uid target len expected) | uid target len expected. True}"
      by (auto simp: handleUploadCreate_def Let_def split: prod.split option.split) (metis snd_conv)+
    then show ?thesis using effect_Create [OF assms(1,2)] by auto
  qed
  have resume: "effect (api_Store a) d fs (snd (handleUploadResume env c a fs r))"
  proof (cases "?uid = [] \<or> slash \<in> set ?uid")
    case True
    then have "snd (handleUploadResume env c a fs r) = fs" by (simp add: handleUploadResume_def Let_def)
    then show ?thesis by simp
  next
    case False
    then have "snd (handleUploadResume env c a fs r) \<in>
        {fs, snd (handlePatch env c a fs r ?uid), discard c (api_Uploader a) fs ?uid}"
      by (auto simp: handleUploadResume_def Let_def Discard_def split: prod.split)
    moreover have "effect (api_Store a) d fs (snd (handlePatch env c a fs r ?uid))"
      using effect_patch [OF assms(1) _ _ assms(5) refl] assms(2-4) by simp
    moreover have "effect (api_Store a) d fs (discard c (api_Uploader a) fs ?uid)"
      using effect_discard [OF assms(1,2)] False by simp
    ultimately show ?thesis by auto
  qed
  show ?thesis using files create resume by (simp add: RegisterFiles_def)
qed

text \<open>One request of the file routes.\<close>

definition files_step ::
    "upload_env \<Rightarrow> (string \<Rightarrow> string) \<Rightarrow> API \<Rightarrow> fsys \<Rightarrow> file_call \<times> http_request \<Rightarrow> fsys" where
  "files_step env quote a fs e = (case e of (c, r) \<Rightarrow> snd (RegisterFiles env quote c a fs r))"

text \<open>
  C8. The file API stays where it belongs: starting from an upload directory of its own, no sequence of
  file requests, with whatever paths, uploads, deletions and failures other than that of the final
  rename, changes anything but files of the upload directory and what lies inside the roots; the only
  other effect is to create a missing root's own directories.
\<close>

theorem file_requests_confined:
  assumes "NewStore fs0 roots = Inr (api_Store a)" "up_store (api_Uploader a) = api_Store a"
    and "upload_area (api_Uploader a) fs d" "apart (api_Store a) d"
    and "\<forall>(c, r) \<in> set es. \<not> fc_fault c RenamePart"
    and "node_at (run_steps (files_step env quote a) fs es) p \<noteq> node_at fs p"
  shows "(\<exists>n. p = d @ [n]) \<or> inside (api_Store a) p \<or>
     (node_at fs p = None \<and> node_at (run_steps (files_step env quote a) fs es) p = Some FDir \<and>
      (\<exists>rt. abs_path rt \<in> set (st_roots (api_Store a)) \<and> prefix p rt))"
proof -
  note ok = NewStore_ok [OF assms(1)]
  have "effect (api_Store a) d fs (run_steps (files_step env quote a) fs es)"
  proof (rule run_steps_invariant)
    fix f e
    assume eff: "effect (api_Store a) d fs f" and e: "e \<in> set es"
    obtain c r where cr: "e = (c, r)" by fastforce
    have "effect (api_Store a) d f (snd (RegisterFiles env quote c a f r))"
      using effect_request [OF upload_area_effect [OF assms(3,4) eff] assms(4) ok assms(2)] assms(5) e cr by auto
    then show "effect (api_Store a) d fs (files_step env quote a f e)"
      using effect_trans [OF assms(4) eff] cr by (simp add: files_step_def)
  qed simp
  with assms(6) show ?thesis unfolding effect_def by blast
qed

definition demo_api :: API where
  "demo_api = \<lparr>api_Store = up_store demo_uploader, api_Uploader = demo_uploader\<rparr>"

definition demo_patch :: http_request where
  "demo_patch = \<lparr>req_method = MethodPatch, req_path = ''/files/upload/u1'', req_remote = [], req_host = [],
     req_header = (\<lambda>h. if h = ''Upload-Offset'' then ''3'' else []), req_query = (\<lambda>_. []), req_json = JsonEOF, req_device = None\<rparr>"

lemma demo_apart: "apart (api_Store demo_api) [''up'']"
proof -
  have "rt = [''srv'']" if "abs_path rt = ''/srv''" for rt
  proof -
    have join: "join_byte slash rt = ''srv''" using that by (simp add: abs_path_def)
    obtain a list where rt: "rt = a # list" using join by (cases rt) simp_all
    have "slash \<notin> set (join_byte slash rt)" unfolding join by simp
    then have "list = []" by (auto simp: rt join_byte_Cons split: if_splits)
    with join show ?thesis by (simp add: rt)
  qed
  note only = this
  have "\<not> prefix rt [''up''] \<and> \<not> prefix [''up''] rt" if "abs_path rt \<in> set (st_roots (api_Store demo_api))" for rt
    using only [of rt] that by (simp add: demo_api_def demo_uploader_def)
  then show ?thesis by (simp add: apart_def)
qed

lemma demo_upload_area: "upload_area (api_Uploader demo_api) (demo_upload_fs s) [''up'']"
proof -
  have "file_or_none (node_at (demo_upload_fs s) [''up'', n])" for n
    by (simp add: node_at_def demo_upload_fs_def)
  then show ?thesis
    by (simp add: upload_area_def area_def demo_api_def demo_dirs) (simp add: demo_uploader_def abs_path_def)
qed

lemma demo_run:
  "node_at (run_steps (files_step demo_upload_env (\<lambda>s. s) demo_api) (demo_upload_fs ''abc'') [(demo_file_call, demo_patch)])
     [''srv'', ''g''] = Some (FFile ''abc'')"
proof -
  have up: "uploading demo_upload_env demo_uploader (demo_upload_fs ''abc'') [''up''] ''u1'' demo_state ''abc''"
    by (rule demo_uploading)
  have off: "ParseOffset ''3'' = Some 3"
    by (simp add: ParseOffset_def ParseInt_def is_digit_def digit_value_def)
  have w: "WriteChunk demo_upload_env demo_file_call demo_uploader (demo_upload_fs ''abc'') ''u1'' 3 [] False =
      ((3, True, None), set_node (demo_upload_fs ''abc'') [''up'', ''u1.part''] (FFile ''abc''))"
    using WriteChunk_uploading [OF up demo_calm demo_calm, of 3 "[]" False] by (simp add: demo_state_def)
  have same: "set_node (demo_upload_fs ''abc'') [''up'', ''u1.part''] (FFile ''abc'') = demo_upload_fs ''abc''"
    by (simp add: set_node_def demo_upload_fs_def)
  have path: "TrimPrefix ''/files/upload/u1'' ''/files/upload/'' = ''u1''" "HasPrefix ''/files/upload/u1'' ''/files/upload/''"
    by (simp_all add: TrimPrefix_def HasPrefix_def)
  have body: "fc_body demo_file_call = []" "fc_broken demo_file_call = False" "api_Uploader demo_api = demo_uploader"
    by (simp_all add: demo_file_call_def demo_api_def)
  have "snd (handlePatch demo_upload_env demo_file_call demo_api (demo_upload_fs ''abc'') demo_patch ''u1'') =
      snd (Finish demo_upload_env demo_file_call demo_uploader (demo_upload_fs ''abc'') ''u1'')"
    using w same by (simp add: handlePatch_def demo_patch_def off body patch_done_def Let_def split: prod.split)
  then show ?thesis
    using path by (simp add: files_step_def RegisterFiles_def handleUploadResume_def demo_patch_def demo_finish Let_def case_prod_beta)
qed

theorem file_requests_confined_witness:
  "(\<exists>n. [''srv'', ''g''] = [''up''] @ [n]) \<or> inside (api_Store demo_api) [''srv'', ''g''] \<or>
   (node_at (demo_upload_fs ''abc'') [''srv'', ''g''] = None \<and>
    node_at (run_steps (files_step demo_upload_env (\<lambda>s. s) demo_api) (demo_upload_fs ''abc'') [(demo_file_call, demo_patch)])
      [''srv'', ''g''] = Some FDir \<and>
    (\<exists>rt. abs_path rt \<in> set (st_roots (api_Store demo_api)) \<and> prefix [''srv'', ''g''] rt))"
proof (rule file_requests_confined [OF _ _ demo_upload_area demo_apart])
  show "NewStore (demo_upload_fs []) [''/srv''] = Inr (api_Store demo_api)" using demo_store by (simp add: demo_api_def)
  show "up_store (api_Uploader demo_api) = api_Store demo_api" by (simp add: demo_api_def)
  show "\<forall>(c, r) \<in> set [(demo_file_call, demo_patch)]. \<not> fc_fault c RenamePart" by (simp add: demo_calm)
  show "node_at (run_steps (files_step demo_upload_env (\<lambda>s. s) demo_api) (demo_upload_fs ''abc'') [(demo_file_call, demo_patch)])
      [''srv'', ''g''] \<noteq> node_at (demo_upload_fs ''abc'') [''srv'', ''g'']"
    using demo_run by (simp add: demo_nodes)
qed


section \<open>Protocol headers\<close>

text \<open>What a client sends: key and encoded value, the value left out when it is empty.\<close>

definition encode_part :: "string \<times> string \<Rightarrow> string" where
  "encode_part kv = (if snd kv = [] then fst kv else fst kv @ CHR '' '' # StdEncode (snd kv))"

definition encode_metadata :: "(string \<times> string) list \<Rightarrow> string" where
  "encode_metadata kvs = join_byte (CHR '','') (map encode_part kvs)"

definition metadata_key :: "string \<Rightarrow> bool" where
  "metadata_key k \<longleftrightarrow> k \<noteq> [] \<and> (\<forall>c \<in> set k. 33 \<le> byte c \<and> byte c < 127 \<and> c \<noteq> CHR '','')"

lemma b64_alphabet: "c \<in> set (StdEncode s) \<Longrightarrow> 33 \<le> byte c \<and> byte c < 127 \<and> c \<noteq> CHR '',''"
proof -
  assume c: "c \<in> set (StdEncode s)"
  have "\<forall>c \<in> set (map b64_char [0..<64]). 33 \<le> byte c \<and> byte c < 127 \<and> c \<noteq> CHR '',''"
    by code_simp
  moreover have "c \<in> set (map b64_char [0..<64]) \<or> c = pad_char" using b64_encode_not_in c by blast
  ultimately show ?thesis by auto
qed

lemma StdEncode_Nil [simp]: "StdEncode s = [] \<longleftrightarrow> s = []"
proof
  assume "StdEncode s = []"
  then have "StdDecode (StdEncode s) = StdDecode (StdEncode [])" by simp
  then show "s = []" by (simp only: b64_roundtrip option.inject)
qed simp

lemma printable_not_space: "33 \<le> byte c \<Longrightarrow> byte c < 127 \<Longrightarrow> \<not> is_space (byte c)"
  by (auto simp: is_space_def)

lemma metadata_part_encode:
  assumes "metadata_key k"
  shows "metadata_part m (encode_part (k, v)) = m(k \<mapsto> v)"
proof -
  have k: "k \<noteq> []" "\<forall>c \<in> set k. 33 \<le> byte c \<and> byte c < 127" using assms by (auto simp: metadata_key_def)
  have sp: "CHR '' '' \<notin> set k" using k(2) by fastforce
  show ?thesis
  proof (cases "v = []")
    case True
    have "TrimSpace k = k" using k(2) by (intro TrimSpace_printable) (auto simp: printable_not_space)
    with True k sp show ?thesis by (simp add: encode_part_def metadata_part_def split2_def)
  next
    case False
    let ?p = "k @ CHR '' '' # StdEncode v"
    have e: "\<forall>c \<in> set (StdEncode v). 33 \<le> byte c \<and> byte c < 127" "StdEncode v \<noteq> []" using b64_alphabet False by auto
    have "TrimSpace ?p = ?p"
    proof (rule TrimSpace_ascii)
      show "\<forall>c \<in> set ?p. byte c < 128" using k(2) e(1) by auto
      show "\<not> is_space (byte (hd ?p)) \<and> \<not> is_space (byte (last ?p))"
        using k e printable_not_space hd_in_set [OF k(1)] last_in_set [OF e(2)] by simp
    qed
    moreover have "split2 (CHR '' '') ?p = [k, StdEncode v]" using sp by (simp add: split2_def takeWhile_append Let_def)
    ultimately show ?thesis using False k(1) by (simp add: encode_part_def metadata_part_def)
  qed
qed

lemma encode_part_no_comma: "metadata_key k \<Longrightarrow> CHR '','' \<notin> set (encode_part (k, v))"
  using b64_alphabet [of "CHR '',''" v] by (auto simp: encode_part_def metadata_key_def)

text \<open>
  The upload headers survive the wire: whatever file name, directory and hash a client puts into the
  metadata header, as any bytes in base64, the daemon reads back exactly these, the last of repeated
  keys winning; and a number it prints as an offset is the number it accepts as one.
\<close>

lemma upload_headers_roundtrip:
  assumes "\<forall>(k, v) \<in> set kvs. metadata_key k" and "int n \<le> max_int64"
  shows "ParseUploadMetadata (encode_metadata kvs) = map_of (rev kvs) \<and> ParseOffset (FormatInt (int n)) = Some (int n)"
proof -
  have fold: "foldl metadata_part m (map encode_part kvs) = m ++ map_of (rev kvs)" for m
    using assms(1)
  proof (induction kvs arbitrary: m)
    case (Cons kv kvs)
    obtain k v where kv: "kv = (k, v)" by fastforce
    with Cons.prems have "metadata_part m (encode_part kv) = m(k \<mapsto> v)" by (simp add: metadata_part_encode)
    with Cons kv show ?case by simp
  qed simp
  have "ParseUploadMetadata (encode_metadata kvs) = map_of (rev kvs)"
  proof (cases "kvs = []")
    case True
    then show ?thesis by (simp add: ParseUploadMetadata_def encode_metadata_def metadata_part_def TrimSpace_def)
  next
    case False
    have "split_byte (CHR '','') (encode_metadata kvs) = map encode_part kvs"
      unfolding encode_metadata_def using assms(1) encode_part_no_comma False by (intro split_join) auto
    then show ?thesis using fold [of Map.empty] by (simp add: ParseUploadMetadata_def)
  qed
  moreover have "ParseOffset (FormatInt (int n)) = Some (int n)"
    using ParseInt_decimal [OF assms(2)] by (simp add: ParseOffset_def FormatInt_def)
  ultimately show ?thesis by simp
qed

lemma upload_headers_roundtrip_example:
  "ParseUploadMetadata (encode_metadata [(''filename'', ''a,b c''), (''dir'', [])]) =
     map_of (rev [(''filename'', ''a,b c''), (''dir'', [])]) \<and> ParseOffset (FormatInt (int 42)) = Some (int 42)"
  by (rule upload_headers_roundtrip) (simp_all add: metadata_key_def)

end
