(* ===== verification/Http_Mux.thy ===== *)
theory Http_Mux
  imports Go_Path
begin

text \<open>
  The request multiplexer of package net/http for patterns without methods, hosts and wildcards:
  the matching of an escaped path segment by segment, the precedence of the longer pattern and the
  redirection to the cleaned path. A path handed to a handler is the unescaped one.
\<close>


section \<open>Percent-encoding\<close>

text \<open>\<^verbatim>\<open>url.PathUnescape\<close>; \<open>None\<close> for a percent sign without two hexadecimal digits.\<close>

fun PathUnescape :: "string \<Rightarrow> string option" where
  "PathUnescape [] = Some []"
| "PathUnescape (c # s) =
     (if c = CHR ''%'' then
        (case s of
           a # b # t \<Rightarrow>
             (case (hex_value a, hex_value b) of
                (Some m, Some n) \<Rightarrow> map_option (Cons (chr (16 * m + n))) (PathUnescape t)
              | _ \<Rightarrow> None)
         | _ \<Rightarrow> None)
      else map_option (Cons c) (PathUnescape s))"

text \<open>The mux keeps a segment as it is when it cannot be unescaped.\<close>

definition path_unescape :: "string \<Rightarrow> string" where
  "path_unescape s = (case PathUnescape s of None \<Rightarrow> s | Some t \<Rightarrow> t)"

lemma PathUnescape_plain: "CHR ''%'' \<notin> set s \<Longrightarrow> PathUnescape s = Some s"
  by (induction s rule: PathUnescape.induct) auto

lemma path_unescape_plain [simp]: "CHR ''%'' \<notin> set s \<Longrightarrow> path_unescape s = s"
  by (simp add: path_unescape_def PathUnescape_plain)

lemma hex_value_not_slash: "hex_value c = Some n \<Longrightarrow> c \<noteq> slash"
  by (auto simp: hex_value_def)

lemma hex_value_slash [simp]: "hex_value slash = None"
  by (simp add: hex_value_def)

text \<open>No escape goes across a slash, so a path is unescaped segment by segment.\<close>

lemma PathUnescape_split:
  "PathUnescape (a @ slash # b) = Some x \<Longrightarrow>
     \<exists>a' b'. PathUnescape a = Some a' \<and> PathUnescape b = Some b' \<and> x = a' @ slash # b'"
proof (induction a arbitrary: x rule: PathUnescape.induct)
  case (2 c s)
  show ?case
  proof (cases "c = CHR ''%''")
    case True
    obtain u v t where s: "s @ slash # b = u # v # t"
      using 2(3) True by (auto split: list.splits)
    obtain m n where h: "hex_value u = Some m" "hex_value v = Some n"
      using 2(3) True s by (auto split: option.splits)
    have "u \<noteq> slash" "v \<noteq> slash" using h by (auto dest: hex_value_not_slash)
    then obtain t' where t': "s = u # v # t'" "t = t' @ slash # b"
      using s by (cases s; cases "tl s") auto
    obtain y where y: "PathUnescape (t' @ slash # b) = Some y" "x = chr (16 * m + n) # y"
      using 2(3) True s h t' by auto
    obtain a' b' where "PathUnescape t' = Some a'" "PathUnescape b = Some b'" "y = a' @ slash # b'"
      using 2(1) [OF True t'(1) refl refl h y(1)] by blast
    with True t' h y show ?thesis by auto
  next
    case False
    obtain y where y: "PathUnescape (s @ slash # b) = Some y" "x = c # y" using 2(3) False by auto
    from 2(2) [OF False y(1)] False y(2) show ?thesis by auto
  qed
qed auto

lemma PathUnescape_segments:
  "PathUnescape p = Some q \<Longrightarrow> q = join_byte slash (map path_unescape (split_byte slash p))"
proof (induction "length p" arbitrary: p q rule: less_induct)
  case less
  show ?case
  proof (cases "slash \<in> set p")
    case False
    with less.prems show ?thesis by (simp add: path_unescape_def)
  next
    case True
    then obtain a b where p: "p = a @ slash # b" "slash \<notin> set a" by (meson split_list_first)
    from PathUnescape_split less.prems p(1) obtain a' b' where
      q: "PathUnescape a = Some a'" "PathUnescape b = Some b'" "q = a' @ slash # b'" by blast
    from less.hyps [OF _ q(2)] p(1) have "b' = join_byte slash (map path_unescape (split_byte slash b))" by simp
    with p q show ?thesis by (simp add: split_byte_append join_byte_Cons path_unescape_def)
  qed
qed


section \<open>Patterns\<close>

text \<open>The segments of an escaped path that starts with a slash; a trailing slash is an empty last one.\<close>

definition path_segments :: "string \<Rightarrow> string list" where
  "path_segments p = map path_unescape (split_byte slash (tl p))"

text \<open>A pattern that ends in a slash stands for the subtree below it, any other for one path.\<close>

definition pattern_matches :: "string \<Rightarrow> string list \<Rightarrow> bool" where
  "pattern_matches pat segs =
     (let ps = split_byte slash (tl pat)
      in if last ps = [] then length ps \<le> length segs \<and> take (length ps - 1) segs = butlast ps
         else segs = ps)"

text \<open>Of the patterns that match, the longer one is the more specific and wins.\<close>

fun mux_find :: "(string \<times> 'h) list \<Rightarrow> string list \<Rightarrow> (string \<times> 'h) option" where
  "mux_find [] segs = None"
| "mux_find ((pat, h) # table) segs =
     (case mux_find table segs of
        None \<Rightarrow> if pattern_matches pat segs then Some (pat, h) else None
      | Some (q, k) \<Rightarrow>
          if pattern_matches pat segs \<and> length q < length pat then Some (pat, h) else Some (q, k))"

definition cleanPath :: "string \<Rightarrow> string" where
  "cleanPath p =
     (if p = [] then ''/''
      else let p' = (if hd p = slash then p else slash # p); np = Clean p'
           in if last p' = slash \<and> np \<noteq> ''/'' then np @ ''/'' else np)"

text \<open>
  \<^verbatim>\<open>findHandler\<close>: a path that is not clean is redirected, except for CONNECT, where only the
  missing path of an authority is; the server parses no other path without a leading slash.
\<close>

datatype 'h mux_result = Handler 'h | RedirectTo nat string | NoHandler

definition findHandler :: "(string \<times> 'h) list \<Rightarrow> string \<Rightarrow> string \<Rightarrow> 'h mux_result" where
  "findHandler table meth escaped =
     (if meth = ''CONNECT'' \<and> escaped = [] then RedirectTo 307 ''/''
      else if meth \<noteq> ''CONNECT'' \<and> cleanPath escaped \<noteq> escaped then RedirectTo 301 (cleanPath escaped)
      else if hd escaped \<noteq> slash then NoHandler
      else case mux_find table (path_segments escaped) of
             None \<Rightarrow> NoHandler
           | Some (_, h) \<Rightarrow> Handler h)"


section \<open>Properties\<close>

lemma mux_find_Some: "mux_find table segs = Some (pat, h) \<Longrightarrow> (pat, h) \<in> set table \<and> pattern_matches pat segs"
  by (induction table segs rule: mux_find.induct) (auto split: option.splits if_splits)

lemma cleanPath_Nil [simp]: "cleanPath [] = ''/''"
  by (simp add: cleanPath_def)

lemma findHandler_Handler:
  assumes "findHandler table meth escaped = Handler h"
  shows "\<exists>pat. (pat, h) \<in> set table \<and> pattern_matches pat (path_segments escaped)"
    and "escaped \<noteq> []" "hd escaped = slash"
proof -
  show "\<exists>pat. (pat, h) \<in> set table \<and> pattern_matches pat (path_segments escaped)"
    using assms mux_find_Some by (fastforce simp: findHandler_def split: if_splits option.splits)
  show "escaped \<noteq> []" "hd escaped = slash"
    using assms by (auto simp: findHandler_def split: if_splits)
qed

text \<open>The unescaped path that a handler sees agrees with the pattern it was chosen by.\<close>

lemma pattern_matches_path:
  assumes "pattern_matches pat (path_segments p)" "PathUnescape p = Some q"
    and "hd p = slash" "p \<noteq> []" "hd pat = slash" "pat \<noteq> []"
  shows "if last pat = slash then HasPrefix q pat else q = pat"
proof -
  obtain p' pat' where p: "p = slash # p'" "pat = slash # pat'"
    using assms(3-6) by (cases p; cases pat) auto
  obtain q' where q': "PathUnescape p' = Some q'" "q = slash # q'" using assms(2) p by auto
  let ?segs = "map path_unescape (split_byte slash p')" and ?ps = "split_byte slash pat'"
  have q: "q' = join_byte slash ?segs" by (rule PathUnescape_segments [OF q'(1)])
  have pj: "join_byte slash ?ps = pat'" by simp
  have ends: "last ?ps = [] \<longleftrightarrow> last pat = slash"
  proof (cases "slash \<in> set pat'")
    case True
    then obtain a b where ab: "pat' = a @ slash # b" "slash \<notin> set b" by (meson split_list_last)
    then have "last ?ps = b" by (simp add: split_byte_append_sep)
    with ab p show ?thesis by (cases b rule: rev_cases) auto
  next
    case False
    with p show ?thesis by (cases pat' rule: rev_cases) auto
  qed
  show ?thesis
  proof (cases "last pat = slash")
    case True
    then have len: "length ?ps \<le> length ?segs" "take (length ?ps - 1) ?segs = butlast ?ps"
      using assms(1) ends p by (simp_all add: pattern_matches_def path_segments_def Let_def)
    let ?rest = "drop (length ?ps - 1) ?segs"
    have ne: "?rest \<noteq> []" using len(1) by (cases ?ps) (auto simp: neq_Nil_conv)
    have "?segs = butlast ?ps @ ?rest" using len(2) by (metis append_take_drop_id)
    moreover have "?ps = butlast ?ps @ [[]]" using ends True by (metis append_butlast_last_id split_byte_nonempty)
    moreover have "prefix (join_byte slash (xs @ [[]])) (join_byte slash (xs @ ys))" if "ys \<noteq> []" for xs ys
      using that by (induction xs) (auto simp: join_byte_Cons)
    ultimately have "prefix pat' q'" using ne pj q by metis
    with True p q' show ?thesis by (simp add: HasPrefix_def)
  next
    case False
    then have "?segs = ?ps" using assms(1) ends p by (simp add: pattern_matches_def path_segments_def Let_def)
    with False q q' p pj show ?thesis by simp
  qed
qed

end
