(* ===== verification/Tickets.thy ===== *)
theory Tickets
  imports Go_Codec
begin

text \<open>
  The tickets that a browser presents at the WebSocket handshake instead of device headers:
  \<^verbatim>\<open>wsTicketStore\<close> of \<^verbatim>\<open>cmd/claudecode-remoted/main.go\<close>.
\<close>


section \<open>Model\<close>

definition wsTicketTTL :: duration where [time_simps]: "wsTicketTTL = 30 * second"

record wsTicketStore =
  tickets :: "string \<rightharpoonup> instant" \<comment> \<open>expiry, by ticket\<close>

definition newWSTicketStore :: wsTicketStore where
  "newWSTicketStore = \<lparr>tickets = Map.empty\<rparr>"

definition sweepTickets :: "instant \<Rightarrow> wsTicketStore \<Rightarrow> wsTicketStore" where
  "sweepTickets now s = s\<lparr>tickets := map_sweep (\<lambda>expiry. time_after now expiry) (tickets s)\<rparr>"

text \<open>\<open>rnd\<close> is the random source's 24 bytes, \<open>None\<close> when it fails.\<close>

definition issueTicket :: "instant \<Rightarrow> string option \<Rightarrow> wsTicketStore \<Rightarrow> string option \<times> wsTicketStore" where
  "issueTicket now rnd s =
     (case rnd of
        None \<Rightarrow> (None, s)
      | Some buf \<Rightarrow>
          let ticket = hex_encode buf; s1 = sweepTickets now s
          in (Some ticket, s1\<lparr>tickets := (tickets s1)(ticket \<mapsto> now + wsTicketTTL)\<rparr>))"

definition consumeTicket :: "instant \<Rightarrow> wsTicketStore \<Rightarrow> string \<Rightarrow> bool \<times> wsTicketStore" where
  "consumeTicket now s ticket =
     (case tickets s ticket of
        None \<Rightarrow> (False, s)
      | Some expiry \<Rightarrow> (time_before now expiry, s\<lparr>tickets := map_delete (tickets s) ticket\<rparr>))"


section \<open>What the operations do to the tickets\<close>

lemma consumeTicket_iff: "fst (consumeTicket now s tk) \<longleftrightarrow> (\<exists>t. tickets s tk = Some t \<and> now < t)"
  by (simp add: consumeTicket_def split: option.split)

lemma consumeTicket_tickets: "tickets (snd (consumeTicket now s tk)) = map_delete (tickets s) tk"
  by (auto simp: consumeTicket_def fun_eq_iff split: option.split)

lemma issueTicket_tickets:
  "tickets (snd (issueTicket now rnd s)) k = Some t \<Longrightarrow>
     tickets s k = Some t \<or> (fst (issueTicket now rnd s) = Some k \<and> t = now + wsTicketTTL)"
  by (auto simp: issueTicket_def Let_def sweepTickets_def sweep_simps split: option.splits if_splits)


section \<open>Tickets are single-use\<close>

datatype ticket_event = EvIssueTicket instant "string option" | EvConsumeTicket instant string

fun ticket_step :: "wsTicketStore \<Rightarrow> ticket_event \<Rightarrow> wsTicketStore" where
  "ticket_step s (EvIssueTicket now rnd) = snd (issueTicket now rnd s)"
| "ticket_step s (EvConsumeTicket now tk) = snd (consumeTicket now s tk)"

definition ticket_issues :: "ticket_event \<Rightarrow> string \<Rightarrow> bool" where
  "ticket_issues e tk \<longleftrightarrow> (\<exists>now buf. e = EvIssueTicket now (Some buf) \<and> tk = hex_encode buf)"

definition ticket_redeems :: "wsTicketStore \<Rightarrow> ticket_event \<Rightarrow> string \<Rightarrow> bool" where
  "ticket_redeems s e tk \<longleftrightarrow> (\<exists>now. e = EvConsumeTicket now tk \<and> fst (consumeTicket now s tk))"

interpretation ws_tickets: single_use ticket_step "\<lambda>s tk. tickets s tk \<noteq> None" ticket_issues ticket_redeems
proof (unfold_locales, goal_cases)
  case (1 s e k)
  then show ?case by (auto simp: ticket_redeems_def consumeTicket_iff)
next
  case (2 s e k)
  then show ?case by (auto simp: ticket_redeems_def consumeTicket_tickets)
next
  case (3 s e k)
  show ?case
  proof (cases e)
    case (EvIssueTicket now rnd)
    with 3 obtain t where "tickets (snd (issueTicket now rnd s)) k = Some t" by auto
    from issueTicket_tickets [OF this] EvIssueTicket show ?thesis
      by (auto simp: ticket_issues_def issueTicket_def Let_def split: option.splits)
  next
    case (EvConsumeTicket now tk)
    with 3 show ?thesis by (auto simp: consumeTicket_tickets split: if_splits)
  qed
qed

text \<open>
  C25. A copied ticket is worthless: after a ticket opened one stream, or was presented too late, no
  sequence of issued and consumed tickets makes the store accept it again, unless the random source
  repeats its 24 bytes; and from an empty store every accepted ticket was issued before.
\<close>

theorem ticket_single_use:
  assumes "\<forall>e \<in> set es. \<forall>t buf. e = EvIssueTicket t (Some buf) \<longrightarrow> hex_encode buf \<noteq> tk"
  shows "\<not> fst (consumeTicket now' (run_steps ticket_step (snd (consumeTicket now s tk)) es) tk)
     \<and> \<not> fst (consumeTicket now' (run_steps ticket_step newWSTicketStore es) tk)"
proof -
  have fresh: "\<forall>e \<in> set es. \<not> ticket_issues e tk" using assms by (auto simp: ticket_issues_def)
  have dead: "\<not> fst (consumeTicket now' (run_steps ticket_step s' es) tk)" if "tickets s' tk = None" for s'
    using ws_tickets.dead_stays_dead [OF _ fresh, of s'] that by (auto simp: consumeTicket_iff)
  show ?thesis by (simp add: dead consumeTicket_tickets newWSTicketStore_def)
qed

theorem ticket_single_use_witness:
  "\<not> fst (consumeTicket 5 (run_steps ticket_step (snd (consumeTicket 4
      (snd (issueTicket 3 (Some ''k'') newWSTicketStore)) (hex_encode ''k''))) [EvIssueTicket 4 (Some ''l'')]) (hex_encode ''k''))
   \<and> \<not> fst (consumeTicket 5 (run_steps ticket_step newWSTicketStore [EvIssueTicket 4 (Some ''l'')]) (hex_encode ''k''))"
proof (rule ticket_single_use)
  have "hex_encode ''l'' \<noteq> hex_encode ''k''" by (auto simp del: hex_encode.simps dest: hex_encode_inject)
  then show "\<forall>e \<in> set [EvIssueTicket 4 (Some ''l'')]. \<forall>t buf. e = EvIssueTicket t (Some buf) \<longrightarrow>
      hex_encode buf \<noteq> hex_encode ''k''"
    by (simp del: hex_encode.simps)
qed

end
