(* ===== verification/Router.thy ===== *)
theory Router
  imports Owner_Chain StepUp Startup Terminal_Sessions Files_Requests Http_Mux Tickets
begin

text \<open>
  The daemon as one: the middleware of \<^verbatim>\<open>identity/middleware.go\<close> and the wiring of
  \<^verbatim>\<open>cmd/claudecode-remoted/main.go\<close> around the pairing, terminal and file routes. One request is
  served against one state of the daemon; what the request draws from its environment travels with
  it.
\<close>


section \<open>State, requests and responses\<close>

record ('wa, 'user, 'sess, 'x) daemon =
  dm_auth :: DeviceAuthenticator
  dm_gate :: StepUpGate
  dm_tickets :: wsTicketStore
  dm_owner :: "('wa, 'user, 'sess) Owner"
  dm_db :: DB
  dm_locks :: lock_fs
  dm_tmux :: 'x
  dm_files :: fsys

text \<open>What the handlers were built from; \<open>de_static\<close> is the file server of the test client.\<close>

record ('wa, 'user, 'sess, 'parsed, 'x) dm_env =
  de_id :: "('wa, 'user, 'sess, 'parsed) identity_env"
  de_ed :: ed25519
  de_term :: "'x term_env"
  de_upload :: upload_env
  de_quote :: "string \<Rightarrow> string"
  de_api :: API
  de_static :: "http_request \<Rightarrow> nat \<times> string"
  de_insecure :: bool

text \<open>
  A call: the escaped path of the request line, the rest of the request, and its environment.
  \<open>dc_need\<close> is how many bytes of the body the JSON decoder reads before it has a value or knows that
  there is none; \<open>dc_auth_fault\<close> is a database failure during authentication, \<open>dc_fault\<close> one in the
  identity handlers.
\<close>

record dm_call =
  dc_escaped :: string
  dc_req :: http_request
  dc_need :: nat
  dc_now :: instant
  dc_unix :: int
  dc_rnd :: "string option"
  dc_auth_fault :: bool
  dc_fault :: bool
  dc_order :: "device_row list \<Rightarrow> device_row list"
  dc_term :: term_call
  dc_ws :: ws_call
  dc_files :: file_call

datatype dm_body =
    ErrorText string
  | OwnerReply owner_body
  | TermReply term_body
  | FileReply file_body
  | ChallengeReply string
  | TicketReply string
  | HealthReply
  | StaticReply string
  | EmptyReply

record dm_resp =
  dr_status :: nat
  dr_headers :: "(string \<times> string) list"
  dr_body :: dm_body

type_synonym ('wa, 'user, 'sess, 'x) handler =
  "http_request \<Rightarrow> ('wa, 'user, 'sess, 'x) daemon \<Rightarrow> dm_resp \<times> ('wa, 'user, 'sess, 'x) daemon"

definition json_reply :: "nat \<Rightarrow> dm_body \<Rightarrow> dm_resp" where
  "json_reply status body =
     \<lparr>dr_status = status, dr_headers = [(''Content-Type'', ''application/json'')], dr_body = body\<rparr>"

definition writeAuthError :: "nat \<Rightarrow> string \<Rightarrow> dm_resp" where
  "writeAuthError status msg = json_reply status (ErrorText msg)"

definition writeJSONError :: "nat \<Rightarrow> string \<Rightarrow> dm_resp" where
  "writeJSONError status msg = json_reply status (ErrorText msg)"


section \<open>Middleware\<close>

definition DeviceIDFromContext :: "http_request \<Rightarrow> string option" where
  "DeviceIDFromContext r = req_device r"

definition RequireDevice ::
    "('wa, 'user, 'sess, 'parsed, 'x) dm_env \<Rightarrow> dm_call \<Rightarrow> ('wa, 'user, 'sess, 'x) handler \<Rightarrow>
     ('wa, 'user, 'sess, 'x) handler" where
  "RequireDevice env c nxt r d =
     (let did = req_header r ''X-Device-Id''; sigHeader = req_header r ''X-Device-Signature''
      in if did = [] \<or> sigHeader = []
         then (writeAuthError StatusUnauthorized ''missing device credentials'', d)
         else case StdDecode sigHeader of
                None \<Rightarrow> (writeAuthError StatusUnauthorized ''malformed device signature'', d)
              | Some sg \<Rightarrow>
                  (case DeviceVerify (de_ed env) (StoreDevice (dc_auth_fault c) (dm_db d)) (dc_now c) (dm_auth d) did sg of
                     (Some _, a) \<Rightarrow>
                       (writeAuthError StatusUnauthorized ''device authentication failed'', d\<lparr>dm_auth := a\<rparr>)
                   | (None, a) \<Rightarrow> nxt (r\<lparr>req_device := Some did\<rparr>) (d\<lparr>dm_auth := a\<rparr>)))"

definition RequireStepUp ::
    "dm_call \<Rightarrow> action \<Rightarrow> ('wa, 'user, 'sess, 'x) handler \<Rightarrow> ('wa, 'user, 'sess, 'x) handler" where
  "RequireStepUp c act nxt r d =
     (case DeviceIDFromContext r of
        None \<Rightarrow> (writeAuthError StatusUnauthorized ''device authentication required'', d)
      | Some did \<Rightarrow>
          if \<not> RequiresStepUp act then nxt r d
          else case ConsumeGrant (dc_now c) (dm_gate d) did act of
                 (Some _, g) \<Rightarrow>
                   (writeAuthError StatusUnauthorized ''step-up authentication required'', d\<lparr>dm_gate := g\<rparr>)
               | (None, g) \<Rightarrow> nxt r (d\<lparr>dm_gate := g\<rparr>))"

definition wrapSessionAuth ::
    "('wa, 'user, 'sess, 'parsed, 'x) dm_env \<Rightarrow> dm_call \<Rightarrow> ('wa, 'user, 'sess, 'x) handler \<Rightarrow>
     ('wa, 'user, 'sess, 'x) handler" where
  "wrapSessionAuth env c nxt r d =
     (if HasSuffix (req_path r) ''/stream'' then
        (let ticket = req_query r ''ticket''
         in if ticket = [] then (writeJSONError StatusUnauthorized ''missing or invalid ws ticket'', d)
            else case consumeTicket (dc_now c) (dm_tickets d) ticket of
                   (False, ts) \<Rightarrow>
                     (writeJSONError StatusUnauthorized ''missing or invalid ws ticket'', d\<lparr>dm_tickets := ts\<rparr>)
                 | (True, ts) \<Rightarrow> nxt r (d\<lparr>dm_tickets := ts\<rparr>))
      else RequireDevice env c nxt r d)"

definition maxJSONBody :: nat where "maxJSONBody = 2 ^ 20"

definition limitRequestBody ::
    "dm_call \<Rightarrow> ('wa, 'user, 'sess, 'x) handler \<Rightarrow> ('wa, 'user, 'sess, 'x) handler" where
  "limitRequestBody c nxt r d =
     (if \<not> HasPrefix (req_path r) ''/files/upload'' \<and> maxJSONBody < dc_need c
      then nxt (r\<lparr>req_json := JsonError\<rparr>) d else nxt r d)"

text \<open>The keyword \<^verbatim>\<open>none\<close> of a content security policy is written between apostrophes.\<close>

definition csp_none :: string where "csp_none = CHR 0x27 # ''none'' @ [CHR 0x27]"

text \<open>The headers of the response writer; a connection taken over by a WebSocket never sends them.\<close>

definition secure_header_list :: "string \<Rightarrow> (string \<times> string) list" where
  "secure_header_list path =
     [(''X-Content-Type-Options'', ''nosniff''), (''X-Frame-Options'', ''DENY''),
      (''Referrer-Policy'', ''no-referrer''), (''Cross-Origin-Opener-Policy'', ''same-origin'')] @
     (if \<not> HasPrefix path ''/static'' \<and> path \<noteq> ''/''
      then [(''Content-Security-Policy'', ''default-src '' @ csp_none @ ''; frame-ancestors '' @ csp_none)] else [])"

definition secureHeaders ::
    "('wa, 'user, 'sess, 'x) handler \<Rightarrow> ('wa, 'user, 'sess, 'x) handler" where
  "secureHeaders nxt r d =
     (let (resp, d') = nxt r d
      in (resp\<lparr>dr_headers := secure_header_list (req_path r) @ dr_headers resp\<rparr>, d'))"


section \<open>The routes\<close>

datatype route =
    Sessions | Files | Pairing | Devices | DevicesRevoke | Challenge | WSTicket | Health | Static

definition root_table :: "(string \<times> route) list" where
  "root_table =
     [(''/sessions'', Sessions), (''/sessions/'', Sessions),
      (''/files'', Files), (''/files/download'', Files), (''/files/upload'', Files), (''/files/upload/'', Files),
      (''/owner/pair/start'', Pairing), (''/owner/pair/password'', Pairing), (''/owner/pair/totp'', Pairing),
      (''/owner/pair/passkey'', Pairing), (''/owner/pair/complete'', Pairing),
      (''/owner/devices'', Devices), (''/owner/devices/revoke'', DevicesRevoke),
      (''/auth/challenge'', Challenge), (''/auth/ws-ticket'', WSTicket), (''/health'', Health), (''/'', Static)]"

text \<open>The sub-muxes, unauthenticated.\<close>

definition term_mux ::
    "('wa, 'user, 'sess, 'parsed, 'x) dm_env \<Rightarrow> dm_call \<Rightarrow> ('wa, 'user, 'sess, 'x) handler" where
  "term_mux env c r d =
     (let ((st, b), s) = Routes (de_term env) (dc_term c) (dc_ws c)
                           \<lparr>ts_db = dm_db d, ts_locks = dm_locks d, ts_tmux = dm_tmux d\<rparr> r
      in (\<lparr>dr_status = st, dr_headers = [], dr_body = TermReply b\<rparr>,
          d\<lparr>dm_db := ts_db s, dm_locks := ts_locks s, dm_tmux := ts_tmux s\<rparr>))"

definition files_mux ::
    "('wa, 'user, 'sess, 'parsed, 'x) dm_env \<Rightarrow> dm_call \<Rightarrow> ('wa, 'user, 'sess, 'x) handler" where
  "files_mux env c r d =
     (let (resp, fs) = RegisterFiles (de_upload env) (de_quote env) (dc_files c) (de_api env) (dm_files d) r
      in (\<lparr>dr_status = fr_status resp, dr_headers = fr_headers resp, dr_body = FileReply (fr_body resp)\<rparr>,
          d\<lparr>dm_files := fs\<rparr>))"

definition pairing_mux ::
    "('wa, 'user, 'sess, 'parsed, 'x) dm_env \<Rightarrow> dm_call \<Rightarrow> ('wa, 'user, 'sess, 'x) handler" where
  "pairing_mux env c r d =
     (let ((st, b), ow, db) = RegisterPairing (de_id env)
            \<lparr>oc_now = dc_now c, oc_unix = dc_unix c, oc_rnd = dc_rnd c, oc_fault = dc_fault c, oc_req = r\<rparr>
            (dm_owner d) (dm_db d)
      in (json_reply st (OwnerReply b), d\<lparr>dm_owner := ow, dm_db := db\<rparr>))"

definition devices_mux :: "dm_call \<Rightarrow> ('wa, 'user, 'sess, 'x) handler" where
  "devices_mux c r d =
     (let ((st, b), db) = RegisterDeviceManagement (dc_order c) (dc_fault c) (dm_db d) r
      in (json_reply st (OwnerReply b), d\<lparr>dm_db := db\<rparr>))"

definition handleAuthChallenge :: "dm_call \<Rightarrow> ('wa, 'user, 'sess, 'x) handler" where
  "handleAuthChallenge c r d =
     (if req_method r \<noteq> MethodPost then (writeJSONError StatusMethodNotAllowed ''method not allowed'', d)
      else case req_json r of
             JsonObject body \<Rightarrow>
               if body ''device_id'' = [] then (writeJSONError StatusBadRequest ''device_id is required'', d)
               else (case IssueChallenge (StoreDevice (dc_fault c) (dm_db d)) (dc_now c) (dc_rnd c)
                            (dm_auth d) (body ''device_id'') of
                       (Inl _, a) \<Rightarrow>
                         (writeJSONError StatusInternalServerError ''failed to issue challenge'', d\<lparr>dm_auth := a\<rparr>)
                     | (Inr nonce, a) \<Rightarrow>
                         (json_reply StatusOK (ChallengeReply (StdEncode nonce)), d\<lparr>dm_auth := a\<rparr>))
           | _ \<Rightarrow> (writeJSONError StatusBadRequest ''device_id is required'', d))"

definition handleAuthWSTicket :: "dm_call \<Rightarrow> ('wa, 'user, 'sess, 'x) handler" where
  "handleAuthWSTicket c r d =
     (if req_method r \<noteq> MethodPost then (writeJSONError StatusMethodNotAllowed ''method not allowed'', d)
      else case issueTicket (dc_now c) (dc_rnd c) (dm_tickets d) of
             (None, ts) \<Rightarrow>
               (writeJSONError StatusInternalServerError ''failed to issue ticket'', d\<lparr>dm_tickets := ts\<rparr>)
           | (Some ticket, ts) \<Rightarrow> (json_reply StatusOK (TicketReply ticket), d\<lparr>dm_tickets := ts\<rparr>))"

definition serve_route ::
    "('wa, 'user, 'sess, 'parsed, 'x) dm_env \<Rightarrow> dm_call \<Rightarrow> route \<Rightarrow> ('wa, 'user, 'sess, 'x) handler" where
  "serve_route env c rt =
     (case rt of
        Sessions \<Rightarrow> if de_insecure env then term_mux env c else wrapSessionAuth env c (term_mux env c)
      | Files \<Rightarrow> if de_insecure env then files_mux env c else RequireDevice env c (files_mux env c)
      | Pairing \<Rightarrow> pairing_mux env c
      | Devices \<Rightarrow> RequireDevice env c (devices_mux c)
      | DevicesRevoke \<Rightarrow> RequireDevice env c (RequireStepUp c ActionRevokeDevice (devices_mux c))
      | Challenge \<Rightarrow> handleAuthChallenge c
      | WSTicket \<Rightarrow> RequireDevice env c (handleAuthWSTicket c)
      | Health \<Rightarrow> (\<lambda>r d. (json_reply StatusOK HealthReply, d))
      | Static \<Rightarrow> (\<lambda>r d. (case de_static env r of
                           (st, b) \<Rightarrow> (\<lparr>dr_status = st, dr_headers = [], dr_body = StaticReply b\<rparr>, d))))"

definition root_mux ::
    "('wa, 'user, 'sess, 'parsed, 'x) dm_env \<Rightarrow> dm_call \<Rightarrow> ('wa, 'user, 'sess, 'x) handler" where
  "root_mux env c r d =
     (case findHandler root_table (req_method r) (dc_escaped c) of
        Handler rt \<Rightarrow> serve_route env c rt r d
      | RedirectTo st p \<Rightarrow> (\<lparr>dr_status = st, dr_headers = [(''Location'', p)], dr_body = EmptyReply\<rparr>, d)
      | NoHandler \<Rightarrow> (\<lparr>dr_status = StatusNotFound, dr_headers = [], dr_body = EmptyReply\<rparr>, d))"

text \<open>
  One request. A path that cannot be unescaped is refused by the server before any handler; the
  handlers read the unescaped path, and no device id is in a fresh request's context.
\<close>

definition serve ::
    "('wa, 'user, 'sess, 'parsed, 'x) dm_env \<Rightarrow> ('wa, 'user, 'sess, 'x) daemon \<Rightarrow> dm_call \<Rightarrow>
     dm_resp \<times> ('wa, 'user, 'sess, 'x) daemon" where
  "serve env d c =
     (case PathUnescape (dc_escaped c) of
        None \<Rightarrow> (\<lparr>dr_status = StatusBadRequest, dr_headers = [], dr_body = EmptyReply\<rparr>, d)
      | Some p \<Rightarrow> secureHeaders (limitRequestBody c (root_mux env c)) ((dc_req c)\<lparr>req_path := p, req_device := None\<rparr>) d)"

definition serve_step ::
    "('wa, 'user, 'sess, 'parsed, 'x) dm_env \<Rightarrow> ('wa, 'user, 'sess, 'x) daemon \<Rightarrow> dm_call \<Rightarrow>
     ('wa, 'user, 'sess, 'x) daemon" where
  "serve_step env d c = snd (serve env d c)"

abbreviation serve_run ::
    "('wa, 'user, 'sess, 'parsed, 'x) dm_env \<Rightarrow> ('wa, 'user, 'sess, 'x) daemon \<Rightarrow> dm_call list \<Rightarrow>
     ('wa, 'user, 'sess, 'x) daemon" where
  "serve_run env \<equiv> run_steps (serve_step env)"


section \<open>Wiring and startup\<close>

record routerConfig =
  rc_OwnerEmail :: string
  rc_OwnerPasswordHash :: string
  rc_OwnerTOTPSecret :: string
  rc_PublicDomain :: string

definition newRouter ::
    "('wa, 'user, 'sess, 'parsed) identity_env \<Rightarrow> routerConfig \<Rightarrow> DB \<Rightarrow> lock_fs \<Rightarrow> 'x \<Rightarrow> fsys \<Rightarrow>
     ('wa, 'user, 'sess, 'x) daemon" where
  "newRouter ident cfg db locks x fs =
     (let origins = (if rc_PublicDomain cfg \<noteq> [] then [''https://'' @ rc_PublicDomain cfg] else []);
          owner = NewOwner ident
            \<lparr>c_Email = rc_OwnerEmail cfg, c_PasswordHash = rc_OwnerPasswordHash cfg,
             c_TOTPSecret = rc_OwnerTOTPSecret cfg, c_WebAuthnRPID = rc_PublicDomain cfg,
             c_WebAuthnDisplayName = ''ClaudeCode Remote'', c_WebAuthnOrigins = origins\<rparr> NewRateLimiter
      in \<lparr>dm_auth = NewDeviceAuthenticator, dm_gate = NewStepUpGate, dm_tickets = newWSTicketStore,
          dm_owner = owner, dm_db = db, dm_locks = locks, dm_tmux = x, dm_files = fs\<rparr>)"

text \<open>
  The program \<^verbatim>\<open>main\<close> up to the point where it listens. \<open>host\<close> is the machine it starts on: its file
  system, the database that \<^verbatim>\<open>db.Open\<close> finds or creates under each path (\<open>None\<close> when it fails), the lock
  files and the tmux server. The environment \<open>lib\<close> provides the libraries; its other fields are set here.
\<close>

record flags =
  fl_addr :: string
  fl_db :: string
  fl_lock_dir :: string
  fl_file_roots :: string
  fl_upload_dir :: string
  fl_owner_email :: string
  fl_owner_password_hash :: string
  fl_owner_totp_secret :: string
  fl_insecure_no_auth :: bool
  fl_public_domain :: string

record 'x host =
  ho_fs :: fsys
  ho_db :: "string \<Rightarrow> DB option"
  ho_lock_fault :: bool
  ho_locks :: lock_fs
  ho_tmux :: 'x

datatype start_error =
    RefusingToStart startup_error | InvalidPublicDomain startup_error | CreateDatabaseDirectory fs_error
  | OpenDatabase | LockDirectory lock_error | FileRoots store_error | UploadDirectory fs_error

definition checkFlags :: "flags \<Rightarrow> start_error option" where
  "checkFlags fl =
     (case checkBindAddress (fl_addr fl) of
        Some e \<Rightarrow> Some (RefusingToStart e)
      | None \<Rightarrow>
          (case validatePublicDomain (fl_public_domain fl) of
             Some e \<Rightarrow> Some (InvalidPublicDomain e)
           | None \<Rightarrow>
               if fl_insecure_no_auth fl then map_option RefusingToStart (checkLoopbackOnly (fl_addr fl)) else None))"

definition startDaemon ::
    "('wa, 'user, 'sess, 'parsed, 'x) dm_env \<Rightarrow> flags \<Rightarrow> 'x host \<Rightarrow>
     start_error + ('wa, 'user, 'sess, 'parsed, 'x) dm_env \<times> ('wa, 'user, 'sess, 'x) daemon" where
  "startDaemon lib fl host =
     (case checkFlags fl of
        Some e \<Rightarrow> Inl e
      | None \<Rightarrow>
          (case os_mkdir_all (ho_fs host) (Dir (fl_db fl)) of
             (Some e, _) \<Rightarrow> Inl (CreateDatabaseDirectory e)
           | (None, fs1) \<Rightarrow>
               (case ho_db host (fl_db fl) of
                  None \<Rightarrow> Inl OpenDatabase
                | Some db \<Rightarrow>
                    (case New (ho_lock_fault host) (fl_lock_dir fl) of
                       Inl e \<Rightarrow> Inl (LockDirectory e)
                     | Inr lockMgr \<Rightarrow>
                         let tenv = (de_term lib)\<lparr>te_tmux := NewTmux, te_locks := lockMgr\<rparr>;
                             mgr = NewManager tenv db (ho_locks host) (ho_tmux host)
                         in (case NewStore fs1 (splitRoots (fl_file_roots fl)) of
                               Inl e \<Rightarrow> Inl (FileRoots e)
                             | Inr store \<Rightarrow>
                                 (case NewUploader fs1 store (fl_upload_dir fl) of
                                    (Inl e, _) \<Rightarrow> Inl (UploadDirectory e)
                                  | (Inr up, fs2) \<Rightarrow>
                                      Inr (lib\<lparr>de_term := tenv, de_api := \<lparr>api_Store = store, api_Uploader = up\<rparr>,
                                               de_insecure := fl_insecure_no_auth fl\<rparr>,
                                           newRouter (de_id lib)
                                             \<lparr>rc_OwnerEmail = fl_owner_email fl,
                                              rc_OwnerPasswordHash = fl_owner_password_hash fl,
                                              rc_OwnerTOTPSecret = fl_owner_totp_secret fl,
                                              rc_PublicDomain = fl_public_domain fl\<rparr>
                                             (ts_db mgr) (ts_locks mgr) (ts_tmux mgr) fs2)))))))"

end
