(* ===== verification/Router_Access.thy ===== *)
theory Router_Access
  imports Router
begin

text \<open>
  Who reaches what: every effect on sessions and files, and every answer that shows them, goes back
  to a signature over a challenge of the last two minutes, directly or through a ticket.
\<close>


section \<open>One request\<close>

text \<open>The request that the routes see.\<close>

definition routed_request :: "dm_call \<Rightarrow> string \<Rightarrow> http_request" where
  "routed_request c p =
     (let r = (dc_req c)\<lparr>req_path := p, req_device := None\<rparr>
      in if \<not> HasPrefix p ''/files/upload'' \<and> maxJSONBody < dc_need c then r\<lparr>req_json := JsonError\<rparr> else r)"

lemma routed_request_simps [simp]:
  "req_path (routed_request c p) = p" "req_device (routed_request c p) = None"
  "req_header (routed_request c p) = req_header (dc_req c)" "req_query (routed_request c p) = req_query (dc_req c)"
  "req_method (routed_request c p) = req_method (dc_req c)"
  by (simp_all add: routed_request_def Let_def)

lemma routed_request_json: "req_json (routed_request c p) = JsonObject b \<Longrightarrow> req_json (dc_req c) = JsonObject b"
  by (simp add: routed_request_def Let_def split: if_splits)

lemma serve_routed:
  assumes "PathUnescape (dc_escaped c) = Some p"
    and "findHandler root_table (req_method (dc_req c)) (dc_escaped c) = Handler rt"
  shows "snd (serve env d c) = snd (serve_route env c rt (routed_request c p) d)"
    and "fst (serve env d c) = (fst (serve_route env c rt (routed_request c p) d))
      \<lparr>dr_headers := secure_header_list p @ dr_headers (fst (serve_route env c rt (routed_request c p) d))\<rparr>"
  using assms
  by (simp_all add: serve_def secureHeaders_def limitRequestBody_def routed_request_def root_mux_def Let_def case_prod_beta)

lemma serve_cases:
  obtains (unrouted) resp where "serve env d c = (resp, d)" "dr_body resp = EmptyReply" "dr_status resp \<noteq> StatusOK"
  | (routed) p rt hs where "PathUnescape (dc_escaped c) = Some p"
      "findHandler root_table (req_method (dc_req c)) (dc_escaped c) = Handler rt"
      "snd (serve env d c) = snd (serve_route env c rt (routed_request c p) d)"
      "fst (serve env d c) = (fst (serve_route env c rt (routed_request c p) d))\<lparr>dr_headers := hs\<rparr>"
proof (cases "PathUnescape (dc_escaped c)")
  case None
  then show ?thesis by (intro unrouted [of "fst (serve env d c)"]) (simp_all add: serve_def)
next
  case (Some p)
  let ?r = "routed_request c p"
  have serve: "serve env d c = (let (resp, d') = root_mux env c ?r d
      in (resp\<lparr>dr_headers := secure_header_list p @ dr_headers resp\<rparr>, d'))"
    by (simp add: serve_def Some secureHeaders_def limitRequestBody_def routed_request_def Let_def)
  show ?thesis
  proof (cases "findHandler root_table (req_method (dc_req c)) (dc_escaped c)")
    case (Handler rt)
    show ?thesis by (rule routed [OF Some Handler serve_routed [OF Some Handler]])
  next
    case (RedirectTo st q)
    then have "st \<noteq> StatusOK" by (auto simp: findHandler_def split: if_splits option.splits)
    with RedirectTo show ?thesis by (intro unrouted [of "fst (serve env d c)"]) (simp_all add: serve root_mux_def)
  next
    case NoHandler
    then show ?thesis by (intro unrouted [of "fst (serve env d c)"]) (simp_all add: serve root_mux_def)
  qed
qed

text \<open>The muxes behind the middleware leave its state alone.\<close>

lemma mux_frame [simp]:
  "dm_auth (snd (term_mux env c r d)) = dm_auth d" "dm_tickets (snd (term_mux env c r d)) = dm_tickets d"
  "dm_gate (snd (term_mux env c r d)) = dm_gate d" "dm_owner (snd (term_mux env c r d)) = dm_owner d"
  "dm_auth (snd (files_mux env c r d)) = dm_auth d" "dm_tickets (snd (files_mux env c r d)) = dm_tickets d"
  "dm_gate (snd (files_mux env c r d)) = dm_gate d" "dm_owner (snd (files_mux env c r d)) = dm_owner d"
  "dm_db (snd (files_mux env c r d)) = dm_db d"
  "dm_auth (snd (pairing_mux env c r d)) = dm_auth d" "dm_tickets (snd (pairing_mux env c r d)) = dm_tickets d"
  "dm_gate (snd (pairing_mux env c r d)) = dm_gate d"
  "dm_auth (snd (devices_mux c r d)) = dm_auth d" "dm_tickets (snd (devices_mux c r d)) = dm_tickets d"
  "dm_gate (snd (devices_mux c r d)) = dm_gate d" "dm_owner (snd (devices_mux c r d)) = dm_owner d"
  "dm_auth (snd (handleAuthWSTicket c r d)) = dm_auth d" "dm_gate (snd (handleAuthWSTicket c r d)) = dm_gate d"
  "dm_owner (snd (handleAuthWSTicket c r d)) = dm_owner d" "dm_db (snd (handleAuthWSTicket c r d)) = dm_db d"
  "dm_tickets (snd (handleAuthChallenge c r d)) = dm_tickets d" "dm_gate (snd (handleAuthChallenge c r d)) = dm_gate d"
  "dm_owner (snd (handleAuthChallenge c r d)) = dm_owner d" "dm_db (snd (handleAuthChallenge c r d)) = dm_db d"
  by (simp_all add: term_mux_def files_mux_def pairing_mux_def devices_mux_def handleAuthWSTicket_def
      handleAuthChallenge_def case_prod_beta split: json_body.split option.split sum.split)



section \<open>Authentication of one request\<close>

text \<open>A request whose device headers are accepted in a state, and one whose ticket is.\<close>

definition header_ok ::
    "('wa, 'user, 'sess, 'parsed, 'x) dm_env \<Rightarrow> ('wa, 'user, 'sess, 'x) daemon \<Rightarrow> dm_call \<Rightarrow> string \<Rightarrow> bool" where
  "header_ok env d c did \<longleftrightarrow>
     did = req_header (dc_req c) ''X-Device-Id'' \<and>
     (\<exists>sg. StdDecode (req_header (dc_req c) ''X-Device-Signature'') = Some sg \<and>
        fst (DeviceVerify (de_ed env) (StoreDevice (dc_auth_fault c) (dm_db d)) (dc_now c) (dm_auth d) did sg) = None)"

definition ticket_ok :: "('wa, 'user, 'sess, 'x) daemon \<Rightarrow> dm_call \<Rightarrow> bool" where
  "ticket_ok d c \<longleftrightarrow> fst (consumeTicket (dc_now c) (dm_tickets d) (req_query (dc_req c) ''ticket''))"

lemma RequireDevice_cases:
  obtains (refused) a msg where "RequireDevice env c nxt r d = (writeAuthError StatusUnauthorized msg, d\<lparr>dm_auth := a\<rparr>)"
      "\<And>k pc. pending a k = Some pc \<Longrightarrow> pending (dm_auth d) k = Some pc"
  | (passed) a did sg where "did = req_header r ''X-Device-Id''" "did \<noteq> []"
      "StdDecode (req_header r ''X-Device-Signature'') = Some sg"
      "fst (DeviceVerify (de_ed env) (StoreDevice (dc_auth_fault c) (dm_db d)) (dc_now c) (dm_auth d) did sg) = None"
      "\<And>k pc. pending a k = Some pc \<Longrightarrow> pending (dm_auth d) k = Some pc"
      "RequireDevice env c nxt r d = nxt (r\<lparr>req_device := Some did\<rparr>) (d\<lparr>dm_auth := a\<rparr>)"
proof -
  let ?did = "req_header r ''X-Device-Id''"
  have same: "d\<lparr>dm_auth := dm_auth d\<rparr> = d" by simp
  consider (missing) "?did = [] \<or> req_header r ''X-Device-Signature'' = []"
    | (malformed) "?did \<noteq> []" "req_header r ''X-Device-Signature'' \<noteq> []" "StdDecode (req_header r ''X-Device-Signature'') = None"
    | (sig) sg where "?did \<noteq> []" "req_header r ''X-Device-Signature'' \<noteq> []" "StdDecode (req_header r ''X-Device-Signature'') = Some sg"
    by blast
  then show ?thesis
  proof cases
    case missing
    then show ?thesis using same by (intro refused [of _ "dm_auth d"]) (simp_all add: RequireDevice_def)
  next
    case malformed
    then show ?thesis using same by (intro refused [of _ "dm_auth d"]) (simp_all add: RequireDevice_def)
  next
    case (sig sg)
    obtain e a where v: "DeviceVerify (de_ed env) (StoreDevice (dc_auth_fault c) (dm_db d)) (dc_now c) (dm_auth d) ?did sg = (e, a)"
      by fastforce
    have p: "pending a k = Some pc \<Longrightarrow> pending (dm_auth d) k = Some pc" for k pc
      using DeviceVerify_pending [of "de_ed env" "StoreDevice (dc_auth_fault c) (dm_db d)" "dc_now c" "dm_auth d" ?did sg] v
      by (simp split: if_splits)
    show ?thesis
    proof (cases e)
      case None
      with sig v p show ?thesis by (intro passed [of ?did sg a]) (simp_all add: RequireDevice_def Let_def)
    next
      case (Some err)
      with sig v p show ?thesis by (intro refused [of _ a]) (simp_all add: RequireDevice_def Let_def)
    qed
  qed
qed

lemma header_ok_request:
  assumes "did = req_header (routed_request c p) ''X-Device-Id''"
    "StdDecode (req_header (routed_request c p) ''X-Device-Signature'') = Some sg"
    "fst (DeviceVerify (de_ed env) (StoreDevice (dc_auth_fault c) (dm_db d)) (dc_now c) (dm_auth d) did sg) = None"
  shows "header_ok env d c did"
  using assms by (auto simp: header_ok_def)

text \<open>Behind the device check, only the signed challenge goes and the rest is up to the next handler.\<close>

lemma RequireDevice_keeps:
  assumes "\<And>r d. dm_auth (snd (nxt r d)) = dm_auth d" "pending (dm_auth (snd (RequireDevice env c nxt r d))) k = Some pc"
  shows "pending (dm_auth d) k = Some pc"
  by (cases rule: RequireDevice_cases [where env = env and c = c and nxt = nxt and r = r and d = d])
    (use assms in simp_all)

lemma RequireStepUp_auth:
  assumes "\<And>r d. dm_auth (snd (nxt r d)) = dm_auth d"
  shows "dm_auth (snd (RequireStepUp c act nxt r d)) = dm_auth d"
  using assms by (simp add: RequireStepUp_def split: option.split prod.split)

lemma wrapSessionAuth_cases:
  obtains (refused) ts msg where "wrapSessionAuth env c nxt r d = (writeJSONError StatusUnauthorized msg, d\<lparr>dm_tickets := ts\<rparr>)"
      "\<And>k t. tickets ts k = Some t \<Longrightarrow> tickets (dm_tickets d) k = Some t"
  | (ticket) ts where "HasSuffix (req_path r) ''/stream''"
      "fst (consumeTicket (dc_now c) (dm_tickets d) (req_query r ''ticket''))"
      "\<And>k t. tickets ts k = Some t \<Longrightarrow> tickets (dm_tickets d) k = Some t"
      "wrapSessionAuth env c nxt r d = nxt r (d\<lparr>dm_tickets := ts\<rparr>)"
  | (header) "wrapSessionAuth env c nxt r d = RequireDevice env c nxt r d"
proof (cases "HasSuffix (req_path r) ''/stream''")
  case True
  let ?tk = "req_query r ''ticket''"
  obtain ok ts where cs: "consumeTicket (dc_now c) (dm_tickets d) ?tk = (ok, ts)" by fastforce
  have ts: "tickets ts k = Some t \<Longrightarrow> tickets (dm_tickets d) k = Some t" for k t
    using consumeTicket_tickets [of "dc_now c" "dm_tickets d" ?tk] cs by (simp split: if_splits)
  show ?thesis
  proof (cases "?tk = [] \<or> \<not> ok")
    case bad: True
    show ?thesis
    proof (cases "?tk = []")
      case True
      with \<open>HasSuffix _ _\<close> show ?thesis
        by (intro refused [of _ "dm_tickets d"]) (simp_all add: wrapSessionAuth_def)
    next
      case False
      with bad \<open>HasSuffix _ _\<close> cs ts show ?thesis by (intro refused [of _ ts]) (simp_all add: wrapSessionAuth_def)
    qed
  next
    case False
    with True cs ts show ?thesis by (intro ticket [of ts]) (simp_all add: wrapSessionAuth_def)
  qed
qed (rule header, simp add: wrapSessionAuth_def)


section \<open>Where challenges and tickets come from\<close>

text \<open>A request that was answered with a challenge for a device, and one answered with a ticket.\<close>

definition challenge_given ::
    "('wa, 'user, 'sess, 'parsed, 'x) dm_env \<Rightarrow> ('wa, 'user, 'sess, 'x) daemon \<Rightarrow> dm_call \<Rightarrow> string \<Rightarrow> string \<Rightarrow> bool" where
  "challenge_given env d c did n \<longleftrightarrow>
     dr_body (fst (serve env d c)) = ChallengeReply (StdEncode n) \<and>
     (\<exists>body. req_json (dc_req c) = JsonObject body \<and> body ''device_id'' = did)"

definition ticket_given ::
    "('wa, 'user, 'sess, 'parsed, 'x) dm_env \<Rightarrow> ('wa, 'user, 'sess, 'x) daemon \<Rightarrow> dm_call \<Rightarrow> string \<Rightarrow> bool" where
  "ticket_given env d c tk \<longleftrightarrow> dr_body (fst (serve env d c)) = TicketReply tk"

lemma handleAuthChallenge_pending:
  assumes "pending (dm_auth (snd (handleAuthChallenge c r d))) k = Some pc"
  shows "pending (dm_auth d) k = Some pc \<or>
     (\<exists>body n. req_json r = JsonObject body \<and> body ''device_id'' = k \<and>
        dr_body (fst (handleAuthChallenge c r d)) = ChallengeReply (StdEncode n) \<and>
        pc = \<lparr>pc_nonce = n, pc_expiresAt = dc_now c + ChallengeTTL\<rparr>)"
proof (cases "\<exists>body. req_method r = MethodPost \<and> req_json r = JsonObject body \<and> body ''device_id'' \<noteq> []")
  case True
  then obtain body where b: "req_method r = MethodPost" "req_json r = JsonObject body" "body ''device_id'' \<noteq> []" by blast
  let ?i = "IssueChallenge (StoreDevice (dc_fault c) (dm_db d)) (dc_now c) (dc_rnd c) (dm_auth d) (body ''device_id'')"
  have auth: "dm_auth (snd (handleAuthChallenge c r d)) = snd ?i"
    using b by (simp add: handleAuthChallenge_def split: sum.split prod.split)
  with assms have "pending (snd ?i) k = Some pc" by simp
  from IssueChallenge_pending [OF this] show ?thesis
  proof
    assume "k = body ''device_id'' \<and> (\<exists>n pub. dc_rnd c = Some n \<and> StoreDevice (dc_fault c) (dm_db d) (body ''device_id'') = Some (pub, False) \<and>
        pc = \<lparr>pc_nonce = n, pc_expiresAt = dc_now c + ChallengeTTL\<rparr>)"
    then obtain n pub where n: "k = body ''device_id''" "dc_rnd c = Some n"
      "StoreDevice (dc_fault c) (dm_db d) (body ''device_id'') = Some (pub, False)"
      "pc = \<lparr>pc_nonce = n, pc_expiresAt = dc_now c + ChallengeTTL\<rparr>" by blast
    then have "fst ?i = Inr n" by (simp add: IssueChallenge_def Let_def)
    then have "dr_body (fst (handleAuthChallenge c r d)) = ChallengeReply (StdEncode n)"
      using b by (cases ?i) (simp add: handleAuthChallenge_def json_reply_def)
    with b n show ?thesis by blast
  qed simp
next
  case False
  then have "snd (handleAuthChallenge c r d) = d"
    by (auto simp: handleAuthChallenge_def split: json_body.splits)
  with assms show ?thesis by simp
qed

lemma serve_pending:
  assumes "pending (dm_auth (snd (serve env d c))) k = Some pc"
  shows "pending (dm_auth d) k = Some pc \<or>
     (\<exists>n. challenge_given env d c k n \<and> pc = \<lparr>pc_nonce = n, pc_expiresAt = dc_now c + ChallengeTTL\<rparr>)"
proof (cases rule: serve_cases [where env = env and d = d and c = c])
  case (routed p rt hs)
  let ?r = "routed_request c p"
  have p: "pending (dm_auth (snd (serve_route env c rt ?r d))) k = Some pc" using assms routed(3) by simp
  show ?thesis
  proof (cases "rt = Challenge")
    case True
    then have "pending (dm_auth (snd (handleAuthChallenge c ?r d))) k = Some pc" using p by (simp add: serve_route_def)
    from handleAuthChallenge_pending [OF this] routed(4) True routed_request_json [of c p]
    show ?thesis by (auto simp: challenge_given_def serve_route_def)
  next
    case False
    have wrap: "pending (dm_auth (snd (wrapSessionAuth env c (term_mux env c) ?r d))) k = Some pc \<Longrightarrow> pending (dm_auth d) k = Some pc"
      by (cases rule: wrapSessionAuth_cases [where env = env and c = c and nxt = "term_mux env c" and r = ?r and d = d])
        (auto dest: RequireDevice_keeps [rotated])
    have "pending (dm_auth d) k = Some pc"
      using p False wrap
      by (cases rt; cases "de_insecure env")
        (auto simp: serve_route_def case_prod_beta RequireStepUp_auth dest: RequireDevice_keeps [rotated])
    then show ?thesis by simp
  qed
qed (use assms in simp)

lemma handleAuthWSTicket_tickets:
  assumes "tickets (dm_tickets (snd (handleAuthWSTicket c r d))) k = Some t"
  shows "tickets (dm_tickets d) k = Some t \<or>
     (dr_body (fst (handleAuthWSTicket c r d)) = TicketReply k \<and> t = dc_now c + wsTicketTTL)"
proof (cases "req_method r = MethodPost")
  case True
  let ?i = "issueTicket (dc_now c) (dc_rnd c) (dm_tickets d)"
  have "dm_tickets (snd (handleAuthWSTicket c r d)) = snd ?i"
    using True by (simp add: handleAuthWSTicket_def split: option.split prod.split)
  with assms have "tickets (snd ?i) k = Some t" by simp
  from issueTicket_tickets [OF this] show ?thesis
    using True by (auto simp: handleAuthWSTicket_def json_reply_def split: option.split prod.split)
qed (use assms in \<open>simp add: handleAuthWSTicket_def\<close>)

lemma serve_tickets:
  assumes "tickets (dm_tickets (snd (serve env d c))) k = Some t"
  shows "tickets (dm_tickets d) k = Some t \<or>
     (\<exists>did. ticket_given env d c k \<and> header_ok env d c did \<and> t = dc_now c + wsTicketTTL)"
proof (cases rule: serve_cases [where env = env and d = d and c = c])
  case (routed p rt hs)
  let ?r = "routed_request c p"
  have p: "tickets (dm_tickets (snd (serve_route env c rt ?r d))) k = Some t" using assms routed(3) by simp
  have keep: "dm_tickets (snd (RequireDevice env c nxt ?r d)) = dm_tickets d"
    if "\<And>r d. dm_tickets (snd (nxt r d)) = dm_tickets d" for nxt
    using that by (cases rule: RequireDevice_cases [where env = env and c = c and nxt = nxt and r = ?r and d = d]) simp_all
  have step: "dm_tickets (snd (RequireStepUp c act (devices_mux c) r d)) = dm_tickets d" for act r d
    by (simp add: RequireStepUp_def split: option.split prod.split)
  show ?thesis
  proof (cases "rt = WSTicket")
    case True
    then have srv: "serve_route env c rt ?r d = RequireDevice env c (handleAuthWSTicket c) ?r d"
      by (simp add: serve_route_def)
    show ?thesis
    proof (cases rule: RequireDevice_cases [where env = env and c = c and nxt = "handleAuthWSTicket c" and r = ?r and d = d])
      case (passed a did sg)
      note ok = header_ok_request [OF passed(1,3,4)]
      have "tickets (dm_tickets d) k = Some t \<or>
          (dr_body (fst (serve_route env c rt ?r d)) = TicketReply k \<and> t = dc_now c + wsTicketTTL)"
        using handleAuthWSTicket_tickets [of c "?r\<lparr>req_device := Some did\<rparr>" "d\<lparr>dm_auth := a\<rparr>" k t] p srv passed(6)
        by simp
      with ok routed(4) show ?thesis by (auto simp: ticket_given_def)
    qed (use p srv in simp)
  next
    case False
    have wrap: "tickets (dm_tickets (snd (wrapSessionAuth env c (term_mux env c) ?r d))) k = Some t \<Longrightarrow> tickets (dm_tickets d) k = Some t"
      by (cases rule: wrapSessionAuth_cases [where env = env and c = c and nxt = "term_mux env c" and r = ?r and d = d])
        (auto simp: keep)
    have "tickets (dm_tickets d) k = Some t"
      using p False wrap
      by (cases rt; cases "de_insecure env") (auto simp: serve_route_def case_prod_beta keep step)
    then show ?thesis by simp
  qed
qed (use assms in simp)


text \<open>Over a whole run from a fresh daemon, with the requests that gave them.\<close>

definition fresh :: "('wa, 'user, 'sess, 'x) daemon \<Rightarrow> bool" where
  "fresh d \<longleftrightarrow> dm_auth d = NewDeviceAuthenticator \<and> dm_gate d = NewStepUpGate \<and> dm_tickets d = newWSTicketStore"

lemma serve_run_snoc: "serve_run env d (cs @ [c]) = snd (serve env (serve_run env d cs) c)"
  by (simp add: serve_step_def)

lemma run_pending:
  assumes "fresh d0" "pending (dm_auth (serve_run env d0 cs)) k = Some pc"
  shows "\<exists>cs1 cc cs2 n. cs = cs1 @ cc # cs2 \<and> challenge_given env (serve_run env d0 cs1) cc k n \<and>
     pc = \<lparr>pc_nonce = n, pc_expiresAt = dc_now cc + ChallengeTTL\<rparr>"
  using assms(2)
proof (induction cs rule: rev_induct)
  case Nil
  then show ?case using assms(1) by (simp add: fresh_def NewDeviceAuthenticator_def)
next
  case (snoc c cs)
  from serve_pending [OF snoc.prems [unfolded serve_run_snoc]] show ?case
  proof
    assume "pending (dm_auth (serve_run env d0 cs)) k = Some pc"
    with snoc.IH obtain cs1 cc cs2 n where "cs = cs1 @ cc # cs2" "challenge_given env (serve_run env d0 cs1) cc k n"
      "pc = \<lparr>pc_nonce = n, pc_expiresAt = dc_now cc + ChallengeTTL\<rparr>" by blast
    then show ?thesis by (intro exI [of _ cs1] exI [of _ cc] exI [of _ "cs2 @ [c]"] exI [of _ n]) simp
  qed blast
qed

lemma run_tickets:
  assumes "fresh d0" "tickets (dm_tickets (serve_run env d0 cs)) tk = Some t"
  shows "\<exists>cs1 ct cs2 did. cs = cs1 @ ct # cs2 \<and> ticket_given env (serve_run env d0 cs1) ct tk \<and>
     header_ok env (serve_run env d0 cs1) ct did \<and> t = dc_now ct + wsTicketTTL"
  using assms(2)
proof (induction cs rule: rev_induct)
  case Nil
  then show ?case using assms(1) by (simp add: fresh_def newWSTicketStore_def)
next
  case (snoc c cs)
  from serve_tickets [OF snoc.prems [unfolded serve_run_snoc]] show ?case
  proof
    assume "tickets (dm_tickets (serve_run env d0 cs)) tk = Some t"
    with snoc.IH obtain cs1 ct cs2 did where "cs = cs1 @ ct # cs2" "ticket_given env (serve_run env d0 cs1) ct tk"
      "header_ok env (serve_run env d0 cs1) ct did" "t = dc_now ct + wsTicketTTL" by blast
    then show ?thesis by (intro exI [of _ cs1] exI [of _ ct] exI [of _ "cs2 @ [c]"] exI [of _ did]) simp
  qed blast
qed


section \<open>What needs authentication\<close>

text \<open>The request shows or changes sessions, files, the tmux server or the list of devices.\<close>

definition privileged ::
    "('wa, 'user, 'sess, 'parsed, 'x) dm_env \<Rightarrow> ('wa, 'user, 'sess, 'x) daemon \<Rightarrow> dm_call \<Rightarrow> bool" where
  "privileged env d c \<longleftrightarrow>
     (let (resp, d') = serve env d c
      in (\<exists>b. dr_body resp = TermReply b) \<or> (\<exists>b. dr_body resp = FileReply b) \<or> (\<exists>tk. dr_body resp = TicketReply tk) \<or>
         (\<exists>l. dr_body resp = OwnerReply (DeviceList l)) \<or>
         devices (dm_db d') \<noteq> devices (dm_db d) \<or> sessions (dm_db d') \<noteq> sessions (dm_db d) \<or> dm_locks d' \<noteq> dm_locks d \<or> dm_tmux d' \<noteq> dm_tmux d \<or>
         dm_files d' \<noteq> dm_files d)"

text \<open>The state apart from the devices, and the bodies that count; the devices change by a completed pairing as well.\<close>

abbreviation guarded :: "('wa, 'user, 'sess, 'x) daemon \<Rightarrow> session_row list \<times> lock_fs \<times> 'x \<times> fsys" where
  "guarded d \<equiv> (sessions (dm_db d), dm_locks d, dm_tmux d, dm_files d)"

definition open_body :: "dm_body \<Rightarrow> bool" where
  "open_body b \<longleftrightarrow>
     (case b of TermReply _ \<Rightarrow> False | FileReply _ \<Rightarrow> False | TicketReply _ \<Rightarrow> False
      | OwnerReply (DeviceList _) \<Rightarrow> False | _ \<Rightarrow> True)"

lemma open_body_simps [simp]:
  "open_body (dr_body (writeAuthError st msg))" "open_body (dr_body (writeJSONError st msg))"
  "open_body EmptyReply" "open_body HealthReply" "open_body (StaticReply b)" "open_body (ChallengeReply n)"
  by (simp_all add: open_body_def writeAuthError_def writeJSONError_def json_reply_def)

abbreviation exposed ::
    "('wa, 'user, 'sess, 'parsed, 'x) dm_env \<Rightarrow> ('wa, 'user, 'sess, 'x) daemon \<Rightarrow> dm_call \<Rightarrow> bool" where
  "exposed env d c \<equiv> \<not> open_body (dr_body (fst (serve env d c))) \<or> guarded (snd (serve env d c)) \<noteq> guarded d"

lemma privileged_iff:
  "privileged env d c \<longleftrightarrow> exposed env d c \<or> devices (dm_db (snd (serve env d c))) \<noteq> devices (dm_db d)"
  by (auto simp: privileged_def open_body_def case_prod_beta split: dm_body.splits owner_body.splits)

lemma PairDevice_sessions: "StorePairDevice f now db did name platform pub = (r, db') \<Longrightarrow> sessions db' = sessions db"
  by (auto simp: StorePairDevice_def PairDevice_def Let_def split: if_splits)

lemma pairing_mux_open:
  "open_body (dr_body (fst (pairing_mux env c r d)))" "guarded (snd (pairing_mux env c r d)) = guarded d"
proof -
  let ?oc = "\<lparr>oc_now = dc_now c, oc_unix = dc_unix c, oc_rnd = dc_rnd c, oc_fault = dc_fault c, oc_req = r\<rparr>"
  obtain st b ow db where call: "RegisterPairing (de_id env) ?oc (dm_owner d) (dm_db d) = ((st, b), ow, db)"
    by (metis prod.collapse)
  have "b \<noteq> DeviceList l" for l
    using call
    by (auto simp: RegisterPairing_def handlePairStart_def handlePairPassword_def handlePairTOTP_def handlePairPasskey_def
        factorEndpoint_def satisfyFactor_def handlePairComplete_def Let_def
        split: if_splits json_body.splits option.splits sum.splits prod.splits auth_error.splits db_error.splits)
  moreover have "sessions db = sessions (dm_db d)"
  proof (cases "req_path r = ''/owner/pair/complete''")
    case True
    then have "req_path (oc_req ?oc) = ''/owner/pair/complete''" by simp
    from this call show ?thesis
      by (cases rule: complete_call_cases) (auto dest: PairDevice_sessions)
  next
    case False
    then show ?thesis using call by (auto simp: RegisterPairing_def Let_def split: if_splits prod.splits)
  qed
  ultimately show "open_body (dr_body (fst (pairing_mux env c r d)))" "guarded (snd (pairing_mux env c r d)) = guarded d"
    using call by (simp_all add: pairing_mux_def open_body_def json_reply_def split: owner_body.split)
qed

lemma RequireDevice_open:
  "(open_body (dr_body (fst (RequireDevice env c nxt (routed_request c p) d))) \<and>
    guarded (snd (RequireDevice env c nxt (routed_request c p) d)) = guarded d) \<or>
   (\<exists>did. header_ok env d c did)"
proof (cases rule: RequireDevice_cases [where env = env and c = c and nxt = nxt and r = "routed_request c p" and d = d])
  case (passed a did sg)
  from header_ok_request [OF passed(1,3,4)] show ?thesis by blast
qed simp

text \<open>A request that shows or changes any of these was authenticated by its headers or, for a stream, by its ticket.\<close>

lemma exposed_authenticated:
  assumes "exposed env d c" "\<not> de_insecure env"
  shows "(\<exists>did. header_ok env d c did) \<or>
     (ticket_ok d c \<and> (\<exists>p. PathUnescape (dc_escaped c) = Some p \<and> HasSuffix p ''/stream''))"
proof (cases rule: serve_cases [where env = env and d = d and c = c])
  case (unrouted resp)
  then show ?thesis using assms(1) by simp
next
  case (routed p rt hs)
  let ?r = "routed_request c p"
  have priv: "\<not> (open_body (dr_body (fst (serve_route env c rt ?r d))) \<and> guarded (snd (serve_route env c rt ?r d)) = guarded d)"
    using assms(1) routed(3,4) by simp
  have challenge: "open_body (dr_body (fst (handleAuthChallenge c ?r d))) \<and> guarded (snd (handleAuthChallenge c ?r d)) = guarded d"
    by (simp add: handleAuthChallenge_def json_reply_def split: json_body.split sum.split prod.split)
  have sessions: "?thesis" if "rt = Sessions"
  proof (cases rule: wrapSessionAuth_cases [where env = env and c = c and nxt = "term_mux env c" and r = ?r and d = d])
    case refused
    then show ?thesis using priv that assms(2) by (simp add: serve_route_def)
  next
    case ticket
    then show ?thesis using routed(1) by (simp add: ticket_ok_def)
  next
    case header
    then show ?thesis using priv that assms(2) RequireDevice_open [of env c "term_mux env c" p d]
      by (auto simp: serve_route_def)
  qed
  show ?thesis
  proof (cases rt)
    case Files
    with priv assms(2) RequireDevice_open [of env c "files_mux env c" p d] show ?thesis by (auto simp: serve_route_def)
  next
    case Devices
    with priv RequireDevice_open [of env c "devices_mux c" p d] show ?thesis by (auto simp: serve_route_def)
  next
    case DevicesRevoke
    with priv RequireDevice_open [of env c "RequireStepUp c ActionRevokeDevice (devices_mux c)" p d]
    show ?thesis by (auto simp: serve_route_def)
  next
    case WSTicket
    with priv RequireDevice_open [of env c "handleAuthWSTicket c" p d] show ?thesis by (auto simp: serve_route_def)
  qed (use priv challenge sessions in \<open>simp_all add: serve_route_def pairing_mux_open case_prod_beta json_reply_def\<close>)
qed


section \<open>The daemon's authentication\<close>

text \<open>
  What authenticates a request: an earlier request was answered with a challenge for the device, at
  most two minutes ago, the device is paired and not revoked, and the request's signature is valid
  for that challenge under the stored key.
\<close>

definition device_proof ::
    "('wa, 'user, 'sess, 'parsed, 'x) dm_env \<Rightarrow> ('wa, 'user, 'sess, 'x) daemon \<Rightarrow> dm_call list \<Rightarrow> dm_call \<Rightarrow> string \<Rightarrow> bool" where
  "device_proof env d0 cs c did \<longleftrightarrow>
     did = req_header (dc_req c) ''X-Device-Id'' \<and>
     (\<exists>cs1 cc cs2 n sg pub. cs = cs1 @ cc # cs2 \<and> challenge_given env (serve_run env d0 cs1) cc did n \<and>
        dc_now c \<le> dc_now cc + ChallengeTTL \<and>
        StdDecode (req_header (dc_req c) ''X-Device-Signature'') = Some sg \<and>
        StoreDevice (dc_auth_fault c) (dm_db (serve_run env d0 cs)) did = Some (pub, False) \<and>
        de_ed env pub n sg)"

lemma header_ok_proof:
  assumes "fresh d0" "header_ok env (serve_run env d0 cs) c did"
  shows "device_proof env d0 cs c did"
proof -
  obtain sg pc pub where did: "did = req_header (dc_req c) ''X-Device-Id''"
    and sg: "StdDecode (req_header (dc_req c) ''X-Device-Signature'') = Some sg"
    and ok: "pending (dm_auth (serve_run env d0 cs)) did = Some pc" "dc_now c \<le> pc_expiresAt pc"
      "StoreDevice (dc_auth_fault c) (dm_db (serve_run env d0 cs)) did = Some (pub, False)"
      "de_ed env pub (pc_nonce pc) sg"
    using assms(2) by (auto simp: header_ok_def DeviceVerify_success_iff)
  obtain cs1 cc cs2 n where "cs = cs1 @ cc # cs2" "challenge_given env (serve_run env d0 cs1) cc did n"
    "pc = \<lparr>pc_nonce = n, pc_expiresAt = dc_now cc + ChallengeTTL\<rparr>"
    using run_pending [OF assms(1) ok(1)] by blast
  with did sg ok show ?thesis
    unfolding device_proof_def
    by (intro conjI exI [of _ cs1] exI [of _ cc] exI [of _ cs2] exI [of _ n] exI [of _ sg] exI [of _ pub]) simp_all
qed

lemma access_run:
  assumes "fresh d0" "\<not> de_insecure env" "exposed env (serve_run env d0 cs) c"
  shows "(\<exists>did. device_proof env d0 cs c did) \<or>
     (\<exists>p cs1 ct cs2 did. PathUnescape (dc_escaped c) = Some p \<and> HasSuffix p ''/stream'' \<and> cs = cs1 @ ct # cs2 \<and>
        ticket_given env (serve_run env d0 cs1) ct (req_query (dc_req c) ''ticket'') \<and>
        dc_now c < dc_now ct + wsTicketTTL \<and> device_proof env d0 cs1 ct did)"
  using exposed_authenticated [OF assms(3,2)]
proof
  assume "\<exists>did. header_ok env (serve_run env d0 cs) c did"
  with header_ok_proof [OF assms(1)] show ?thesis by blast
next
  assume "ticket_ok (serve_run env d0 cs) c \<and> (\<exists>p. PathUnescape (dc_escaped c) = Some p \<and> HasSuffix p ''/stream'')"
  then obtain p t where p: "PathUnescape (dc_escaped c) = Some p" "HasSuffix p ''/stream''"
    and t: "tickets (dm_tickets (serve_run env d0 cs)) (req_query (dc_req c) ''ticket'') = Some t" "dc_now c < t"
    by (auto simp: ticket_ok_def consumeTicket_iff)
  obtain cs1 ct cs2 did where ct: "cs = cs1 @ ct # cs2"
    "ticket_given env (serve_run env d0 cs1) ct (req_query (dc_req c) ''ticket'')"
    "header_ok env (serve_run env d0 cs1) ct did" "t = dc_now ct + wsTicketTTL"
    using run_tickets [OF assms(1) t(1)] by blast
  have "device_proof env d0 cs1 ct did" by (rule header_ok_proof [OF assms(1) ct(3)])
  with p t(2) ct show ?thesis by blast
qed

end
