(* ===== verification/Daemon_Access.thy ===== *)
theory Daemon_Access
  imports Router_Access
begin

text \<open>
  The installation as a whole: who reaches its sessions and files, what a ticket alone is good for, and
  what a daemon whose passkey session is never bound can do.
\<close>


section \<open>Startup\<close>

definition loopback_address :: "string \<Rightarrow> bool" where
  "loopback_address addr \<longleftrightarrow>
     (\<exists>host port. SplitHostPort addr = Some (host, port) \<and>
        (TrimSpace host = ''localhost'' \<or> (\<exists>ip. ParseIP (TrimSpace host) = Some ip \<and> IsLoopback ip)))"

lemma checkLoopbackOnly_ok: "checkLoopbackOnly addr = None \<Longrightarrow> loopback_address addr"
  by (auto simp: checkLoopbackOnly_def loopback_address_def Let_def split: option.splits prod.splits if_splits)

lemma newRouter_simps [simp]:
  "fresh (newRouter ident cfg db locks x fs)" "dm_db (newRouter ident cfg db locks x fs) = db"
  by (simp_all add: newRouter_def fresh_def Let_def)

lemma startDaemon_result:
  assumes "startDaemon lib fl host = Inr (env, d0)"
  obtains cfg db locks x fs where "d0 = newRouter (de_id env) cfg db locks x fs" "ho_db host (fl_db fl) = Some db"
    "locks = ho_locks host" "de_insecure env = fl_insecure_no_auth fl"
    "fl_insecure_no_auth fl \<Longrightarrow> loopback_address (fl_addr fl)"
    "checkBindAddress (fl_addr fl) = None"
proof -
  have flags: "checkFlags fl = None"
    using assms by (auto simp: startDaemon_def split: option.splits)
  then have addr: "checkBindAddress (fl_addr fl) = None" "fl_insecure_no_auth fl \<Longrightarrow> loopback_address (fl_addr fl)"
    by (auto simp: checkFlags_def checkLoopbackOnly_ok split: option.splits if_splits)
  obtain fs1 db where start: "os_mkdir_all (ho_fs host) (Dir (fl_db fl)) = (None, fs1)" "ho_db host (fl_db fl) = Some db"
    using assms flags by (auto simp: startDaemon_def split: option.splits prod.splits)
  obtain m where m: "New (ho_lock_fault host) (fl_lock_dir fl) = Inr m"
    using assms flags start by (auto simp: startDaemon_def split: sum.splits)
  show ?thesis
    using assms flags start m that addr
    by (auto simp: startDaemon_def Let_def NewManager_def split: sum.splits prod.splits)
qed


section \<open>The terminal routes do not touch the devices\<close>

lemma stream_loop_devices [simp]: "devices (snd (stream_loop sid ms db)) = devices db"
  by (induction sid ms db rule: stream_loop.induct)
    (auto simp: stream_message_def Let_def case_prod_beta)

lemma Manager_devices [simp]:
  "devices (ts_db (snd (ManagerCreate env c s name cwd shell))) = devices (ts_db s)"
  "devices (ts_db (snd (ManagerRename c s sid name))) = devices (ts_db s)"
  "devices (ts_db (snd (ManagerClose env c s sid))) = devices (ts_db s)"
proof -
  have create: "CreateSession f now db s = (r, db') \<Longrightarrow> devices db' = devices db" for f now db s r db'
    using devices_unchanged(1) [of f now db s] by simp
  have close: "CloseSession f now db sid = (r, db') \<Longrightarrow> devices db' = devices db" for f now db sid r db'
    using devices_unchanged(3) [of f now db sid] by simp
  show "devices (ts_db (snd (ManagerCreate env c s name cwd shell))) = devices (ts_db s)"
    by (auto simp: ManagerCreate_def Let_def dest!: create split: option.split bool.split sum.split prod.split)
  show "devices (ts_db (snd (ManagerRename c s sid name))) = devices (ts_db s)"
    by (simp add: ManagerRename_def case_prod_beta)
  show "devices (ts_db (snd (ManagerClose env c s sid))) = devices (ts_db s)"
    by (auto simp: ManagerClose_def Let_def dest!: close split: sum.split prod.split)
qed

lemma handleStream_devices [simp]:
  "devices (ts_db (snd (handleStream env c w s r sid))) = devices (ts_db s)"
proof -
  obtain ops db1 where loop: "stream_loop sid (wc_messages w) (ts_db s) = (ops, db1)" by fastforce
  then have "devices db1 = devices (ts_db s)" using stream_loop_devices [of sid "wc_messages w" "ts_db s"] by simp
  then show ?thesis by (simp add: handleStream_def loop Let_def split: sum.split option.split prod.split)
qed

lemma Routes_devices [simp]: "devices (ts_db (snd (Routes env c w s r))) = devices (ts_db s)"
proof -
  have create: "ManagerCreate env c s name cwd shell = (x, s') \<Longrightarrow> devices (ts_db s') = devices (ts_db s)" for name cwd shell x s'
    using Manager_devices(1) [of env c s name cwd shell] by simp
  have close: "ManagerClose env c s sid = (x, s') \<Longrightarrow> devices (ts_db s') = devices (ts_db s)" for sid x s'
    using Manager_devices(3) [of env c s sid] by simp
  have rename: "ManagerRename c s sid name = (x, s') \<Longrightarrow> devices (ts_db s') = devices (ts_db s)" for sid name x s'
    using Manager_devices(2) [of c s sid name] by simp
  have "devices (ts_db (snd (handleSessions env c s r))) = devices (ts_db s)"
    by (auto simp: handleSessions_def Let_def dest!: create split: sum.split json_body.split prod.split)
  moreover have "devices (ts_db (snd (handleSession env c w s r))) = devices (ts_db s)"
    by (auto simp: handleSession_def Let_def dest!: close rename
        split: option.split prod.split term_error.split db_error.split json_body.split sum.split)
  ultimately show ?thesis by (simp add: Routes_def)
qed


section \<open>Step-up grants and pairings that never happen\<close>

text \<open>No route issues a step-up grant, so the routes behind the gate answer 401.\<close>

lemma RequireDevice_gate:
  assumes "\<And>r d. grants (dm_gate d) = Map.empty \<Longrightarrow> grants (dm_gate (snd (nxt r d))) = Map.empty"
    and "grants (dm_gate d) = Map.empty"
  shows "grants (dm_gate (snd (RequireDevice env c nxt r d))) = Map.empty"
  by (cases rule: RequireDevice_cases [where env = env and c = c and nxt = nxt and r = r and d = d])
    (use assms in simp_all)

lemma RequireStepUp_empty:
  assumes "grants (dm_gate d) = Map.empty"
  shows "\<exists>msg. RequireStepUp c ActionRevokeDevice nxt r d = (writeAuthError StatusUnauthorized msg, d)"
proof -
  have "RequiresStepUp ActionRevokeDevice" by (simp add: RequiresStepUp_def stepUpRegistry_def)
  moreover have "ConsumeGrant (dc_now c) (dm_gate d) did ActionRevokeDevice = (Some ErrStepUpRequired, dm_gate d)" for did
    using assms by (simp add: ConsumeGrant_def)
  ultimately show ?thesis by (cases "DeviceIDFromContext r") (auto simp: RequireStepUp_def)
qed

lemma serve_gate:
  assumes "grants (dm_gate d) = Map.empty"
  shows "grants (dm_gate (snd (serve env d c))) = Map.empty"
proof (cases rule: serve_cases [where env = env and d = d and c = c])
  case (routed p rt hs)
  let ?r = "routed_request c p"
  have step: "grants (dm_gate (snd (RequireStepUp c ActionRevokeDevice (devices_mux c) r d'))) = Map.empty"
    if "grants (dm_gate d') = Map.empty" for r d'
    using RequireStepUp_empty [OF that, of c "devices_mux c" r] that by auto
  have revoke: "grants (dm_gate (snd (RequireDevice env c (RequireStepUp c ActionRevokeDevice (devices_mux c)) ?r d))) = Map.empty"
    by (rule RequireDevice_gate [OF step assms])
  have "grants (dm_gate (snd (wrapSessionAuth env c (term_mux env c) ?r d))) = Map.empty"
    by (cases rule: wrapSessionAuth_cases [where env = env and c = c and nxt = "term_mux env c" and r = ?r and d = d])
      (use assms in \<open>simp_all add: RequireDevice_gate\<close>)
  then show ?thesis
    using assms routed(3) revoke
    by (cases rt) (simp_all add: serve_route_def RequireDevice_gate case_prod_beta)
qed (use assms in simp)

text \<open>What one request does to the devices table.\<close>

lemma devices_path:
  assumes "findHandler root_table m (dc_escaped c) = Handler Devices" "PathUnescape (dc_escaped c) = Some p"
  shows "p = ''/owner/devices''"
proof -
  have pat: "pattern_matches ''/owner/devices'' (path_segments (dc_escaped c))"
    using findHandler_Handler(1) [OF assms(1)] by (auto simp: root_table_def)
  from pattern_matches_path [OF pat assms(2) findHandler_Handler(3,2) [OF assms(1)]] show ?thesis by simp
qed

lemma devices_route:
  assumes "findHandler root_table m (dc_escaped c) = Handler Devices" "PathUnescape (dc_escaped c) = Some p"
  shows "dm_db (snd (RequireDevice env c (devices_mux c) (routed_request c p) d)) = dm_db d"
  by (cases rule: RequireDevice_cases [where env = env and c = c and nxt = "devices_mux c" and r = "routed_request c p" and d = d])
    (simp_all add: devices_mux_def RegisterDeviceManagement_def devices_path [OF assms] case_prod_beta)

lemma term_mux_devices: "devices (dm_db (snd (term_mux env c r d))) = devices (dm_db d)"
proof -
  let ?s = "\<lparr>ts_db = dm_db d, ts_locks = dm_locks d, ts_tmux = dm_tmux d\<rparr>"
  have "devices (ts_db (snd (Routes (de_term env) (dc_term c) (dc_ws c) ?s r))) = devices (dm_db d)" by simp
  then show ?thesis unfolding term_mux_def Let_def case_prod_beta by simp
qed

lemma wrapped_devices:
  "devices (dm_db (snd (wrapSessionAuth env c (term_mux env c) r d))) = devices (dm_db d)"
proof -
  have "devices (dm_db (snd (RequireDevice env c (term_mux env c) r d))) = devices (dm_db d)"
    by (cases rule: RequireDevice_cases [where env = env and c = c and nxt = "term_mux env c" and r = r and d = d])
      (simp_all add: term_mux_devices)
  then show ?thesis
    by (cases rule: wrapSessionAuth_cases [where env = env and c = c and nxt = "term_mux env c" and r = r and d = d])
      (simp_all add: term_mux_devices)
qed

text \<open>
  A request either leaves the devices and the pairing state alone, or it is one call of the pairing
  routes.
\<close>

definition pairing_call :: "dm_call \<Rightarrow> string \<Rightarrow> owner_call" where
  "pairing_call c p = \<lparr>oc_now = dc_now c, oc_unix = dc_unix c, oc_rnd = dc_rnd c, oc_fault = dc_fault c,
     oc_req = routed_request c p\<rparr>"

lemma serve_devices:
  assumes "grants (dm_gate d) = Map.empty"
  obtains (same) "devices (dm_db (snd (serve env d c))) = devices (dm_db d)" "dm_owner (snd (serve env d c)) = dm_owner d"
  | (pairing) p resp where
      "RegisterPairing (de_id env) (pairing_call c p) (dm_owner d) (dm_db d) =
         (resp, dm_owner (snd (serve env d c)), dm_db (snd (serve env d c)))"
proof (cases rule: serve_cases [where env = env and d = d and c = c])
  case unrouted
  then show ?thesis by (intro same) simp_all
next
  case (routed p rt hs)
  let ?r = "routed_request c p"
  show ?thesis
  proof (cases "rt = Pairing")
    case True
    obtain resp ow db where call: "RegisterPairing (de_id env) (pairing_call c p) (dm_owner d) (dm_db d) = (resp, ow, db)"
      by (metis prod.collapse)
    then have "snd (serve env d c) = d\<lparr>dm_owner := ow, dm_db := db\<rparr>"
      using routed(3) True by (simp add: serve_route_def pairing_mux_def pairing_call_def case_prod_beta)
    with call show ?thesis by (intro pairing) simp
  next
    case False
    have keep: "dm_owner (snd (RequireDevice env c nxt ?r d)) = dm_owner d"
      if "\<And>r d. dm_owner (snd (nxt r d)) = dm_owner d" for nxt
      using that by (cases rule: RequireDevice_cases [where env = env and c = c and nxt = nxt and r = ?r and d = d]) simp_all
    have db: "dm_db (snd (RequireDevice env c nxt ?r d)) = dm_db d"
      if "\<And>r d'. dm_gate d' = dm_gate d \<Longrightarrow> dm_db (snd (nxt r d')) = dm_db d'" for nxt
      using that by (cases rule: RequireDevice_cases [where env = env and c = c and nxt = nxt and r = ?r and d = d]) simp_all
    have gate: "snd (RequireStepUp c ActionRevokeDevice nxt r d') = d'" if "grants (dm_gate d') = Map.empty" for nxt r d'
      using RequireStepUp_empty [OF that, of c nxt r] by auto
    have "dm_owner (snd (RequireStepUp c ActionRevokeDevice (devices_mux c) r d')) = dm_owner d'" for r d'
      by (simp add: RequireStepUp_def split: option.split prod.split)
    then have revoke: "dm_owner (snd (RequireDevice env c (RequireStepUp c ActionRevokeDevice (devices_mux c)) ?r d)) = dm_owner d"
      by (rule keep)
    have "dm_db (snd (RequireStepUp c ActionRevokeDevice (devices_mux c) r d')) = dm_db d'"
      if "dm_gate d' = dm_gate d" for r d'
      using gate [of d' "devices_mux c" r] that assms by simp
    then have revoke_db: "dm_db (snd (RequireDevice env c (RequireStepUp c ActionRevokeDevice (devices_mux c)) ?r d)) = dm_db d"
      by (rule db)
    have wrap: "dm_owner (snd (wrapSessionAuth env c (term_mux env c) ?r d)) = dm_owner d"
      by (cases rule: wrapSessionAuth_cases [where env = env and c = c and nxt = "term_mux env c" and r = ?r and d = d])
        (simp_all add: keep)
    have challenge: "dm_owner (snd (handleAuthChallenge c ?r d)) = dm_owner d" by simp
    have "devices (dm_db (snd (serve_route env c rt ?r d))) = devices (dm_db d)"
      using False revoke_db routed(1,2) db
      by (cases rt) (simp_all add: serve_route_def wrapped_devices term_mux_devices devices_route case_prod_beta)
    moreover have "dm_owner (snd (serve_route env c rt ?r d)) = dm_owner d"
      using False revoke wrap keep by (cases rt) (simp_all add: serve_route_def case_prod_beta)
    ultimately show ?thesis using routed(3) by (intro same) simp_all
  qed
qed

text \<open>
  The list of devices changes only by a request with valid device headers or by the completion of a pairing whose
  attempt has every factor.
\<close>

lemma devices_change_authorised:
  assumes "devices (dm_db (snd (serve env d c))) \<noteq> devices (dm_db d)"
  shows "(\<exists>did. header_ok env d c did) \<or>
     (\<exists>p rec did. o_attempts (dm_owner d) (call_body (pairing_call c p) ''pairing_id'') = Some rec \<and>
        (\<forall>f \<in> set RequiredFactors. is_satisfied (pr_attempt rec) f) \<and>
        dr_body (fst (serve env d c)) = OwnerReply (PairedDevice did))"
proof (cases rule: serve_cases [where env = env and d = d and c = c])
  case unrouted
  with assms show ?thesis by simp
next
  case (routed p rt hs)
  let ?r = "routed_request c p"
  have change: "devices (dm_db (snd (serve_route env c rt ?r d))) \<noteq> devices (dm_db d)" using assms routed(3) by simp
  have closed: "dm_db (snd (RequireDevice env c nxt ?r d)) = dm_db d \<or> (\<exists>did. header_ok env d c did)" for nxt
  proof (cases rule: RequireDevice_cases [where env = env and c = c and nxt = nxt and r = ?r and d = d])
    case (passed a did sg)
    from header_ok_request [OF passed(1,3,4)] show ?thesis by blast
  qed simp
  show ?thesis
  proof (cases "rt = Pairing")
    case True
    obtain st b ow db where call: "RegisterPairing (de_id env) (pairing_call c p) (dm_owner d) (dm_db d) = ((st, b), ow, db)"
      by (metis prod.collapse)
    have serve: "dr_body (fst (serve env d c)) = OwnerReply b" and db: "devices db \<noteq> devices (dm_db d)"
      using call routed(4) change True
      by (simp_all add: serve_route_def pairing_mux_def pairing_call_def json_reply_def case_prod_beta)
    show ?thesis
    proof (cases "req_path (oc_req (pairing_call c p)) = ''/owner/pair/complete''")
      case complete: True
      from complete call show ?thesis
      proof (cases rule: complete_call_cases)
        case (completed rec)
        from completed(7) obtain did where "b = PairedDevice did" using db by auto
        with serve completed(1,2) show ?thesis by blast
      qed (use db in simp_all)
    next
      case False
      with call db show ?thesis by (auto simp: RegisterPairing_def Let_def split: if_splits prod.splits)
    qed
  next
    case False
    have "devices (dm_db (snd (serve_route env c rt ?r d))) = devices (dm_db d) \<or> (\<exists>did. header_ok env d c did)"
    proof (cases rt)
      case DevicesRevoke
      with closed [of "RequireStepUp c ActionRevokeDevice (devices_mux c)"] show ?thesis by (auto simp: serve_route_def)
    next
      case Devices
      with routed(1,2) show ?thesis by (simp add: serve_route_def devices_route)
    next
      case Files
      with closed [of "files_mux env c"] show ?thesis by (auto simp: serve_route_def)
    next
      case WSTicket
      with closed [of "handleAuthWSTicket c"] show ?thesis by (auto simp: serve_route_def)
    qed (use False in \<open>simp_all add: serve_route_def wrapped_devices term_mux_devices case_prod_beta\<close>)
    with change show ?thesis by blast
  qed
qed

text \<open>Without a bound session no attempt ever has its passkey, so the pairing routes store nothing.\<close>

definition never_bound :: "OwnerConfig \<Rightarrow> ('wa, 'user, 'sess) Owner \<Rightarrow> bool" where
  "never_bound cfg ow \<longleftrightarrow>
     owner_ok cfg ow \<and> wv_session (h_passkey (o_heap ow)) = None \<and>
     (\<forall>pid rec. o_attempts ow pid = Some rec \<longrightarrow> \<not> is_satisfied (pr_attempt rec) FactorPasskey)"

lemma never_bound_call:
  assumes "never_bound cfg ow" "RegisterPairing env c ow db = (resp, ow', db')"
  shows "never_bound cfg ow' \<and> db' = db"
proof -
  obtain st b where resp: "resp = (st, b)" by fastforce
  have ok: "owner_ok cfg ow" and unbound: "wv_session (h_passkey (o_heap ow)) = None"
    and no: "\<And>pid rec. o_attempts ow pid = Some rec \<Longrightarrow> \<not> is_satisfied (pr_attempt rec) FactorPasskey"
    using assms(1) by (auto simp: never_bound_def)
  note call = assms(2) [unfolded resp]
  have unproved: "\<not> proves env cfg ow c FactorPasskey"
    using unbound_rejects [OF unbound, of "env_wa env" "evidence c"] required_distinct(2,3) [symmetric]
    by (simp add: proves_def)
  have "\<not> is_satisfied (pr_attempt rec) FactorPasskey" if "o_attempts ow' pid = Some rec" for pid rec
    using satisfied_after_call [OF ok call that] no unproved by blast
  moreover have "owner_ok cfg ow'" by (rule RegisterPairing_ok [OF call ok])
  moreover have "wv_session (h_passkey (o_heap ow')) = None" using passkey_after_call [OF call] unbound by simp
  moreover have "db' = db"
  proof (cases "req_path (oc_req c) = ''/owner/pair/complete''")
    case True
    from True call show ?thesis
    proof (cases rule: complete_call_cases)
      case (completed rec)
      then have "is_satisfied (pr_attempt rec) FactorPasskey" by (simp add: RequiredFactors_def)
      with no completed(1) show ?thesis by blast
    qed simp_all
  next
    case False
    then show ?thesis using call by (auto simp: RegisterPairing_def Let_def split: if_splits prod.splits)
  qed
  ultimately show ?thesis by (simp add: never_bound_def)
qed

lemma run_never_bound:
  assumes "fresh d0" "never_bound cfg (dm_owner d0)"
  shows "never_bound cfg (dm_owner (serve_run env d0 cs)) \<and> grants (dm_gate (serve_run env d0 cs)) = Map.empty \<and>
     devices (dm_db (serve_run env d0 cs)) = devices (dm_db d0)"
proof (rule run_steps_invariant [of "\<lambda>d. never_bound cfg (dm_owner d) \<and> grants (dm_gate d) = Map.empty \<and>
    devices (dm_db d) = devices (dm_db d0)"], goal_cases)
  case 1
  then show ?case using assms by (simp add: fresh_def NewStepUpGate_def)
next
  case (2 d c)
  then have gate: "grants (dm_gate d) = Map.empty" by simp
  have "never_bound cfg (dm_owner (snd (serve env d c))) \<and> devices (dm_db (snd (serve env d c))) = devices (dm_db d0)"
    using gate
  proof (cases rule: serve_devices [where env = env and c = c])
    case same
    with 2 show ?thesis by simp
  next
    case (pairing p resp)
    from never_bound_call [OF _ pairing] 2 show ?thesis by auto
  qed
  with serve_gate [OF gate, of env c] show ?case by (simp add: serve_step_def)
qed

lemma newRouter_never_bound: "\<exists>cfg'. never_bound cfg' (dm_owner (newRouter ident cfg db locks x fs))"
proof -
  have "never_bound c (NewOwner ident c NewRateLimiter)" for c
    using NewOwner_ok [of c ident NewRateLimiter]
    by (simp add: never_bound_def NewOwner_def)
  then show ?thesis by (auto simp: newRouter_def Let_def)
qed

end
