(* ===== verification/Daemon.thy ===== *)
theory Daemon
  imports Daemon_Access
begin

text \<open>
  The properties of the whole daemon, from its start on, and a small installation on which their
  witnesses run.
\<close>


section \<open>What a ticket alone is good for\<close>

lemma open_in_sessions: "sessions db = sessions db' \<Longrightarrow> open_in db k = open_in db' k \<and> session_ids db = session_ids db'"
  by (simp add: open_in_def session_ids_def session_at_def)

text \<open>Behind a ticket the terminal routes see a path with the suffix of a stream only.\<close>

lemma ticket_route_frame:
  assumes "HasSuffix (req_path r) ''/stream''" "''stream'' \<notin> set (session_ids (ts_db s))"
  shows "ts_locks (snd (Routes env c w s r)) = ts_locks s \<and>
     (\<forall>k. open_in (ts_db (snd (Routes env c w s r))) k = open_in (ts_db s) k) \<and>
     session_ids (ts_db (snd (Routes env c w s r))) = session_ids (ts_db s)"
proof (cases rule: Routes_cases [where env = env and c = c and w = w and s = s and r = r])
  case create
  then show ?thesis using assms(1) by (simp add: HasSuffix_def suffix_def)
next
  case (close sid)
  have "sid = ''stream''" using stream_suffix_split [OF assms(1) close(2)] by simp
  then have "find (\<lambda>r. sr_id r = sid) (sessions (ts_db s)) = None"
    using assms(2) by (auto simp: find_None_iff session_ids_def image_iff)
  then have "\<exists>e. GetSession (tc_read_fault c) (ts_db s) sid = Inl e" by (simp add: GetSession_def)
  then show ?thesis using close(1) by (auto simp: ManagerClose_def)
qed simp

lemma ticket_request_frame:
  assumes "\<not> de_insecure env" "\<forall>did. \<not> header_ok env d c did" "''stream'' \<notin> set (session_ids (dm_db d))"
  shows "dm_locks (snd (serve env d c)) = dm_locks d \<and> dm_files (snd (serve env d c)) = dm_files d \<and>
     (\<forall>k. open_in (dm_db (snd (serve env d c))) k = open_in (dm_db d) k) \<and>
     session_ids (dm_db (snd (serve env d c))) = session_ids (dm_db d)"
proof (cases "exposed env d c")
  case False
  then have "guarded (snd (serve env d c)) = guarded d" by simp
  then show ?thesis using open_in_sessions [of "dm_db (snd (serve env d c))" "dm_db d"] by simp
next
  case priv: True
  show ?thesis
  proof (cases rule: serve_cases [where env = env and d = d and c = c])
    case (routed p rt hs)
    let ?r = "routed_request c p"
    have not_priv: "\<not> (open_body (dr_body (fst (serve_route env c rt ?r d))) \<and> guarded (snd (serve_route env c rt ?r d)) = guarded d)"
      using priv routed(3,4) by simp
    have closed: "open_body (dr_body (fst (RequireDevice env c nxt ?r d))) \<and> guarded (snd (RequireDevice env c nxt ?r d)) = guarded d" for nxt
      using RequireDevice_open [of env c nxt p d] assms(2) by blast
    have challenge: "open_body (dr_body (fst (handleAuthChallenge c ?r d))) \<and> guarded (snd (handleAuthChallenge c ?r d)) = guarded d"
      by (simp add: handleAuthChallenge_def json_reply_def split: json_body.split sum.split prod.split)
    have rt: "rt = Sessions"
      using not_priv closed challenge assms(1)
      by (cases rt) (simp_all add: serve_route_def pairing_mux_open case_prod_beta json_reply_def)
    then have route: "serve_route env c rt ?r d = wrapSessionAuth env c (term_mux env c) ?r d"
      using assms(1) by (simp add: serve_route_def)
    show ?thesis
    proof (cases rule: wrapSessionAuth_cases [where env = env and c = c and nxt = "term_mux env c" and r = ?r and d = d])
      case (ticket ts)
      let ?s = "\<lparr>ts_db = dm_db d, ts_locks = dm_locks d, ts_tmux = dm_tmux d\<rparr>"
      have "HasSuffix (req_path ?r) ''/stream''" by (rule ticket(1))
      from ticket_route_frame [OF this, of ?s] assms(3) show ?thesis
        using routed(3) route ticket(4) by (simp add: term_mux_def case_prod_beta)
    next
      case header
      with not_priv route closed show ?thesis by simp
    qed (use not_priv route in simp)
  qed simp
qed


section \<open>Revocation\<close>

lemma device_snoc_revoked:
  "devices db' = devices db @ [row] \<Longrightarrow> dr_revoked row = Some 0 \<Longrightarrow> revoked_in db' did \<Longrightarrow> revoked_in db did"
  by (auto simp: revoked_in_def device_at_def find_snoc split: option.splits if_splits)

lemma RegisterPairing_revoked:
  assumes "RegisterPairing env c ow db = (resp, ow', db')" "revoked_in db' did"
  shows "revoked_in db did"
proof -
  obtain st b where resp: "resp = (st, b)" by fastforce
  have "db' = db \<or> (\<exists>row. devices db' = devices db @ [row] \<and> dr_revoked row = Some 0)"
  proof (cases "req_path (oc_req c) = ''/owner/pair/complete''")
    case True
    from True assms(1) [unfolded resp] show ?thesis
      by (cases rule: complete_call_cases) (auto simp: StorePairDevice_def PairDevice_def Let_def split: if_splits)
  next
    case False
    then show ?thesis using assms(1) by (auto simp: RegisterPairing_def Let_def split: if_splits prod.splits)
  qed
  then show ?thesis using assms(2) device_snoc_revoked by blast
qed

lemma run_revoked:
  assumes "fresh d0"
  shows "grants (dm_gate (serve_run env d0 cs)) = Map.empty \<and>
     (\<forall>did. revoked_in (dm_db (serve_run env d0 cs)) did \<longrightarrow> revoked_in (dm_db d0) did)"
proof (rule run_steps_invariant [of "\<lambda>d. grants (dm_gate d) = Map.empty \<and>
    (\<forall>did. revoked_in (dm_db d) did \<longrightarrow> revoked_in (dm_db d0) did)"], goal_cases)
  case 1
  then show ?case using assms by (simp add: fresh_def NewStepUpGate_def)
next
  case (2 d c)
  then have gate: "grants (dm_gate d) = Map.empty" by simp
  have "\<forall>did. revoked_in (dm_db (snd (serve env d c))) did \<longrightarrow> revoked_in (dm_db d) did"
    using gate
  proof (cases rule: serve_devices [where env = env and c = c])
    case same
    then show ?thesis by (simp add: revoked_in_def device_at_def)
  next
    case (pairing p resp)
    then show ?thesis using RegisterPairing_revoked by blast
  qed
  with 2 serve_gate [OF gate, of env c] show ?case by (auto simp: serve_step_def)
qed

lemma revoke_route: "findHandler root_table m ''/owner/devices/revoke'' = Handler DevicesRevoke"
proof -
  have "cleanPath ''/owner/devices/revoke'' = ''/owner/devices/revoke''" by code_simp
  moreover have "mux_find root_table (path_segments ''/owner/devices/revoke'') = Some (''/owner/devices/revoke'', DevicesRevoke)"
    by code_simp
  ultimately show ?thesis by (simp add: findHandler_def)
qed

lemma revoke_refused:
  fixes d :: "('wa, 'user, 'sess, 'x) daemon"
  assumes "grants (dm_gate d) = Map.empty" "dc_escaped c = ''/owner/devices/revoke''"
  shows "dr_status (fst (serve env d c)) = StatusUnauthorized"
proof -
  have path: "PathUnescape (dc_escaped c) = Some ''/owner/devices/revoke''"
    unfolding assms(2) by (rule PathUnescape_plain) simp
  have route: "findHandler root_table (req_method (dc_req c)) (dc_escaped c) = Handler DevicesRevoke"
    unfolding assms(2) by (rule revoke_route)
  let ?r = "routed_request c ''/owner/devices/revoke''"
  have status: "dr_status (fst (serve env d c)) =
      dr_status (fst (RequireDevice env c (RequireStepUp c ActionRevokeDevice (devices_mux c)) ?r d))"
    unfolding serve_routed(2) [OF path route] by (simp add: serve_route_def)
  have "dr_status (fst (RequireStepUp c ActionRevokeDevice (devices_mux c) r d')) = StatusUnauthorized"
    if "grants (dm_gate d') = Map.empty" for r and d' :: "('wa, 'user, 'sess, 'x) daemon"
    using RequireStepUp_empty [OF that, of c "devices_mux c" r] by (auto simp: writeAuthError_def json_reply_def)
  then show ?thesis
    unfolding status
    by (cases rule: RequireDevice_cases [where env = env and c = c and d = d and r = ?r
          and nxt = "RequireStepUp c ActionRevokeDevice (devices_mux c)"])
      (use assms(1) in \<open>simp_all add: writeAuthError_def json_reply_def\<close>)
qed



section \<open>A small installation\<close>

definition site_lib :: "(unit, unit, unit, string, unit) dm_env" where
  "site_lib = \<lparr>de_id = demo_env, de_ed = (\<lambda>pub n s. s = n), de_term = demo_term, de_upload = demo_upload_env,
     de_quote = (\<lambda>s. s), de_api = demo_api, de_static = (\<lambda>_. (StatusNotFound, [])), de_insecure = False\<rparr>"

definition site_flags :: flags where
  "site_flags = \<lparr>fl_addr = ''127.0.0.1:8080'', fl_db = ''/d.db'', fl_lock_dir = ''/l'', fl_file_roots = ''/srv'',
     fl_upload_dir = ''/up'', fl_owner_email = [], fl_owner_password_hash = [], fl_owner_totp_secret = [],
     fl_insecure_no_auth = False, fl_public_domain = []\<rparr>"

definition site_host :: "DB \<Rightarrow> unit host" where
  "site_host db = \<lparr>ho_fs = demo_upload_fs [], ho_db = (\<lambda>_. Some db), ho_lock_fault = False, ho_locks = [], ho_tmux = ()\<rparr>"

definition site_daemon :: "DB \<Rightarrow> (unit, unit, unit, unit) daemon" where
  "site_daemon db = newRouter demo_env
     \<lparr>rc_OwnerEmail = [], rc_OwnerPasswordHash = [], rc_OwnerTOTPSecret = [], rc_PublicDomain = []\<rparr>
     db [] () (demo_upload_fs [])"

lemma site_start: "startDaemon site_lib site_flags (site_host db) = Inr (site_lib, site_daemon db)"
proof -
  have "SplitHostPort ''127.0.0.1:8080'' = Some (''127.0.0.1'', ''8080'')" by code_simp
  then have flags: "checkFlags site_flags = None"
    using TrimSpace_printable [of "''127.0.0.1''"]
    by (simp add: checkFlags_def site_flags_def checkBindAddress_def validatePublicDomain_def is_space_def)
  have dir: "Dir ''/d.db'' = ''/''" by code_simp
  have roots: "splitRoots ''/srv'' = [''/srv'']"
    using TrimSpace_printable [of "''/srv''"] by (simp add: splitRoots_def is_space_def)
  have mk: "os_mkdir_all (demo_upload_fs []) ''/'' = (None, demo_upload_fs [])"
    "os_mkdir_all (demo_upload_fs []) ''/up'' = (None, demo_upload_fs [])"
    using walk_real_path [of "demo_upload_fs []" "[''up'']" 40]
    by (simp_all add: os_mkdir_all_def start_of_def real_path_def demo_dirs demo_nodes)
  have lib: "de_term site_lib = demo_term" "te_exec demo_term = (\<lambda>args x. (([], True), x))" "te_tmux demo_term = NewTmux"
    "te_locks demo_term = \<lparr>lm_dir = ''/l''\<rparr>"
    by (simp_all add: site_lib_def demo_term_def)
  have tenv: "(de_term site_lib)\<lparr>te_tmux := NewTmux, te_locks := \<lparr>lm_dir = ''/l''\<rparr>\<rparr> = demo_term"
    by (simp add: site_lib_def demo_term_def)
  have env: "site_lib\<lparr>de_term := demo_term, de_api := \<lparr>api_Store = up_store demo_uploader, api_Uploader = demo_uploader\<rparr>,
      de_insecure := False\<rparr> = site_lib"
    by (simp add: site_lib_def demo_api_def)
  have up: "\<lparr>up_store = up_store demo_uploader, up_dir = ''/up''\<rparr> = demo_uploader" by (simp add: demo_uploader_def)
  show ?thesis
    using flags dir roots mk demo_store [of "[]"] tenv env up
    by (simp add: startDaemon_def site_flags_def site_host_def New_def NewUploader_def NewManager_def site_daemon_def
        Let_def) (simp add: site_lib_def)
qed

definition site_db :: DB where
  "site_db = \<lparr>sessions = [], devices = [\<lparr>dr_id = ''d'', dr_name = None, dr_platform = None,
     dr_pubkey = ''AAAAAAAAAAAAAAAAAAAAAAAAAAAAAAAAAAAAAAAAAAA='', dr_paired = None, dr_seen = None,
     dr_revoked = Some 0\<rparr>]\<rparr>"

definition site_call :: "instant \<Rightarrow> string \<Rightarrow> (string \<Rightarrow> string) \<Rightarrow> (string \<Rightarrow> string) \<Rightarrow> dm_call" where
  "site_call now path headers body =
     \<lparr>dc_escaped = path,
      dc_req = \<lparr>req_method = ''POST'', req_path = [], req_remote = ''127.0.0.1:5000'', req_host = ''localhost'',
        req_header = headers, req_query = (\<lambda>_. []), req_json = JsonObject body, req_device = None\<rparr>,
      dc_need = 20, dc_now = now, dc_unix = 1700000000, dc_rnd = Some ''n'', dc_auth_fault = False, dc_fault = False,
      dc_order = (\<lambda>rows. rows), dc_term = demo_term_call False, dc_ws = demo_ws, dc_files = demo_file_call\<rparr>"

definition site_challenge :: dm_call where
  "site_challenge = site_call 1 ''/auth/challenge'' (\<lambda>_. []) (\<lambda>k. if k = ''device_id'' then ''d'' else [])"

definition site_ticket :: dm_call where
  "site_ticket = site_call 2 ''/auth/ws-ticket''
     (\<lambda>h. if h = ''X-Device-Id'' then ''d'' else if h = ''X-Device-Signature'' then StdEncode ''n'' else []) (\<lambda>_. [])"

lemma site_routes:
  "findHandler root_table ''POST'' ''/auth/challenge'' = Handler Challenge"
  "findHandler root_table ''POST'' ''/auth/ws-ticket'' = Handler WSTicket"
  by code_simp+

lemma site_device: "StoreDevice False site_db ''d'' = Some (replicate 32 (CHR 0x00), False)"
  using demo_key by (simp add: StoreDevice_def GetDevice_def site_db_def scan_device_def PublicKeySize_def)

lemma site_challenged:
  "pending (dm_auth (serve_run site_lib (site_daemon site_db) [site_challenge])) ''d'' =
     Some \<lparr>pc_nonce = ''n'', pc_expiresAt = 1 + ChallengeTTL\<rparr> \<and>
   dm_db (serve_run site_lib (site_daemon site_db) [site_challenge]) = site_db"
proof -
  have path: "PathUnescape (dc_escaped site_challenge) = Some ''/auth/challenge''"
    by (simp add: site_challenge_def site_call_def PathUnescape_plain)
  have route: "findHandler root_table (req_method (dc_req site_challenge)) (dc_escaped site_challenge) = Handler Challenge"
    using site_routes(1) by (simp add: site_challenge_def site_call_def)
  have "req_json (routed_request site_challenge ''/auth/challenge'') =
      JsonObject (\<lambda>k. if k = ''device_id'' then ''d'' else [])"
    by (simp add: routed_request_def site_challenge_def site_call_def maxJSONBody_def Let_def)
  moreover have "dc_rnd site_challenge = Some ''n''" "dc_now site_challenge = 1" "dc_fault site_challenge = False"
    "req_method (dc_req site_challenge) = ''POST''"
    by (simp_all add: site_challenge_def site_call_def)
  moreover have "dm_db (site_daemon site_db) = site_db" by (simp add: site_daemon_def)
  ultimately show ?thesis
    using site_device
    by (simp add: serve_step_def serve_routed [OF path route] serve_route_def handleAuthChallenge_def IssueChallenge_def Let_def)
qed

lemma site_privileged:
  "privileged site_lib (serve_run site_lib (site_daemon site_db) [site_challenge]) site_ticket"
proof -
  let ?d = "serve_run site_lib (site_daemon site_db) [site_challenge]"
  have path: "PathUnescape (dc_escaped site_ticket) = Some ''/auth/ws-ticket''"
    by (simp add: site_ticket_def site_call_def PathUnescape_plain)
  have route: "findHandler root_table (req_method (dc_req site_ticket)) (dc_escaped site_ticket) = Handler WSTicket"
    using site_routes(2) by (simp add: site_ticket_def site_call_def)
  have hdr: "req_header (dc_req site_ticket) ''X-Device-Id'' = ''d''"
    "req_header (dc_req site_ticket) ''X-Device-Signature'' = StdEncode ''n''"
    by (simp_all add: site_ticket_def site_call_def)
  have ne: "StdEncode ''n'' \<noteq> []" by simp
  have call: "dc_now site_ticket = 2" "dc_auth_fault site_ticket = False" "dc_rnd site_ticket = Some ''n''"
    "req_method (dc_req site_ticket) = ''POST''"
    by (simp_all add: site_ticket_def site_call_def)
  have "fst (DeviceVerify (de_ed site_lib) (StoreDevice False (dm_db ?d)) 2 (dm_auth ?d) ''d'' ''n'') = None"
    using site_challenged site_device
    by (auto simp: DeviceVerify_success_iff time_simps site_lib_def)
  then obtain a where "DeviceVerify (de_ed site_lib) (StoreDevice False (dm_db ?d)) 2 (dm_auth ?d) ''d'' ''n'' = (None, a)"
    by (metis prod.collapse)
  then have "\<exists>tk. dr_body (fst (serve site_lib ?d site_ticket)) = TicketReply tk"
    unfolding serve_routed(2) [OF path route]
    using hdr ne call by (simp add: serve_route_def RequireDevice_def handleAuthWSTicket_def issueTicket_def json_reply_def Let_def
        del: run_steps_simps b64_encode.simps)
  then show ?thesis by (auto simp: privileged_def case_prod_beta)
qed


section \<open>Properties\<close>

text \<open>
  The list of devices of a running daemon never changes: a pairing that completes would change it without a device key,
  but none completes, as no passkey session is ever bound, and revocation cannot be reached.
\<close>

lemma started_devices:
  assumes "startDaemon lib fl host = Inr (env, d0)"
  shows "devices (dm_db (serve_run env d0 cs)) = devices (dm_db d0)"
proof (cases rule: startDaemon_result [OF assms])
  case (1 cfg db locks x fs)
  obtain cfg' where "never_bound cfg' (dm_owner d0)" using newRouter_never_bound [of "de_id env" cfg db locks x fs] 1(1) by auto
  with run_never_bound [of d0 cfg' env cs] 1(1) show ?thesis by simp
qed

lemma started_privileged:
  assumes "startDaemon lib fl host = Inr (env, d0)"
  shows "privileged env (serve_run env d0 cs) c \<longleftrightarrow> exposed env (serve_run env d0 cs) c"
  using started_devices [OF assms, of cs] started_devices [OF assms, of "cs @ [c]"]
  by (simp add: privileged_iff serve_run_snoc del: run_steps_simps)

text \<open>
  C1. Nothing is served without a device key: from the start of the daemon, after any requests, a
  request that shows terminal sessions, files or the list of devices, that changes the sessions, the locks, the tmux
  server, the files or the list of devices, or that obtains a ticket, carries a signature, valid under the stored key of a
  device paired and not revoked at that moment, over a challenge that an earlier request obtained for it in the last two
  minutes; or it is a stream request with a ticket issued less than thirty seconds before to a request
  so authenticated; or the daemon runs in its test mode, and then it listens on the loopback interface
  only. The completion of a pairing would be the one change to the list of devices without a device key; as the program
  stands none completes, because no passkey session is ever bound, so there is no exception for it here.
\<close>

theorem access_is_authenticated:
  assumes "startDaemon lib fl host = Inr (env, d0)" and "privileged env (serve_run env d0 cs) c"
  shows "(fl_insecure_no_auth fl \<and> loopback_address (fl_addr fl)) \<or>
     (\<exists>did. device_proof env d0 cs c did) \<or>
     (\<exists>p cs1 ct cs2 did. PathUnescape (dc_escaped c) = Some p \<and> HasSuffix p ''/stream'' \<and> cs = cs1 @ ct # cs2 \<and>
        ticket_given env (serve_run env d0 cs1) ct (req_query (dc_req c) ''ticket'') \<and>
        dc_now c < dc_now ct + wsTicketTTL \<and> device_proof env d0 cs1 ct did)"
proof (cases rule: startDaemon_result [OF assms(1)])
  case (1 cfg db locks x fs)
  then have "fresh d0" by simp
  moreover have "exposed env (serve_run env d0 cs) c" using assms(2) by (simp only: started_privileged [OF assms(1)])
  ultimately show ?thesis using access_run [of d0 env cs c] 1(4,5) by (cases "fl_insecure_no_auth fl") simp_all
qed

theorem access_is_authenticated_witness:
  "(fl_insecure_no_auth site_flags \<and> loopback_address (fl_addr site_flags)) \<or>
   (\<exists>did. device_proof site_lib (site_daemon site_db) [site_challenge] site_ticket did) \<or>
   (\<exists>p cs1 ct cs2 did. PathUnescape (dc_escaped site_ticket) = Some p \<and> HasSuffix p ''/stream'' \<and>
      [site_challenge] = cs1 @ ct # cs2 \<and>
      ticket_given site_lib (serve_run site_lib (site_daemon site_db) cs1) ct (req_query (dc_req site_ticket) ''ticket'') \<and>
      dc_now site_ticket < dc_now ct + wsTicketTTL \<and> device_proof site_lib (site_daemon site_db) cs1 ct did)"
  by (rule access_is_authenticated [OF site_start site_privileged])

text \<open>
  C2. A new installation stays locked: as the program stands it never binds a passkey session, so when
  the database holds no device at the start and the test mode is off, no sequence of requests whatever
  pairs a device, and no request ever shows or changes sessions, files or the list of devices. The
  daemon is safe and cannot be used.
\<close>

theorem fresh_install_stays_locked:
  assumes "startDaemon lib fl host = Inr (env, d0)" "\<not> fl_insecure_no_auth fl"
    and "ho_db host (fl_db fl) = Some db" "devices db = []"
  shows "devices (dm_db (serve_run env d0 cs)) = [] \<and> \<not> privileged env (serve_run env d0 cs) c"
proof (cases rule: startDaemon_result [OF assms(1)])
  case (1 cfg db' locks x fs)
  have fresh: "fresh d0" and db: "devices (dm_db d0) = []" using 1(1,2) assms(3,4) by simp_all
  obtain cfg' where "never_bound cfg' (dm_owner d0)" using newRouter_never_bound [of "de_id env" cfg db' locks x fs] 1(1) by auto
  note none = run_never_bound [OF fresh this]
  have no: "\<not> device_proof env d0 cs c did" for cs c did
    using none [of env cs] db
    by (simp add: device_proof_def StoreDevice_def GetDevice_def split: sum.split if_splits)
  have "\<not> privileged env (serve_run env d0 cs) c"
  proof
    assume "privileged env (serve_run env d0 cs) c"
    then have "exposed env (serve_run env d0 cs) c" by (simp only: started_privileged [OF assms(1)])
    from access_run [OF fresh _ this] 1(4) assms(2) no show False by simp
  qed
  with none [of env cs] db show ?thesis by simp
qed

theorem fresh_install_stays_locked_witness:
  "devices (dm_db (serve_run site_lib (site_daemon emptyDB) [site_challenge])) = [] \<and>
   \<not> privileged site_lib (serve_run site_lib (site_daemon emptyDB) [site_challenge]) site_ticket"
  by (rule fresh_install_stays_locked [OF site_start, where db = emptyDB]) (simp_all add: site_flags_def site_host_def emptyDB_def)

text \<open>
  C3. Revocation cannot be reached: no route issues a step-up grant, so whatever came before, the
  request to revoke a device is answered 401, with valid device headers too, and no sequence of
  requests ever marks a device as revoked that was not so in the database at the start.
\<close>

theorem revocation_is_unreachable:
  assumes "startDaemon lib fl host = Inr (env, d0)" "dc_escaped c = ''/owner/devices/revoke''"
    and "ho_db host (fl_db fl) = Some db" "\<not> revoked_in db did"
  shows "dr_status (fst (serve env (serve_run env d0 cs) c)) = StatusUnauthorized \<and>
     \<not> revoked_in (dm_db (serve_run env d0 (cs @ [c]))) did"
proof (cases rule: startDaemon_result [OF assms(1)])
  case (1 cfg db' locks x fs)
  then have fresh: "fresh d0" and db: "dm_db d0 = db" using assms(3) by simp_all
  show ?thesis
    using run_revoked [OF fresh, of env "cs @ [c]"] run_revoked [OF fresh, of env cs] revoke_refused [OF _ assms(2)] assms(4) db
    by blast
qed

theorem revocation_is_unreachable_witness:
  "dr_status (fst (serve site_lib (serve_run site_lib (site_daemon site_db) [site_challenge])
      (site_ticket\<lparr>dc_escaped := ''/owner/devices/revoke''\<rparr>))) = StatusUnauthorized \<and>
   \<not> revoked_in (dm_db (serve_run site_lib (site_daemon site_db)
      ([site_challenge] @ [site_ticket\<lparr>dc_escaped := ''/owner/devices/revoke''\<rparr>]))) ''d''"
  by (rule revocation_is_unreachable [OF site_start, where db = site_db])
    (simp_all add: site_host_def site_db_def revoked_in_def device_at_def)

end
