(* ===== verification/Daemon_Client.thy ===== *)
theory Daemon_Client
  imports Daemon
begin

text \<open>
  The daemon from the client's side: a paired device that follows the protocol, challenge, ticket and
  stream, is served.
\<close>


section \<open>Routing a stream\<close>

lemma stream_route:
  assumes "sid \<noteq> []" "ident_string sid"
  shows "findHandler root_table m (''/sessions/'' @ sid @ ''/stream'') = Handler Sessions"
    and "PathUnescape (''/sessions/'' @ sid @ ''/stream'') = Some (''/sessions/'' @ sid @ ''/stream'')"
    and "splitSessionPath (''/sessions/'' @ sid @ ''/stream'') = Some (sid, ''stream'')"
proof -
  let ?p = "''/sessions/'' @ sid @ ''/stream''"
  have plain: "plain_elem sid" using assms by (rule plain_elem_ident)
  have no: "slash \<notin> set sid" "CHR ''%'' \<notin> set sid"
    using assms(2) ident_string_no_slash ident_string_char [OF assms(2), of "CHR ''%''"]
    by (auto simp: ident_rune_def)
  have p: "?p = abs_path [''sessions'', sid, ''stream'']" by (simp add: abs_path_def)
  have clean: "Clean ?p = ?p"
    unfolding p using plain by (intro Clean_abs_path) (simp add: plain_elem_def)
  have last: "last ?p \<noteq> slash" by simp
  then have "cleanPath ?p = ?p" using clean by (simp add: cleanPath_def Let_def)
  moreover have "path_segments ?p = [''sessions'', sid, ''stream'']"
    using no by (simp add: path_segments_def)
  moreover have "mux_find root_table [''sessions'', sid, ''stream''] = Some (''/sessions/'', Sessions)"
    by (simp add: root_table_def pattern_matches_def)
  ultimately show "findHandler root_table m ?p = Handler Sessions"
    by (simp add: findHandler_def)
  show "PathUnescape ?p = Some ?p" using no by (intro PathUnescape_plain) simp
  show "splitSessionPath ?p = Some (sid, ''stream'')"
    unfolding splitSessionPath_iff using assms(1) no by simp
qed


section \<open>The steps of the protocol\<close>

text \<open>A JSON body that fits the limit, posted to a path.\<close>

definition posts :: "dm_call \<Rightarrow> string \<Rightarrow> bool" where
  "posts c path \<longleftrightarrow> dc_escaped c = path \<and> req_method (dc_req c) = MethodPost \<and> dc_need c \<le> maxJSONBody"

definition signs :: "dm_call \<Rightarrow> string \<Rightarrow> string \<Rightarrow> bool" where
  "signs c did sg \<longleftrightarrow> req_header (dc_req c) ''X-Device-Id'' = did \<and>
     req_header (dc_req c) ''X-Device-Signature'' = StdEncode sg \<and> did \<noteq> [] \<and> sg \<noteq> []"

lemma challenge_step:
  assumes "posts c ''/auth/challenge''" "req_json (dc_req c) = JsonObject body" "body ''device_id'' = did" "did \<noteq> []"
    and "dc_rnd c = Some n" "StoreDevice (dc_fault c) (dm_db d) did = Some (pub, False)"
  obtains a where "snd (serve env d c) = d\<lparr>dm_auth := a\<rparr>"
    "pending a did = Some \<lparr>pc_nonce = n, pc_expiresAt = dc_now c + ChallengeTTL\<rparr>"
    "dr_body (fst (serve env d c)) = ChallengeReply (StdEncode n)"
proof -
  have path: "PathUnescape (dc_escaped c) = Some ''/auth/challenge''"
    using assms(1) by (simp add: posts_def PathUnescape_plain)
  have route: "findHandler root_table (req_method (dc_req c)) (dc_escaped c) = Handler Challenge"
    using assms(1) site_routes(1) by (simp add: posts_def)
  have json: "req_json (routed_request c ''/auth/challenge'') = JsonObject body"
    using assms(1,2) by (simp add: routed_request_def posts_def Let_def)
  have meth: "req_method (dc_req c) = MethodPost" using assms(1) by (simp add: posts_def)
  let ?a = "snd (IssueChallenge (StoreDevice (dc_fault c) (dm_db d)) (dc_now c) (dc_rnd c) (dm_auth d) did)"
  show ?thesis
    by (rule that [of ?a]; insert assms(3-6) json meth)
      (simp_all add: serve_routed [OF path route] serve_route_def handleAuthChallenge_def IssueChallenge_def
        json_reply_def Let_def)
qed

lemma ticket_step_served:
  assumes "posts c ''/auth/ws-ticket''" "signs c did sg" "dc_rnd c = Some buf"
    and "pending (dm_auth d) did = Some pc" "dc_now c \<le> pc_expiresAt pc"
    and "StoreDevice (dc_auth_fault c) (dm_db d) did = Some (pub, False)" "de_ed env pub (pc_nonce pc) sg"
  obtains a ts where "snd (serve env d c) = d\<lparr>dm_auth := a, dm_tickets := ts\<rparr>"
    "tickets ts (hex_encode buf) = Some (dc_now c + wsTicketTTL)"
    "dr_body (fst (serve env d c)) = TicketReply (hex_encode buf)"
proof -
  have path: "PathUnescape (dc_escaped c) = Some ''/auth/ws-ticket''"
    using assms(1) by (simp add: posts_def PathUnescape_plain)
  have route: "findHandler root_table (req_method (dc_req c)) (dc_escaped c) = Handler WSTicket"
    using assms(1) site_routes(2) by (simp add: posts_def)
  have meth: "req_method (dc_req c) = MethodPost" using assms(1) by (simp add: posts_def)
  let ?v = "DeviceVerify (de_ed env) (StoreDevice (dc_auth_fault c) (dm_db d)) (dc_now c) (dm_auth d) did sg"
  have "fst ?v = None" using assms(4-7) by (auto simp: DeviceVerify_success_iff)
  then obtain a where v: "?v = (None, a)" by (metis prod.collapse)
  let ?ts = "snd (issueTicket (dc_now c) (dc_rnd c) (dm_tickets d))"
  show ?thesis
    by (rule that [where a = a and ts = ?ts]; insert assms(2,3) v meth)
      (simp_all add: serve_routed [OF path route] serve_route_def RequireDevice_def signs_def handleAuthWSTicket_def
        issueTicket_def json_reply_def Let_def)
qed

lemma stream_step:
  assumes "\<not> de_insecure env" "dc_escaped c = ''/sessions/'' @ sid @ ''/stream''" "sid \<noteq> []" "ident_string sid"
    and "req_query (dc_req c) ''ticket'' = tk" "tk \<noteq> []" "tickets (dm_tickets d) tk = Some t" "dc_now c < t"
  shows "(dr_status (fst (serve env d c)), dr_body (fst (serve env d c))) =
      map_prod id TermReply (fst (handleStream (de_term env) (dc_term c) (dc_ws c)
        \<lparr>ts_db = dm_db d, ts_locks = dm_locks d, ts_tmux = dm_tmux d\<rparr> (routed_request c (dc_escaped c)) sid))"
proof -
  define r where "r = routed_request c (dc_escaped c)"
  let ?s = "\<lparr>ts_db = dm_db d, ts_locks = dm_locks d, ts_tmux = dm_tmux d\<rparr>"
  have path: "PathUnescape (dc_escaped c) = Some (dc_escaped c)" and
    route: "findHandler root_table (req_method (dc_req c)) (dc_escaped c) = Handler Sessions" and
    split: "splitSessionPath (dc_escaped c) = Some (sid, ''stream'')"
    unfolding assms(2) by (rule stream_route [OF assms(3,4)])+
  have r: "req_path r = dc_escaped c" "req_query r = req_query (dc_req c)"
    by (simp_all add: r_def routed_request_def Let_def)
  have suf: "HasSuffix (dc_escaped c) ''/stream''" by (simp add: assms(2) HasSuffix_def suffix_def)
  obtain ts where tk: "consumeTicket (dc_now c) (dm_tickets d) tk = (True, ts)"
    using assms(7,8) by (simp add: consumeTicket_def)
  have "HasPrefix (dc_escaped c) ''/sessions/''" "dc_escaped c \<noteq> ''/sessions''"
    by (simp_all add: assms(2) HasPrefix_def)
  then have mux: "Routes (de_term env) (dc_term c) (dc_ws c) ?s r = handleStream (de_term env) (dc_term c) (dc_ws c) ?s r sid"
    using split r by (simp add: Routes_def handleSession_def)
  have serve: "serve_route env c Sessions r d = term_mux env c r (d\<lparr>dm_tickets := ts\<rparr>)"
    using suf assms(1,5,6) tk r by (simp add: serve_route_def wrapSessionAuth_def)
  show ?thesis
    unfolding serve_routed(2) [OF path route] r_def [symmetric] serve
    by (simp add: term_mux_def mux case_prod_beta map_prod_def)
qed


lemma ticket_step_refused:
  assumes "posts c ''/auth/ws-ticket''" "signs c did sg"
    and "fst (DeviceVerify (de_ed env) (StoreDevice (dc_auth_fault c) (dm_db d)) (dc_now c) (dm_auth d) did sg) \<noteq> None"
  shows "dr_status (fst (serve env d c)) = StatusUnauthorized"
proof -
  have path: "PathUnescape (dc_escaped c) = Some ''/auth/ws-ticket''"
    using assms(1) by (simp add: posts_def PathUnescape_plain)
  have route: "findHandler root_table (req_method (dc_req c)) (dc_escaped c) = Handler WSTicket"
    using assms(1) site_routes(2) by (simp add: posts_def)
  obtain e a where
    "DeviceVerify (de_ed env) (StoreDevice (dc_auth_fault c) (dm_db d)) (dc_now c) (dm_auth d) did sg = (Some e, a)"
    using assms(3) by (metis option.exhaust prod.collapse)
  with assms(1,2) show ?thesis
    by (simp add: serve_routed [OF path route] serve_route_def RequireDevice_def signs_def writeAuthError_def json_reply_def)
qed

text \<open>
  The challenge request carries no proof of anything, and a new challenge replaces the outstanding one:
  whoever knows the id of a device can void its challenges. The device's signature is then over a nonce
  that no longer counts, and it is refused.
\<close>

lemma stranger_voids_challenge:
  assumes "posts c ''/auth/challenge''" "req_json (dc_req c) = JsonObject body" "body ''device_id'' = did" "did \<noteq> []"
    and "dc_rnd c = Some n'" "StoreDevice (dc_fault c) (dm_db d) did = Some (pub, False)"
    and "posts c2 ''/auth/ws-ticket''" "signs c2 did sg" "\<not> de_ed env pub n' sg"
    and "StoreDevice (dc_auth_fault c2) (dm_db d) did = Some (pub, False)"
  shows "dr_status (fst (serve env (serve_run env d [c]) c2)) = StatusUnauthorized"
proof -
  obtain a where d1: "snd (serve env d c) = d\<lparr>dm_auth := a\<rparr>"
    and "pending a did = Some \<lparr>pc_nonce = n', pc_expiresAt = dc_now c + ChallengeTTL\<rparr>"
    using challenge_step [OF assms(1-6)] by metis
  then have "fst (DeviceVerify (de_ed env) (StoreDevice (dc_auth_fault c2) (dm_db d)) (dc_now c2) a did sg) \<noteq> None"
    using assms(9,10) by (auto simp: DeviceVerify_success_iff)
  then show ?thesis using ticket_step_refused [OF assms(7,8), of env "d\<lparr>dm_auth := a\<rparr>"] by (simp add: serve_step_def d1)
qed


section \<open>A client's own calls on the small installation\<close>

text \<open>
  The database holds the paired device and one open session; the client asks for a challenge, for a
  ticket with its signature, and for the stream.
\<close>

definition site_sid :: string where "site_sid = ''30313233''"

definition site_stream_db :: DB where
  "site_stream_db = site_db\<lparr>sessions := [\<lparr>sr_id = site_sid, sr_name = None, sr_tmux = ''ccr-a'', sr_cwd = None,
     sr_shell = None, sr_status = Some ''open'', sr_created = None, sr_active = None\<rparr>]\<rparr>"

definition site_stream :: dm_call where
  "site_stream = (site_call 3 (''/sessions/'' @ site_sid @ ''/stream'') (\<lambda>_. []) (\<lambda>_. []))
     \<lparr>dc_req := \<lparr>req_method = ''GET'', req_path = [], req_remote = ''127.0.0.1:5000'', req_host = ''localhost'',
        req_header = (\<lambda>_. []), req_query = (\<lambda>_. hex_encode ''n''), req_json = JsonEOF, req_device = None\<rparr>,
      dc_ws := demo_ws\<lparr>wc_chunks := [''ab'', ''c'']\<rparr>\<rparr>"

lemma site_calls:
  "posts site_challenge ''/auth/challenge''" "posts site_ticket ''/auth/ws-ticket''" "signs site_ticket ''d'' ''n''"
  "req_json (dc_req site_challenge) = JsonObject (\<lambda>k. if k = ''device_id'' then ''d'' else [])"
  by (simp_all add: posts_def signs_def site_challenge_def site_ticket_def site_call_def maxJSONBody_def)


section \<open>Properties\<close>

text \<open>
  C16. A paired device that follows the protocol is served: it asks for a challenge, obtains a ticket
  with its signature over the challenge within two minutes, and opens the stream of an open session with
  the ticket within thirty seconds. If the database answers, tmux lets it attach and the WebSocket
  handshake succeeds, then the connection is upgraded, and what the client decodes from the messages it
  receives is the snapshot of the terminal followed by all that the terminal delivers.
\<close>

theorem honest_client_streams:
  assumes "\<not> de_insecure env"
    and "posts c1 ''/auth/challenge''" "req_json (dc_req c1) = JsonObject body" "body ''device_id'' = did" "did \<noteq> []"
    and "dc_rnd c1 = Some n" "StoreDevice (dc_fault c1) (dm_db d) did = Some (pub, False)"
    and "posts c2 ''/auth/ws-ticket''" "signs c2 did sg" "de_ed env pub n sg" "dc_rnd c2 = Some buf" "buf \<noteq> []"
    and "dc_now c2 \<le> dc_now c1 + ChallengeTTL" "StoreDevice (dc_auth_fault c2) (dm_db d) did = Some (pub, False)"
    and "dc_escaped c3 = ''/sessions/'' @ sid @ ''/stream''" "sid \<noteq> []" "ident_string sid"
    and "req_query (dc_req c3) ''ticket'' = hex_encode buf" "dc_now c3 < dc_now c2 + wsTicketTTL"
    and "GetSession (tc_read_fault (dc_term c3)) (dm_db d) sid = Inr row" "s_Status row = ''open''"
    and "wc_handshake (dc_ws c3)" "wc_sends (dc_ws c3) = None"
    and "sameOriginOrNone (wc_fold (dc_ws c3)) (wc_url_host (dc_ws c3)) (routed_request c3 (dc_escaped c3))"
    and "Attach (te_exec (de_term env)) (te_tmux (de_term env)) (s_TmuxSession row) 80 24 (dm_tmux d) = (Some dims, x)"
    and "fst (CapturePane (te_exec (de_term env)) (te_tmux (de_term env)) (s_TmuxSession row) x) = Some snap"
  shows "\<exists>ms. dr_status (fst (serve env (serve_run env d [c1, c2]) c3)) = StatusSwitchingProtocols \<and>
     dr_body (fst (serve env (serve_run env d [c1, c2]) c3)) =
       TermReply (Streamed (fst (stream_loop sid (wc_messages (dc_ws c3)) (dm_db d))) ms) \<and>
     received ms = Some (snap @ concat (wc_chunks (dc_ws c3)))"
proof -
  obtain a1 where d1: "snd (serve env d c1) = d\<lparr>dm_auth := a1\<rparr>"
    and pend: "pending a1 did = Some \<lparr>pc_nonce = n, pc_expiresAt = dc_now c1 + ChallengeTTL\<rparr>"
    using challenge_step [OF assms(2-7)] by metis
  obtain a2 ts where d2: "snd (serve env (d\<lparr>dm_auth := a1\<rparr>) c2) = d\<lparr>dm_auth := a2, dm_tickets := ts\<rparr>"
    and tk: "tickets ts (hex_encode buf) = Some (dc_now c2 + wsTicketTTL)"
    by (rule ticket_step_served [where env = env and d = "d\<lparr>dm_auth := a1\<rparr>" and pub = pub
          and pc = "\<lparr>pc_nonce = n, pc_expiresAt = dc_now c1 + ChallengeTTL\<rparr>", OF assms(8,9,11)])
      (use pend assms(10,13,14) in simp_all)
  let ?d = "d\<lparr>dm_auth := a2, dm_tickets := ts\<rparr>"
  have run: "serve_run env d [c1, c2] = ?d" by (simp add: serve_step_def d1 d2)
  have "hex_encode buf \<noteq> []" using assms(12) by (cases buf) simp_all
  with assms(1,15-19) tk
  have "(dr_status (fst (serve env ?d c3)), dr_body (fst (serve env ?d c3))) =
      map_prod id TermReply (fst (handleStream (de_term env) (dc_term c3) (dc_ws c3)
        \<lparr>ts_db = dm_db d, ts_locks = dm_locks d, ts_tmux = dm_tmux d\<rparr> (routed_request c3 (dc_escaped c3)) sid))"
    by (subst stream_step [where sid = sid]) simp_all
  moreover obtain ops db1 where "stream_loop sid (wc_messages (dc_ws c3)) (dm_db d) = (ops, db1)" by fastforce
  moreover obtain x2 where
    "CapturePane (te_exec (de_term env)) (te_tmux (de_term env)) (s_TmuxSession row) x = (Some snap, x2)"
    using assms(26) by (metis prod.collapse)
  ultimately show ?thesis
    unfolding run using assms(20-25)
    by (simp add: handleStream_def ManagerGet_def sent_def stream_pump_received Let_def split: list.split)
qed

theorem honest_client_streams_witness:
  "\<exists>ms. dr_body (fst (serve site_lib (serve_run site_lib (site_daemon site_stream_db) [site_challenge, site_ticket]) site_stream)) =
     TermReply (Streamed [] ms) \<and> received ms = Some ''abc''"
proof -
  have dev: "StoreDevice False site_stream_db ''d'' = Some (replicate 32 (CHR 0x00), False)"
    using site_device by (simp add: StoreDevice_def GetDevice_def site_stream_db_def)
  have row: "GetSession False site_stream_db site_sid = Inr \<lparr>s_ID = site_sid, s_Name = [], s_TmuxSession = ''ccr-a'',
      s_Cwd = [], s_Shell = [], s_Status = ''open'', s_CreatedAt = 0, s_LastActiveAt = 0\<rparr>"
    by (simp add: GetSession_def scan_session_def site_stream_db_def)
  have sid: "ident_string site_sid" "site_sid \<noteq> []" by (simp_all add: site_sid_def ident_string_def ident_rune_def)
  let ?row = "\<lparr>s_ID = site_sid, s_Name = [], s_TmuxSession = ''ccr-a'',
      s_Cwd = [], s_Shell = [], s_Status = ''open'', s_CreatedAt = 0, s_LastActiveAt = 0\<rparr>"
  have "\<exists>ms. dr_status (fst (serve site_lib (serve_run site_lib (site_daemon site_stream_db) [site_challenge, site_ticket]) site_stream)) =
        StatusSwitchingProtocols \<and>
      dr_body (fst (serve site_lib (serve_run site_lib (site_daemon site_stream_db) [site_challenge, site_ticket]) site_stream)) =
        TermReply (Streamed (fst (stream_loop site_sid (wc_messages (dc_ws site_stream)) (dm_db (site_daemon site_stream_db)))) ms) \<and>
      received ms = Some ([] @ concat (wc_chunks (dc_ws site_stream)))"
    by (rule honest_client_streams [where did = "''d''" and n = "''n''" and sg = "''n''" and buf = "''n''"
          and row = ?row and x = "()" and dims = "(80, 24)" and pub = "replicate 32 (CHR 0x00)"
          and body = "\<lambda>k. if k = ''device_id'' then ''d'' else []"])
      (use dev row sid site_calls in \<open>simp_all add: site_challenge_def site_ticket_def site_stream_def site_call_def
          site_daemon_def site_lib_def demo_term_def demo_term_call_def demo_ws_def Attach_def CapturePane_def
          sameOriginOrNone_def routed_request_def newRouter_def time_simps Let_def\<close>)
  then show ?thesis by (simp add: site_stream_def demo_ws_def)
qed

text \<open>The stream request of the small installation carries the ticket just issued and nothing else.\<close>

lemma site_stream_by_ticket:
  assumes "d = serve_run site_lib (site_daemon site_stream_db) [site_challenge, site_ticket]"
  shows "ticket_ok d site_stream" "\<not> header_ok site_lib d site_stream did" "dm_db d = site_stream_db"
    "dr_status (fst (serve site_lib d site_stream)) = StatusSwitchingProtocols"
proof -
  let ?d = "site_daemon site_stream_db"
  have db: "dm_db ?d = site_stream_db" by (simp add: site_daemon_def)
  have dev: "StoreDevice False site_stream_db ''d'' = Some (replicate 32 (CHR 0x00), False)"
    using site_device by (simp add: StoreDevice_def GetDevice_def site_stream_db_def)
  have call: "dc_rnd site_challenge = Some ''n''" "\<not> dc_fault site_challenge" "dc_now site_challenge = 1"
    "dc_rnd site_ticket = Some ''n''" "\<not> dc_auth_fault site_ticket" "dc_now site_ticket = 2"
    by (simp_all add: site_challenge_def site_ticket_def site_call_def)
  obtain a1 where d1: "snd (serve site_lib ?d site_challenge) = ?d\<lparr>dm_auth := a1\<rparr>"
    and pend: "pending a1 ''d'' = Some \<lparr>pc_nonce = ''n'', pc_expiresAt = 1 + ChallengeTTL\<rparr>"
    using challenge_step [OF site_calls(1,4), of "''d''" "''n''" ?d "replicate 32 (CHR 0x00)" site_lib] call db dev by auto
  obtain a2 ts where d2: "snd (serve site_lib (?d\<lparr>dm_auth := a1\<rparr>) site_ticket) = ?d\<lparr>dm_auth := a2, dm_tickets := ts\<rparr>"
    and tk: "tickets ts (hex_encode ''n'') = Some (2 + wsTicketTTL)"
    by (rule ticket_step_served [where env = site_lib and d = "?d\<lparr>dm_auth := a1\<rparr>" and pub = "replicate 32 (CHR 0x00)"
          and pc = "\<lparr>pc_nonce = ''n'', pc_expiresAt = 1 + ChallengeTTL\<rparr>", OF site_calls(2,3) call(4)])
      (use pend call db dev in \<open>simp_all add: site_lib_def time_simps\<close>)
  have d: "d = ?d\<lparr>dm_auth := a2, dm_tickets := ts\<rparr>" unfolding assms by (simp add: serve_step_def d1 d2)
  have str: "req_query (dc_req site_stream) ''ticket'' = hex_encode ''n''" "dc_now site_stream = 3"
    "req_header (dc_req site_stream) h = []" "dc_escaped site_stream = ''/sessions/'' @ site_sid @ ''/stream''"
    "dc_term site_stream = demo_term_call False" "dc_ws site_stream = demo_ws\<lparr>wc_chunks := [''ab'', ''c'']\<rparr>"
    "req_header (routed_request site_stream p) h = []" for h p
    by (simp_all add: site_stream_def site_call_def)
  show "ticket_ok d site_stream" using tk by (simp add: ticket_ok_def consumeTicket_iff d str time_simps)
  have "StoreDevice f site_stream_db [] = None" for f
    by (simp add: StoreDevice_def GetDevice_def site_stream_db_def site_db_def)
  then show "\<not> header_ok site_lib d site_stream did"
    by (auto simp: header_ok_def DeviceVerify_success_iff d db str)
  show "dm_db d = site_stream_db" by (simp add: d db)
  have "GetSession False site_stream_db site_sid = Inr \<lparr>s_ID = site_sid, s_Name = [], s_TmuxSession = ''ccr-a'',
      s_Cwd = [], s_Shell = [], s_Status = ''open'', s_CreatedAt = 0, s_LastActiveAt = 0\<rparr>"
    by (simp add: GetSession_def scan_session_def site_stream_db_def)
  moreover have "ident_string site_sid" "site_sid \<noteq> []" by (simp_all add: site_sid_def ident_string_def ident_rune_def)
  ultimately have "fst (dr_status (fst (serve site_lib d site_stream)), dr_body (fst (serve site_lib d site_stream))) =
      StatusSwitchingProtocols"
    by (subst stream_step [OF _ str(4), where tk = "hex_encode ''n''" and t = "2 + wsTicketTTL"])
      (use tk in \<open>simp_all add: d db str site_lib_def time_simps handleStream_def ManagerGet_def demo_term_call_def demo_ws_def
          demo_term_def Attach_def CapturePane_def sameOriginOrNone_def Let_def split: prod.split\<close>)
  then show "dr_status (fst (serve site_lib d site_stream)) = StatusSwitchingProtocols" by simp
qed

text \<open>
  C4. A ticket opens a stream and nothing else: while the daemon does not run in its test mode, a request without valid
  device headers, whatever ticket and whatever path it has, changes no lock and no file, and creates, closes and reopens no
  session, provided no session has the word stream as its id, which the daemon's hexadecimal ids never are.
\<close>

theorem ticket_opens_only_streams:
  assumes "\<not> de_insecure env" "\<forall>did. \<not> header_ok env d c did" "''stream'' \<notin> set (session_ids (dm_db d))"
  shows "dm_locks (snd (serve env d c)) = dm_locks d \<and> dm_files (snd (serve env d c)) = dm_files d \<and>
     (\<forall>k. open_in (dm_db (snd (serve env d c))) k = open_in (dm_db d) k) \<and>
     session_ids (dm_db (snd (serve env d c))) = session_ids (dm_db d)"
  using assms by (rule ticket_request_frame)

theorem ticket_opens_only_streams_witness:
  "\<exists>d. d = serve_run site_lib (site_daemon site_stream_db) [site_challenge, site_ticket] \<and>
     ticket_ok d site_stream \<and> dr_status (fst (serve site_lib d site_stream)) = StatusSwitchingProtocols \<and>
     dm_locks (snd (serve site_lib d site_stream)) = dm_locks d \<and> dm_files (snd (serve site_lib d site_stream)) = dm_files d \<and>
     session_ids (dm_db (snd (serve site_lib d site_stream))) = [site_sid]"
proof -
  obtain d where d: "d = serve_run site_lib (site_daemon site_stream_db) [site_challenge, site_ticket]" by blast
  note facts = site_stream_by_ticket [OF d]
  have ids: "session_ids (dm_db d) = [site_sid]" by (simp add: facts(3) session_ids_def site_stream_db_def)
  have "\<not> de_insecure site_lib" by (simp add: site_lib_def)
  moreover have "''stream'' \<notin> set (session_ids (dm_db d))" by (simp add: ids site_sid_def)
  ultimately show ?thesis using ticket_opens_only_streams [of site_lib d site_stream] facts ids d by metis
qed

end
