(* ===== verification/Daemon_Main.thy ===== *)
theory Daemon_Main
  imports Daemon_Client
begin

text \<open>
  The program \<^verbatim>\<open>main\<close> as a whole, with its two modes, and the owner's way from the setup mode to the
  first accepted factor.
\<close>


section \<open>The two modes\<close>

text \<open>The defaults of the flags.\<close>

definition default_flags :: flags where
  "default_flags =
     \<lparr>fl_addr = ''127.0.0.1:8080'', fl_db = ''/var/lib/claudecode-remote/daemon.db'', fl_lock_dir = DefaultDir,
      fl_file_roots = ''/srv/exchange'', fl_upload_dir = ''/var/lib/claudecode-remote/uploads'',
      fl_owner_email = [], fl_owner_password_hash = [], fl_owner_totp_secret = [],
      fl_insecure_no_auth = False, fl_public_domain = []\<rparr>"

datatype 'd main_outcome =
    SetupPrinted "string list"
  | SetupFailed setup_error
  | StartRefused start_error
  | Serving 'd

text \<open>
  What the setup mode draws from its environment: the TOTP library's key generation, the random salt,
  the standard input and whether reading it fails.
\<close>

record setup_world =
  sw_generate :: totp_generate
  sw_salt :: "string option"
  sw_stdin :: string
  sw_read_fault :: bool

definition daemon_main ::
    "('wa, 'user, 'sess, 'parsed, 'x) dm_env \<Rightarrow> setup_world \<Rightarrow> bool \<Rightarrow> flags \<Rightarrow> 'x host \<Rightarrow>
     (('wa, 'user, 'sess, 'parsed, 'x) dm_env \<times> ('wa, 'user, 'sess, 'x) daemon) main_outcome" where
  "daemon_main lib w setupOwner fl host =
     (if setupOwner
      then case runSetupOwner (env_idkey (de_id lib)) (sw_generate w) (sw_salt w) (sw_stdin w) (sw_read_fault w)
                  (fl_owner_email fl) of
             Inl e \<Rightarrow> SetupFailed e
           | Inr out \<Rightarrow> SetupPrinted out
      else case startDaemon lib fl host of
             Inl e \<Rightarrow> StartRefused e
           | Inr d \<Rightarrow> Serving d)"

lemma daemon_main_serving: "daemon_main lib w setupOwner fl host = Serving d \<longleftrightarrow> \<not> setupOwner \<and> startDaemon lib fl host = Inr d"
  by (auto simp: daemon_main_def split: sum.splits)

text \<open>The defaults pass every check and keep the daemon on the loopback interface with authentication on.\<close>

lemma default_flags_ok: "checkFlags default_flags = None \<and> \<not> fl_insecure_no_auth default_flags \<and> loopback_address (fl_addr default_flags)"
proof -
  have split: "SplitHostPort ''127.0.0.1:8080'' = Some (''127.0.0.1'', ''8080'')"
    and ip: "ParseIP ''127.0.0.1'' \<noteq> None" "IsLoopback (the (ParseIP ''127.0.0.1''))" by code_simp+
  have trim: "TrimSpace ''127.0.0.1'' = ''127.0.0.1''" by (rule TrimSpace_printable) (simp add: is_space_def)
  have "checkFlags default_flags = None"
    using split trim by (simp add: checkFlags_def default_flags_def checkBindAddress_def validatePublicDomain_def)
  moreover have "loopback_address (fl_addr default_flags)"
    unfolding loopback_address_def using split trim ip
    by (intro exI [of _ "''127.0.0.1''"] exI [of _ "''8080''"]) (auto simp: default_flags_def)
  ultimately show ?thesis by (simp add: default_flags_def)
qed


section \<open>Pairing requests at the front door\<close>

text \<open>The call that the pairing routes see.\<close>

abbreviation owner_call_of :: "dm_call \<Rightarrow> owner_call" where
  "owner_call_of c \<equiv> pairing_call c (dc_escaped c)"

lemma pairing_routes:
  "findHandler root_table ''POST'' ''/owner/pair/start'' = Handler Pairing"
  "findHandler root_table ''POST'' ''/owner/pair/password'' = Handler Pairing"
  by code_simp+

lemma pairing_served:
  assumes "posts c path" "path \<in> {''/owner/pair/start'', ''/owner/pair/password''}"
    and "RegisterPairing (de_id env) (owner_call_of c) (dm_owner d) (dm_db d) = ((st, b), ow, db)"
  shows "dr_status (fst (serve env d c)) = st \<and> dr_body (fst (serve env d c)) = OwnerReply b \<and>
     snd (serve env d c) = d\<lparr>dm_owner := ow, dm_db := db\<rparr>"
proof -
  have esc: "dc_escaped c = path" "req_method (dc_req c) = MethodPost" using assms(1) by (simp_all add: posts_def)
  have path: "PathUnescape (dc_escaped c) = Some (dc_escaped c)"
    using assms(2) esc by (auto intro: PathUnescape_plain)
  have route: "findHandler root_table (req_method (dc_req c)) (dc_escaped c) = Handler Pairing"
    using assms(2) esc pairing_routes by auto
  show ?thesis
    using assms(3) by (simp add: serve_routed [OF path route] serve_route_def pairing_mux_def json_reply_def pairing_call_def)
qed

lemma owner_call_of_posts:
  assumes "posts c path" "req_json (dc_req c) = JsonObject body"
  shows "req_path (oc_req (owner_call_of c)) = path" "req_method (oc_req (owner_call_of c)) = MethodPost"
    "req_json (oc_req (owner_call_of c)) = JsonObject body" "oc_now (owner_call_of c) = dc_now c"
    "oc_rnd (owner_call_of c) = dc_rnd c" "call_body (owner_call_of c) = body"
  using assms by (auto simp: pairing_call_def posts_def routed_request_def call_body_def Let_def)

lemma startDaemon_owner:
  assumes "startDaemon lib fl host = Inr (env, d0)"
  shows "de_id env = de_id lib"
    and "\<exists>origins. dm_owner d0 = NewOwner (de_id lib)
       \<lparr>c_Email = fl_owner_email fl, c_PasswordHash = fl_owner_password_hash fl,
        c_TOTPSecret = fl_owner_totp_secret fl, c_WebAuthnRPID = fl_public_domain fl,
        c_WebAuthnDisplayName = ''ClaudeCode Remote'', c_WebAuthnOrigins = origins\<rparr> NewRateLimiter"
  using assms
  by (auto simp: startDaemon_def newRouter_def Let_def split: option.splits prod.splits sum.splits)

lemma start_answered:
  assumes "posts c ''/owner/pair/start''" "req_json (dc_req c) = JsonObject body" "dc_rnd c = Some rnd"
    and "StdDecode (body ''device_pubkey'') = Some raw" "length raw = PublicKeySize"
  shows "\<exists>fs. answer env (ow, db) (owner_call_of c) = (StatusOK, Started (hex_encode rnd) fs)"
  using assms owner_call_of_posts [OF assms(1,2)]
  by (simp add: answer_def RegisterPairing_def handlePairStart_def randomID_def Let_def)

lemma accepted_hash_nonempty: "ComparePassword idkey pw hash = None \<Longrightarrow> hash \<noteq> []"
  by (auto simp: ComparePassword_def decodeArgon2id_def split_def split: sum.splits)


section \<open>Properties\<close>

text \<open>
  C21. The setup mode and the daemon agree: when the owner enters a password in the setup mode and
  starts the daemon with the three settings it prints, then a client that starts a pairing and sends the
  owner's email and that password to the password endpoint within the lifetime of the attempt is
  answered 200, through the real routes of the started daemon.
\<close>

theorem setup_credentials_accepted:
  assumes "newline \<notin> set pw" "pw \<noteq> []" "last pw \<noteq> carriage_return" "e \<in> {[newline], [carriage_return, newline]}"
    and "sw_stdin w = pw @ e @ rest" "sw_salt w = Some salt" "salt \<noteq> []"
    and "\<And>p s t m q l. length (env_idkey (de_id lib) p s t m q l) = l"
    and "email = (if fl_owner_email setup = [] then ''owner'' else fl_owner_email setup)"
    and "sw_generate w ''ClaudeCode Remote'' email = Some (secret, uri)" "secret \<noteq> []" "daemon_main lib w True setup host0 = SetupPrinted out"
    and "env_setting ''CCR_OWNER_EMAIL'' out = Some (fl_owner_email fl)"
      "env_setting ''CCR_OWNER_PASSWORD_HASH'' out = Some (fl_owner_password_hash fl)"
      "env_setting ''CCR_OWNER_TOTP_SECRET'' out = Some (fl_owner_totp_secret fl)"
    and "daemon_main lib w' False fl host = Serving (env, d0)"
    and "posts c1 ''/owner/pair/start''" "req_json (dc_req c1) = JsonObject sbody" "dc_rnd c1 = Some rnd"
      "StdDecode (sbody ''device_pubkey'') = Some raw" "length raw = PublicKeySize"
    and "posts c2 ''/owner/pair/password''" "req_json (dc_req c2) = JsonObject pbody" "pbody ''pairing_id'' = hex_encode rnd"
      "pbody ''email'' = email" "pbody ''password'' = pw" "dc_now c2 \<le> dc_now c1 + PairingTTL"
  shows "dr_status (fst (serve env d0 c1)) = StatusOK \<and>
     dr_status (fst (serve env (serve_run env d0 [c1]) c2)) = StatusOK"
proof -
  have "\<exists>out hash. runSetupOwner (env_idkey (de_id lib)) (sw_generate w) (Some salt) (pw @ e @ rest) (sw_read_fault w) (fl_owner_email setup) = Inr out \<and>
      env_setting ''CCR_OWNER_EMAIL'' out = Some email \<and>
      env_setting ''CCR_OWNER_PASSWORD_HASH'' out = Some hash \<and> env_setting ''CCR_OWNER_TOTP_SECRET'' out = Some secret \<and>
      (\<forall>attempt. ComparePassword (env_idkey (de_id lib)) attempt hash = None \<longleftrightarrow>
         env_idkey (de_id lib) attempt salt argonIterations argonMemoryKiB argonParallelism argonKeyLen
         = env_idkey (de_id lib) pw salt argonIterations argonMemoryKiB argonParallelism argonKeyLen)"
    unfolding assms(9) using setup_then_login [where email = "fl_owner_email setup" and generate = "sw_generate w" and idkey = "env_idkey (de_id lib)",
        OF assms(1-3,7,8) assms(10) [unfolded assms(9)] assms(4)] .
  with assms(5,6,12-15) have fl: "fl_owner_email fl = email" "fl_owner_totp_secret fl = secret"
    "ComparePassword (env_idkey (de_id lib)) pw (fl_owner_password_hash fl) = None"
    by (auto simp: daemon_main_def split: sum.splits)
  obtain origins where env: "de_id env = de_id lib" and ow: "dm_owner d0 = NewOwner (de_id env)
       \<lparr>c_Email = fl_owner_email fl, c_PasswordHash = fl_owner_password_hash fl,
        c_TOTPSecret = fl_owner_totp_secret fl, c_WebAuthnRPID = fl_public_domain fl,
        c_WebAuthnDisplayName = ''ClaudeCode Remote'', c_WebAuthnOrigins = origins\<rparr> NewRateLimiter"
    using startDaemon_owner [of lib fl host env d0] assms(16) by (auto simp: daemon_main_serving)
  define cfg where "cfg = \<lparr>c_Email = fl_owner_email fl, c_PasswordHash = fl_owner_password_hash fl,
        c_TOTPSecret = fl_owner_totp_secret fl, c_WebAuthnRPID = fl_public_domain fl,
        c_WebAuthnDisplayName = ''ClaudeCode Remote'', c_WebAuthnOrigins = origins\<rparr>"
  have cfg: "c_Email cfg = email" "c_TOTPSecret cfg \<noteq> []" "c_PasswordHash cfg \<noteq> []"
    "ComparePassword (env_idkey (de_id env)) pw (c_PasswordHash cfg) = None"
    using fl assms(11) accepted_hash_nonempty env by (auto simp: cfg_def)
  note own = ow [folded cfg_def]
  obtain fs where "answer (de_id env) (NewOwner (de_id env) cfg NewRateLimiter, dm_db d0) (owner_call_of c1) =
      (StatusOK, Started (hex_encode rnd) fs)"
    using start_answered [OF assms(17-21)] by blast
  then obtain ow1 where r1: "RegisterPairing (de_id env) (owner_call_of c1) (dm_owner d0) (dm_db d0) =
        ((StatusOK, Started (hex_encode rnd) fs), ow1, dm_db d0)"
    and way: "under_way cfg (dc_now c1) (hex_encode rnd) {} ow1" and lim: "o_limiter ow1 = NewRateLimiter"
    by (rule started_under_way [OF _ cfg(3,2)]) (simp add: own pairing_call_def)
  note one = pairing_served [OF assms(17) _ r1]
  note call = owner_call_of_posts [OF assms(22,23)]
  have "email \<noteq> []" using assms(9) by (simp split: if_splits)
  note e = this
  have ow1: "o_email ow1 = email" "h_password (o_heap ow1) = Some (NewPasswordVerifier (c_PasswordHash cfg))"
    using way cfg(1) by (simp_all add: under_way_def)
  obtain b ow2 where "RegisterPairing (de_id env) (owner_call_of c2) ow1 (dm_db d0) = ((StatusOK, b), ow2, dm_db d0)"
    by (rule under_way_accept [OF way, where c = "owner_call_of c2" and f = FactorPassword and env = "de_id env"
          and db = "dm_db d0" and h' = "o_heap ow1" and body = pbody])
      (use call assms(24-27) lim fresh_limiter cfg e ow1 in \<open>simp_all add: evidence_def factor_ref_def
          PasswordVerify_def NewPasswordVerifier_def\<close>)
  with one pairing_served [OF assms(22), of env "d0\<lparr>dm_owner := ow1, dm_db := dm_db d0\<rparr>"] show ?thesis
    by (simp add: serve_step_def)
qed

lemma startDaemon_owner_flags:
  assumes "startDaemon lib fl host = Inr (env, d0)"
  shows "\<exists>d. startDaemon lib (fl\<lparr>fl_owner_email := em, fl_owner_password_hash := ph, fl_owner_totp_secret := ts\<rparr>) host = Inr (env, d)"
  using assms by (auto simp: startDaemon_def checkFlags_def Let_def split: option.splits prod.splits sum.splits if_splits)

definition site_world :: setup_world where
  "site_world = \<lparr>sw_generate = (\<lambda>_ _. Some (''S'', ''otpauth'')), sw_salt = Some ''salt'',
     sw_stdin = ''pw'' @ [newline] @ [], sw_read_fault = False\<rparr>"

definition site_pair_start :: dm_call where
  "site_pair_start = site_call 1 ''/owner/pair/start'' (\<lambda>_. [])
     (\<lambda>k. if k = ''device_pubkey'' then ''AAAAAAAAAAAAAAAAAAAAAAAAAAAAAAAAAAAAAAAAAAA='' else [])"

definition site_pair_password :: dm_call where
  "site_pair_password = site_call 2 ''/owner/pair/password'' (\<lambda>_. [])
     (\<lambda>k. if k = ''pairing_id'' then hex_encode ''n'' else if k = ''email'' then ''owner'' else if k = ''password'' then ''pw'' else [])"

theorem setup_credentials_accepted_witness:
  "\<exists>fl d0. daemon_main site_lib site_world False fl (site_host emptyDB) = Serving (site_lib, d0) \<and>
     dr_status (fst (serve site_lib d0 site_pair_start)) = StatusOK \<and>
     dr_status (fst (serve site_lib (serve_run site_lib d0 [site_pair_start]) site_pair_password)) = StatusOK"
proof -
  have len: "\<And>p s t m q l. length (env_idkey (de_id site_lib) p s t m q l) = l" by (simp add: site_lib_def demo_env_def)
  have pw: "newline \<notin> set ''pw''" "''pw'' \<noteq> []" "last ''pw'' \<noteq> carriage_return" "''salt'' \<noteq> []" by simp_all
  have email: "''owner'' = (if fl_owner_email site_flags = [] then ''owner'' else fl_owner_email site_flags)"
    by (simp add: site_flags_def)
  have gen: "sw_generate site_world ''ClaudeCode Remote'' (if [] = ([] :: string) then ''owner'' else []) = Some (''S'', ''otpauth'')"
    by (simp add: site_world_def)
  obtain out hash where out: "daemon_main site_lib site_world True site_flags (site_host emptyDB) = SetupPrinted out"
    and set: "env_setting ''CCR_OWNER_EMAIL'' out = Some ''owner''" "env_setting ''CCR_OWNER_PASSWORD_HASH'' out = Some hash"
      "env_setting ''CCR_OWNER_TOTP_SECRET'' out = Some ''S''"
    using setup_then_login [where email = "[]" and generate = "sw_generate site_world" and fails = False and rest = "[]"
        and idkey = "env_idkey (de_id site_lib)", OF pw len gen, of "[newline]"]
    by (auto simp: daemon_main_def site_world_def site_flags_def)
  let ?fl = "site_flags\<lparr>fl_owner_email := ''owner'', fl_owner_password_hash := hash, fl_owner_totp_secret := ''S''\<rparr>"
  obtain d0 where serving: "daemon_main site_lib site_world False ?fl (site_host emptyDB) = Serving (site_lib, d0)"
    using startDaemon_owner_flags [OF site_start [of emptyDB], where em = "''owner''" and ph = hash and ts = "''S''"] by (auto simp: daemon_main_serving)
  have "dr_status (fst (serve site_lib d0 site_pair_start)) = StatusOK \<and>
     dr_status (fst (serve site_lib (serve_run site_lib d0 [site_pair_start]) site_pair_password)) = StatusOK"
    by (rule setup_credentials_accepted [where e = "[newline]" and rest = "[]" and w = site_world and lib = site_lib and fl = ?fl
          and host = "site_host emptyDB" and rnd = "''n''" and raw = "replicate 32 (CHR 0x00)" and secret = "''S''"
          and uri = "''otpauth''"
          and sbody = "\<lambda>k. if k = ''device_pubkey'' then ''AAAAAAAAAAAAAAAAAAAAAAAAAAAAAAAAAAAAAAAAAAA='' else []"
          and pbody = "\<lambda>k. if k = ''pairing_id'' then hex_encode ''n'' else if k = ''email'' then ''owner'' else if k = ''password'' then ''pw'' else []",
          OF pw(1-3) _ _ _ pw(4) len email _ _ out _ _ _ serving])
      (use set demo_key in \<open>simp_all add: site_world_def site_pair_start_def site_pair_password_def site_call_def posts_def
          maxJSONBody_def PublicKeySize_def time_simps\<close>)
  with serving show ?thesis by blast
qed

end
