(* ===== verification/Daemon_Kills.thy ===== *)
theory Daemon_Kills
  imports Daemon_Client Terminal_Race
begin

text \<open>
  A daemon that is killed while it works on a terminal request. Creating and closing a session are several
  calls, to tmux, the database and the lock directory, and the process can end between any two of them.
  What is then on the host is the effect of the steps taken so far.
\<close>


section \<open>A terminal request cut off\<close>

abbreviation cut_off :: "nat \<Rightarrow> 'x term_env \<Rightarrow> term_call \<Rightarrow> ws_call \<Rightarrow> http_request \<Rightarrow> 'x term_state \<Rightarrow> 'x term_state" where
  "cut_off n env c w r s \<equiv> snd (alone (term_thread_step env) n (Arrived c w r) s)"

abbreviation same_rows :: "'x term_state \<Rightarrow> 'x term_state \<Rightarrow> bool" where
  "same_rows s s' \<equiv> session_ids (ts_db s') = session_ids (ts_db s) \<and> (\<forall>k. open_in (ts_db s') k = open_in (ts_db s) k)"

lemma nat_until_three:
  obtains "n = 0" | "n = Suc 0" | "n = Suc (Suc 0)" | m where "n = Suc (Suc (Suc m))"
  by (metis not0_implies_Suc)

lemma cut_create:
  assumes "s' = snd (alone (term_thread_step env) n (CreateRow c row) s)" and "s_Status row = []"
  obtains (none) "same_rows s s'" "ts_locks s' = ts_locks s"
  | (row) "s_ID row \<notin> set (session_ids (ts_db s))"
      "session_ids (ts_db s') = session_ids (ts_db s) @ [s_ID row]"
      "\<forall>j. open_in (ts_db s') j = (j = s_ID row \<or> open_in (ts_db s) j)"
      "ts_locks s' = (if n < 2 then ts_locks s else snd (Acquire (te_locks env) (tc_lock_fault c) (ts_locks s) (s_ID row)))"
proof -
  obtain res db1 where cr: "CreateSession (tc_write_fault c) (tc_unix c) (ts_db s) row = (res, db1)" by fastforce
  show ?thesis
  proof (cases res)
    case (Inl e)
    with cr CreateSession_error have db1: "db1 = ts_db s" by simp
    have "same_rows s s' \<and> ts_locks s' = ts_locks s"
      by (cases n rule: nat_until_three) (simp_all add: assms(1) cr Inl db1)
    then show ?thesis using none by simp
  next
    case (Inr u)
    note ok = cr [unfolded Inr]
    have "s_ID row \<notin> set (session_ids (ts_db s))"
      using ok by (auto simp: CreateSession_def session_constraints_def session_ids_def Let_def split: if_splits)
    moreover have "n = 0 \<or> ts_db s' = db1"
      by (cases n rule: nat_until_three) (simp_all add: assms(1) ok split: sum.split prod.split)
    moreover have "ts_locks s' = (if n < 2 then ts_locks s else snd (Acquire (te_locks env) (tc_lock_fault c) (ts_locks s) (s_ID row)))"
      by (cases n rule: nat_until_three) (simp_all add: assms(1) ok split: sum.split prod.split)
    ultimately show ?thesis
      using none row open_in_Create [OF ok assms(2)] session_ids_Create [OF ok] by (cases n) (auto simp: assms(1))
  qed
qed

lemma CloseSession_was_open:
  assumes "CloseSession f now db sid = (Inr u, db')" "distinct (session_ids db)"
  shows "open_in db sid"
proof -
  obtain r where r: "r \<in> set (sessions db)" "sr_id r = sid" "sr_status r = Some StatusOpen"
    using assms(1)
    by (auto simp: CloseSession_def sql_update_def requireOneRow_def Let_def filter_empty_conv split: if_splits)
  then have "session_at db sid = Some r"
    using assms(2) find_key_distinct by (auto simp: session_at_def session_ids_def)
  with r(3) show ?thesis by (simp add: open_in_def)
qed

lemma cut_close:
  assumes "s' = snd (alone (term_thread_step env) n (CloseRow c sid row) s)"
  obtains (none) "same_rows s s'" "ts_locks s' = ts_locks s"
  | (closed) "sid \<in> set (session_ids (ts_db s))" "distinct (session_ids (ts_db s)) \<Longrightarrow> open_in (ts_db s) sid"
      "session_ids (ts_db s') = session_ids (ts_db s)"
      "\<forall>j. open_in (ts_db s') j = (open_in (ts_db s) j \<and> j \<noteq> sid)"
      "ts_locks s' = (if n < 3 then ts_locks s else snd (Release (te_locks env) (tc_lock_fault c) (ts_locks s) sid))"
proof -
  obtain res db1 where cl: "CloseSession (tc_write_fault c) (tc_unix c) (ts_db s) sid = (res, db1)" by fastforce
  then have db1: "db1 = snd (CloseSession (tc_write_fault c) (tc_unix c) (ts_db s) sid)" by simp
  show ?thesis
  proof (cases res)
    case (Inl e)
    with cl CloseSession_error have "db1 = ts_db s" by simp
    then have "same_rows s s' \<and> ts_locks s' = ts_locks s"
      by (cases n rule: nat_until_three) (simp_all add: assms cl Inl)
    then show ?thesis using none by simp
  next
    case (Inr u)
    note ok = cl [unfolded Inr]
    have "\<not> tc_write_fault c" "sid \<in> set (session_ids (ts_db s))"
      using CloseSession_ok [OF ok] by (auto simp: session_ids_def)
    moreover have "n = 0 \<or> ts_db s' = db1"
      by (cases n rule: nat_until_three) (simp_all add: assms ok split: sum.split prod.split)
    moreover have "ts_locks s' = (if n < 3 then ts_locks s else snd (Release (te_locks env) (tc_lock_fault c) (ts_locks s) sid))"
      by (cases n rule: nat_until_three) (simp_all add: assms ok split: sum.split prod.split)
    ultimately show ?thesis
      using none closed CloseSession_was_open [OF ok] by (cases n) (auto simp: assms db1)
  qed
qed

text \<open>An id of the daemon is not the last element of a stream's path.\<close>

lemma hex_not_stream: "hex_encode rnd \<noteq> ''stream''"
proof
  assume "hex_encode rnd = ''stream''"
  then obtain c cs where "rnd = c # cs" "hex_digit (byte c div 16) = CHR ''s''" by (cases rnd) auto
  moreover have "byte c div 16 < 16" using nat_of_char_less_256 [of c] by (simp add: div_less_iff_less_mult)
  moreover have "\<forall>n \<in> {..<16}. hex_digit n \<noteq> CHR ''s''" by code_simp
  ultimately show False by blast
qed

text \<open>
  What is left of a request after its first \<open>n\<close> steps: nothing; or a new row, with its lock from the third step on;
  or a closed row, without its lock from the fourth step on.
\<close>

lemma cut_cases:
  obtains (none) "same_rows s (cut_off n env c w r s)" "ts_locks (cut_off n env c w r s) = ts_locks s"
  | (row) sid where "sid \<notin> set (session_ids (ts_db s))" "ident_string sid" "closing r = None"
      "session_ids (ts_db (cut_off n env c w r s)) = session_ids (ts_db s) @ [sid]"
      "\<forall>j. open_in (ts_db (cut_off n env c w r s)) j = (j = sid \<or> open_in (ts_db s) j)"
      "ts_locks (cut_off n env c w r s) =
         (if n < 3 then ts_locks s else snd (Acquire (te_locks env) (tc_lock_fault c) (ts_locks s) sid))" "sid \<noteq> ''stream''"
  | (closed) sid where "sid \<in> set (session_ids (ts_db s))" "distinct (session_ids (ts_db s)) \<Longrightarrow> open_in (ts_db s) sid"
      "closing r = Some sid" "session_ids (ts_db (cut_off n env c w r s)) = session_ids (ts_db s)"
      "\<forall>j. open_in (ts_db (cut_off n env c w r s)) j = (open_in (ts_db s) j \<and> j \<noteq> sid)"
      "ts_locks (cut_off n env c w r s) =
         (if n < 4 then ts_locks s else snd (Release (te_locks env) (tc_lock_fault c) (ts_locks s) sid))"
proof (cases n)
  case 0
  then show ?thesis using none by simp
next
  case (Suc m)
  obtain t s1 where at: "arrive env c w r s = (t, s1)" by fastforce
  with Suc have cut: "cut_off n env c w r s = snd (alone (term_thread_step env) m t s1)" by simp
  show ?thesis
  proof (cases rule: arrive_cases [where env = env and c = c and w = w and r = r and s = s])
    case (create name cwd shell)
    then have start: "start_create env c s name cwd shell = (t, s1)" using at by simp
    show ?thesis
    proof (cases rule: start_create_cases [where env = env and c = c and s = s and name = name and cwd = cwd and shell = shell])
      case (failed resp x)
      with start have t: "t = term_thread.Answered resp" "s1 = s\<lparr>ts_tmux := x\<rparr>" by simp_all
      show ?thesis by (rule none) (simp_all add: cut t)
    next
      case (made rw x rnd)
      with start have t: "t = CreateRow c rw" "s1 = s\<lparr>ts_tmux := x\<rparr>" by simp_all
      have id: "ident_string (s_ID rw)" using made(2) hex_encode_ident by simp
      show ?thesis
      proof (cases rule: cut_create [OF cut [unfolded t] made(3)])
        case 1
        then show ?thesis by (intro none) simp_all
      next
        case 2
        then show ?thesis by (intro row [OF _ id create(2)]) (simp_all add: Suc made(2) hex_not_stream)
      qed
    qed
  next
    case (close sid)
    then have start: "start_close c s sid = (t, s1)" using at by simp
    show ?thesis
    proof (cases "GetSession (tc_read_fault c) (ts_db s) sid")
      case (Inl e)
      with start have t: "t = term_thread.Answered (close_reply (Some (TermDB e)))" "s1 = s" by (simp_all add: start_close_def)
      show ?thesis by (rule none) (simp_all add: cut t)
    next
      case (Inr rw)
      with start have t: "t = CloseRow c sid rw" "s1 = s" by (simp_all add: start_close_def)
      show ?thesis
      proof (cases rule: cut_close [OF cut [unfolded t]])
        case 1
        then show ?thesis by (intro none) simp_all
      next
        case 2
        then show ?thesis by (intro closed [of sid, OF _ _ close(2)]) (simp_all add: Suc)
      qed
    qed
  next
    case (quiet resp s')
    with at have t: "t = term_thread.Answered resp" "s1 = s'" by simp_all
    show ?thesis by (rule none) (simp_all add: cut t quiet)
  qed
qed


section \<open>A request of the daemon cut off\<close>

text \<open>
  The process ends after \<open>n\<close> steps of a terminal request, which has passed the middleware before its first step.
  There is no answer. The other routes touch neither sessions nor locks, or do so in one statement.
\<close>

definition term_mux_killed ::
    "nat \<Rightarrow> ('wa, 'user, 'sess, 'parsed, 'x) dm_env \<Rightarrow> dm_call \<Rightarrow> ('wa, 'user, 'sess, 'x) handler" where
  "term_mux_killed n env c r d =
     (let s = cut_off n (de_term env) (dc_term c) (dc_ws c) r
                \<lparr>ts_db = dm_db d, ts_locks = dm_locks d, ts_tmux = dm_tmux d\<rparr>
      in (\<lparr>dr_status = 0, dr_headers = [], dr_body = EmptyReply\<rparr>,
          d\<lparr>dm_db := ts_db s, dm_locks := ts_locks s, dm_tmux := ts_tmux s\<rparr>))"

definition serve_killed ::
    "nat \<Rightarrow> ('wa, 'user, 'sess, 'parsed, 'x) dm_env \<Rightarrow> ('wa, 'user, 'sess, 'x) daemon \<Rightarrow> dm_call \<Rightarrow>
     ('wa, 'user, 'sess, 'x) daemon" where
  "serve_killed n env d c =
     (case PathUnescape (dc_escaped c) of
        None \<Rightarrow> d
      | Some p \<Rightarrow>
          if findHandler root_table (req_method (dc_req c)) (dc_escaped c) = Handler Sessions
          then snd (limitRequestBody c
                 (if de_insecure env then term_mux_killed n env c else wrapSessionAuth env c (term_mux_killed n env c))
                 ((dc_req c)\<lparr>req_path := p, req_device := None\<rparr>) d)
          else snd (serve env d c))"

text \<open>A request that is cut off after its last step was served.\<close>

lemma alone_stopped: "step t s = None \<Longrightarrow> alone step k t s = (t, s)"
  by (cases k) simp_all

lemma alone_add: "alone step (m + k) t s = (case alone step m t s of (t', s') \<Rightarrow> alone step k t' s')"
proof (induction m arbitrary: t s)
  case (Suc m)
  then show ?case by (cases "step t s") (auto simp: alone_stopped)
qed simp

lemma alone_more:
  assumes "4 \<le> n"
  shows "cut_off n env c w r s = snd (Routes env c w s r)"
  using alone_add [of "term_thread_step env" 4 "n - 4"] assms by (simp add: alone_Routes)

abbreviation term_part :: "('wa, 'user, 'sess, 'x) daemon \<Rightarrow> 'x term_state" where
  "term_part d \<equiv> \<lparr>ts_db = dm_db d, ts_locks = dm_locks d, ts_tmux = dm_tmux d\<rparr>"

lemma term_mux_killed_done: "4 \<le> n \<Longrightarrow> snd (term_mux_killed n env c r d) = snd (term_mux env c r d)"
  by (simp add: term_mux_killed_def term_mux_def alone_more Let_def case_prod_beta)

lemma RequireDevice_state:
  assumes "\<And>r d. snd (f r d) = snd (g r d)"
  shows "snd (RequireDevice env c f r d) = snd (RequireDevice env c g r d)"
  by (simp add: RequireDevice_def Let_def assms split: option.split prod.split)

lemma wrapSessionAuth_state:
  assumes "\<And>r d. snd (f r d) = snd (g r d)"
  shows "snd (wrapSessionAuth env c f r d) = snd (wrapSessionAuth env c g r d)"
  using RequireDevice_state [of f g env c r d, OF assms] by (simp add: wrapSessionAuth_def Let_def assms split: prod.split bool.split)

lemma serve_killed_routed:
  assumes "PathUnescape (dc_escaped c) = Some p"
    and "findHandler root_table (req_method (dc_req c)) (dc_escaped c) = Handler Sessions"
  shows "serve_killed n env d c = snd
     ((if de_insecure env then term_mux_killed n env c else wrapSessionAuth env c (term_mux_killed n env c)) (routed_request c p) d)"
  using assms by (simp add: serve_killed_def limitRequestBody_def routed_request_def Let_def)

lemma serve_killed_other:
  assumes "findHandler root_table (req_method (dc_req c)) (dc_escaped c) \<noteq> Handler Sessions"
  shows "serve_killed n env d c = snd (serve env d c)"
  using assms by (simp add: serve_killed_def serve_def split: option.split)

lemma serve_killed_done:
  assumes "4 \<le> n"
  shows "serve_killed n env d c = snd (serve env d c)"
proof (cases "findHandler root_table (req_method (dc_req c)) (dc_escaped c) = Handler Sessions")
  case False
  then show ?thesis by (rule serve_killed_other)
next
  case True
  show ?thesis
  proof (cases "PathUnescape (dc_escaped c)")
    case None
    then show ?thesis by (simp add: serve_killed_def serve_def)
  next
    case (Some p)
    show ?thesis
      unfolding serve_killed_routed [OF Some True] serve_routed(1) [OF Some True]
      using wrapSessionAuth_state [of "term_mux_killed n env c" "term_mux env c" env c "routed_request c p" d,
        OF term_mux_killed_done [OF assms]]
      by (simp add: serve_route_def term_mux_killed_done [OF assms])
  qed
qed



section \<open>What a request does to the sessions\<close>

abbreviation same_sessions :: "('wa, 'user, 'sess, 'x) daemon \<Rightarrow> ('wa, 'user, 'sess, 'x) daemon \<Rightarrow> bool" where
  "same_sessions d d' \<equiv> sessions (dm_db d') = sessions (dm_db d) \<and> dm_locks d' = dm_locks d"

lemma RequireDevice_same_sessions:
  assumes "\<And>r d. same_sessions d (snd (nxt r d))"
  shows "same_sessions d (snd (RequireDevice env c nxt r d))"
  by (cases rule: RequireDevice_cases [where env = env and c = c and nxt = nxt and r = r and d = d])
    (use assms in simp_all)

lemma devices_mux_same_sessions: "same_sessions d (snd (devices_mux c r d))"
  by (auto simp: devices_mux_def RegisterDeviceManagement_def handleDevicesRevoke_def StoreRevokeDevice_def case_prod_beta
      split: json_body.split prod.split sum.split db_error.split dest: arg_cong [of _ _ "\<lambda>x. sessions (snd x)"])

lemma other_mux_same_sessions:
  "same_sessions d (snd (files_mux env c r d))" "same_sessions d (snd (pairing_mux env c r d))"
  "same_sessions d (snd (RequireStepUp c act (devices_mux c) r d))"
  "same_sessions d (snd (handleAuthWSTicket c r d))" "same_sessions d (snd (handleAuthChallenge c r d))"
proof -
  show "same_sessions d (snd (pairing_mux env c r d))" using pairing_mux_open(2) [of env c r d] by simp
  show "same_sessions d (snd (RequireStepUp c act (devices_mux c) r d))"
    by (simp add: RequireStepUp_def devices_mux_same_sessions split: option.split prod.split)
qed (simp_all add: files_mux_def handleAuthWSTicket_def handleAuthChallenge_def case_prod_beta
    split: json_body.split option.split sum.split prod.split)

lemmas guarded_same_sessions =
  RequireDevice_same_sessions [OF other_mux_same_sessions(1)] RequireDevice_same_sessions [OF devices_mux_same_sessions]
  RequireDevice_same_sessions [OF other_mux_same_sessions(3)] RequireDevice_same_sessions [OF other_mux_same_sessions(4)]

text \<open>
  A request leaves the sessions and the locks alone, or it is a request of the terminal routes, cut off or
  complete, which authenticated itself, by a ticket only if its path is that of a stream.
\<close>

lemma serve_killed_sessions:
  obtains (same) "same_sessions d (serve_killed n env d c)"
  | (terminal) p r where "PathUnescape (dc_escaped c) = Some p" "req_path r = p" "req_method r = req_method (dc_req c)"
      "de_insecure env \<or> (\<exists>did. header_ok env d c did) \<or> HasSuffix p ''/stream''"
      "dm_db (serve_killed n env d c) = ts_db (cut_off n (de_term env) (dc_term c) (dc_ws c) r (term_part d))"
      "dm_locks (serve_killed n env d c) = ts_locks (cut_off n (de_term env) (dc_term c) (dc_ws c) r (term_part d))"
proof (cases "findHandler root_table (req_method (dc_req c)) (dc_escaped c) = Handler Sessions")
  case False
  have "same_sessions d (snd (serve env d c))"
  proof (cases rule: serve_cases [where env = env and d = d and c = c])
    case unrouted
    then show ?thesis by simp
  next
    case (routed p rt hs)
    with False show ?thesis
      by (cases rt) (simp_all add: serve_route_def case_prod_beta other_mux_same_sessions guarded_same_sessions)
  qed
  then show ?thesis using same by (simp add: serve_killed_other [OF False])
next
  case route: True
  show ?thesis
  proof (cases "PathUnescape (dc_escaped c)")
    case None
    then show ?thesis by (intro same) (simp add: serve_killed_def)
  next
    case (Some p)
    let ?r = "routed_request c p" and ?mux = "term_mux_killed n env c"
    have mux: ?thesis
      if "serve_killed n env d c = snd (?mux r d')" "req_path r = p" "req_method r = req_method (dc_req c)"
        "dm_db d' = dm_db d" "dm_locks d' = dm_locks d" "dm_tmux d' = dm_tmux d"
        "de_insecure env \<or> (\<exists>did. header_ok env d c did) \<or> HasSuffix p ''/stream''" for r d'
      by (rule terminal [OF Some that(2,3,7)]) (simp_all add: that(1,4-6) term_mux_killed_def Let_def)
    show ?thesis
    proof (cases "de_insecure env")
      case True
      then show ?thesis by (intro mux [of ?r d]) (simp_all add: serve_killed_routed [OF Some route])
    next
      case False
      then have srv: "serve_killed n env d c = snd (wrapSessionAuth env c ?mux ?r d)"
        by (simp add: serve_killed_routed [OF Some route])
      show ?thesis
      proof (cases rule: wrapSessionAuth_cases [where env = env and c = c and nxt = ?mux and r = ?r and d = d])
        case refused
        then show ?thesis using srv by (intro same) simp
      next
        case (ticket ts)
        then show ?thesis using srv by (intro mux [of ?r "d\<lparr>dm_tickets := ts\<rparr>"]) simp_all
      next
        case header
        show ?thesis
        proof (cases rule: RequireDevice_cases [where env = env and c = c and nxt = ?mux and r = ?r and d = d])
          case refused
          then show ?thesis using srv header by (intro same) simp
        next
          case (passed a did sg)
          have "\<exists>did. header_ok env d c did" using header_ok_request [OF passed(1,3,4)] by blast
          then show ?thesis using srv header passed(6)
            by (intro mux [of "?r\<lparr>req_device := Some did\<rparr>" "d\<lparr>dm_auth := a\<rparr>"]) simp_all
        qed
      qed
    qed
  qed
qed

end
