(* ===== verification/Daemon_Sessions.thy ===== *)
theory Daemon_Sessions
  imports Daemon_Kills
begin

text \<open>
  Terminal sessions over the whole life of an installation: any number of starts of the daemon, each
  serving any requests until it stops or is killed, between two requests or in the middle of one, on the database,
  the locks, the files and the tmux server that the one before left behind.
\<close>


section \<open>The life of an installation\<close>

text \<open>What is left on the host when the process ends; everything else was in its memory.\<close>

definition shut_down :: "'x host \<Rightarrow> flags \<Rightarrow> ('wa, 'user, 'sess, 'x) daemon \<Rightarrow> 'x host" where
  "shut_down h fl d = h\<lparr>ho_fs := dm_files d, ho_db := (ho_db h)(fl_db fl := Some (dm_db d)), ho_locks := dm_locks d,
     ho_tmux := dm_tmux d\<rparr>"

text \<open>
  A life: the daemon is started on what is there, in a way that meets \<open>st\<close>, serves some
  requests that meet \<open>ok\<close>, and ends between two of them or is killed in the middle of one. The number
  counts the kills of the second kind.
\<close>

inductive lives ::
    "('wa, 'user, 'sess, 'parsed, 'x) dm_env \<Rightarrow>
     (flags \<Rightarrow> ('wa, 'user, 'sess, 'parsed, 'x) dm_env \<Rightarrow> ('wa, 'user, 'sess, 'x) daemon \<Rightarrow> bool) \<Rightarrow>
     (dm_call \<Rightarrow> bool) \<Rightarrow> 'x host \<Rightarrow> nat \<Rightarrow> 'x host \<Rightarrow> bool"
  for lib st ok h0 where
  installed: "lives lib st ok h0 0 h0"
| epoch: "lives lib st ok h0 n h \<Longrightarrow> startDaemon lib fl h = Inr (env, d) \<Longrightarrow> st fl env d \<Longrightarrow>
    \<forall>c \<in> set cs. ok c \<Longrightarrow> lives lib st ok h0 n (shut_down h fl (serve_run env d cs))"
| killed: "lives lib st ok h0 n h \<Longrightarrow> startDaemon lib fl h = Inr (env, d) \<Longrightarrow> st fl env d \<Longrightarrow>
    \<forall>c \<in> set cs. ok c \<Longrightarrow> ok c \<Longrightarrow> lives lib st ok h0 (Suc n) (shut_down h fl (serve_killed k env (serve_run env d cs) c))"

text \<open>Starts on one lock directory and one database.\<close>

definition same_place ::
    "string \<Rightarrow> string \<Rightarrow> flags \<Rightarrow> ('wa, 'user, 'sess, 'parsed, 'x) dm_env \<Rightarrow> ('wa, 'user, 'sess, 'x) daemon \<Rightarrow> bool" where
  "same_place dir path fl env d \<longleftrightarrow> fl_lock_dir fl = dir \<and> fl_db fl = path"

definition lock_dir_of :: "string \<Rightarrow> lock_manager" where
  "lock_dir_of dir = \<lparr>lm_dir = (if dir = [] then DefaultDir else dir)\<rparr>"

lemma lock_dir_of_nonempty [simp]: "lm_dir (lock_dir_of dir) \<noteq> []"
  by (simp add: lock_dir_of_def DefaultDir_def)

lemma startDaemon_sessions:
  assumes "startDaemon lib fl host = Inr (env, d0)"
  shows "te_locks (de_term env) = lock_dir_of (fl_lock_dir fl)" "ho_db host (fl_db fl) = Some (dm_db d0)"
    "dm_locks d0 = ho_locks host"
proof -
  show "te_locks (de_term env) = lock_dir_of (fl_lock_dir fl)"
    using assms by (auto simp: startDaemon_def New_def lock_dir_of_def Let_def split: option.splits prod.splits sum.splits if_splits)
  show "ho_db host (fl_db fl) = Some (dm_db d0)" "dm_locks d0 = ho_locks host"
    by (cases rule: startDaemon_result [OF assms]; simp add: newRouter_def Let_def)+
qed

text \<open>
  Facts about the rows and the locks that every request keeps, complete or cut off, hold for the life. \<open>P n\<close> may
  allow for \<open>n\<close> kills.
\<close>

lemma lives_keep:
  fixes lib :: "('wa, 'user, 'sess, 'parsed, 'x) dm_env"
  assumes "lives lib st ok h0 n h" and st: "\<And>fl env d. st fl env d \<Longrightarrow> same_place dir path fl env d"
    and "ho_db h0 path = Some db0" "P 0 (sessions db0) (ho_locks h0)"
    and request: "\<And>(env :: ('wa, 'user, 'sess, 'parsed, 'x) dm_env) d c n.
        te_locks (de_term env) = lock_dir_of dir \<Longrightarrow> ok c \<Longrightarrow>
        P n (sessions (dm_db d)) (dm_locks d) \<Longrightarrow> P n (sessions (dm_db (snd (serve env d c)))) (dm_locks (snd (serve env d c)))"
    and kill: "\<And>(env :: ('wa, 'user, 'sess, 'parsed, 'x) dm_env) d c n k.
        te_locks (de_term env) = lock_dir_of dir \<Longrightarrow> ok c \<Longrightarrow>
        P n (sessions (dm_db d)) (dm_locks d) \<Longrightarrow>
        P (Suc n) (sessions (dm_db (serve_killed k env d c))) (dm_locks (serve_killed k env d c))"
  shows "\<exists>db. ho_db h path = Some db \<and> P n (sessions db) (ho_locks h)"
proof -
  have run: "P n (sessions (dm_db (serve_run env d cs))) (dm_locks (serve_run env d cs)) \<and> te_locks (de_term env) = lock_dir_of dir"
    if "startDaemon lib fl h = Inr (env, d)" "st fl env d" "\<forall>c \<in> set cs. ok c"
      "\<exists>db. ho_db h path = Some db \<and> P n (sessions db) (ho_locks h)" for fl h and env :: "('wa, 'user, 'sess, 'parsed, 'x) dm_env" and d cs n
  proof -
    note start = startDaemon_sessions [OF that(1)]
    have at: "fl_lock_dir fl = dir" "fl_db fl = path" using st [OF that(2)] by (simp_all add: same_place_def)
    have P0: "P n (sessions (dm_db d)) (dm_locks d)" using that(4) start at by simp
    have env: "te_locks (de_term env) = lock_dir_of dir" using start(1) at by simp
    have "P n (sessions (dm_db (serve_run env d cs))) (dm_locks (serve_run env d cs))"
      by (rule run_steps_invariant [where P = "\<lambda>d. P n (sessions (dm_db d)) (dm_locks d)"])
        (use P0 request [OF env] that(3) in \<open>auto simp: serve_step_def\<close>)
    with env show ?thesis by simp
  qed
  from assms(1) show ?thesis
  proof (induction rule: lives.induct)
    case installed
    with assms(3,4) show ?case by simp
  next
    case (epoch n h fl env d cs)
    from run [OF epoch(2-4) epoch.IH] st [OF epoch(3)] show ?case by (simp add: shut_down_def same_place_def)
  next
    case (killed n h fl env d cs c k)
    from run [OF killed(2-4) killed.IH] kill killed(5) st [OF killed(3)] show ?case
      by (simp add: shut_down_def same_place_def)
  qed
qed


section \<open>Locks\<close>

abbreviation rows_db :: "session_row list \<Rightarrow> DB" where
  "rows_db rows \<equiv> \<lparr>sessions = rows, devices = []\<rparr>"

lemma rows_db_sessions [simp]:
  "open_in (rows_db (sessions db)) sid = open_in db sid" "session_ids (rows_db (sessions db)) = session_ids db"
  using open_in_sessions [of "rows_db (sessions db)" db sid] by simp_all

lemma Held_Acquire:
  assumes "lm_dir m \<noteq> []" "ident_string k" "ident_string j"
  shows "Held m (snd (Acquire m f fs k)) j \<longleftrightarrow> j = k \<and> \<not> f \<or> Held m fs j"
proof (cases "j = k")
  case True
  then show ?thesis by (simp add: Acquire_def Held_def)
next
  case False
  then show ?thesis using term_lock.acquire_other [of m k j f fs] assms by simp
qed

lemma Held_Release:
  assumes "lm_dir m \<noteq> []" "ident_string k" "ident_string j"
  shows "Held m (snd (Release m f fs k)) j \<longleftrightarrow> Held m fs j \<and> (j \<noteq> k \<or> f)"
proof (cases "j = k")
  case True
  then show ?thesis by (auto simp: Release_def Held_def)
next
  case False
  then show ?thesis using term_lock.release_other [of m k j f fs] assms by simp
qed






section \<open>What no request repairs\<close>

lemma lives_cut_keep:
  fixes lib :: "('wa, 'user, 'sess, 'parsed, 'x) dm_env"
  assumes "lives lib st ok h0 n h" and "\<And>fl env d. st fl env d \<Longrightarrow> same_place dir path fl env d"
    and "ho_db h0 path = Some db0" "P (sessions db0) (ho_locks h0)"
    and cut: "\<And>(tenv :: 'x term_env) c w r s k. te_locks tenv = lock_dir_of dir \<Longrightarrow> P (sessions (ts_db s)) (ts_locks s) \<Longrightarrow>
        P (sessions (ts_db (cut_off k tenv c w r s))) (ts_locks (cut_off k tenv c w r s))"
  shows "\<exists>db. ho_db h path = Some db \<and> P (sessions db) (ho_locks h)"
proof -
  have kill: "P (sessions (dm_db (serve_killed k env d c))) (dm_locks (serve_killed k env d c))"
    if "te_locks (de_term env) = lock_dir_of dir" "P (sessions (dm_db d)) (dm_locks d)"
    for env :: "('wa, 'user, 'sess, 'parsed, 'x) dm_env" and d :: "('wa, 'user, 'sess, 'x) daemon" and c :: dm_call and k
  proof (cases rule: serve_killed_sessions [where env = env and d = d and c = c and n = k])
    case same
    with that(2) show ?thesis by simp
  next
    case (terminal p r)
    with cut [OF that(1), of "term_part d"] that(2) show ?thesis by simp
  qed
  show ?thesis
  proof (rule lives_keep [OF assms(1-3), where P = "\<lambda>_. P"])
    fix env :: "('wa, 'user, 'sess, 'parsed, 'x) dm_env" and d :: "('wa, 'user, 'sess, 'x) daemon" and c :: dm_call
    assume "te_locks (de_term env) = lock_dir_of dir" "P (sessions (dm_db d)) (dm_locks d)"
    from kill [OF this, of 4 c] show "P (sessions (dm_db (snd (serve env d c)))) (dm_locks (snd (serve env d c)))"
      by (simp add: serve_killed_done)
  qed (fact assms(4) | rule kill | assumption)+
qed

text \<open>Locks are taken for rows only, and a row is stored before its lock is taken.\<close>

definition orderly :: "lock_manager \<Rightarrow> session_row list \<Rightarrow> lock_fs \<Rightarrow> bool" where
  "orderly m rows fs \<longleftrightarrow>
     distinct (session_ids (rows_db rows)) \<and> (\<forall>k \<in> set (session_ids (rows_db rows)). ident_string k) \<and>
     (\<forall>k. ident_string k \<longrightarrow> Held m fs k \<longrightarrow> k \<in> set (session_ids (rows_db rows)))"

definition never_locked :: "lock_manager \<Rightarrow> string \<Rightarrow> session_row list \<Rightarrow> lock_fs \<Rightarrow> bool" where
  "never_locked m sid rows fs \<longleftrightarrow> orderly m rows fs \<and> sid \<in> set (session_ids (rows_db rows)) \<and> \<not> Held m fs sid"

definition left_locked :: "lock_manager \<Rightarrow> string \<Rightarrow> session_row list \<Rightarrow> lock_fs \<Rightarrow> bool" where
  "left_locked m sid rows fs \<longleftrightarrow>
     orderly m rows fs \<and> sid \<in> set (session_ids (rows_db rows)) \<and> \<not> open_in (rows_db rows) sid \<and> Held m fs sid"

lemma cut_orderly:
  assumes "orderly (te_locks env) (sessions (ts_db s)) (ts_locks s)" "te_locks env = lock_dir_of dir"
  shows "orderly (te_locks env) (sessions (ts_db (cut_off n env c w r s))) (ts_locks (cut_off n env c w r s))"
proof (cases rule: cut_cases [where s = s and n = n and env = env and c = c and w = w and r = r])
  case none
  with assms(1) show ?thesis by (simp add: orderly_def)
next
  case (row sid)
  with assms show ?thesis by (auto simp: orderly_def Held_Acquire)
next
  case (closed sid)
  with assms show ?thesis by (auto simp: orderly_def Held_Release)
qed

lemma cut_never_locked:
  assumes "never_locked (te_locks env) sid (sessions (ts_db s)) (ts_locks s)" "te_locks env = lock_dir_of dir"
  shows "never_locked (te_locks env) sid (sessions (ts_db (cut_off n env c w r s))) (ts_locks (cut_off n env c w r s))"
proof -
  have o: "orderly (te_locks env) (sessions (ts_db s)) (ts_locks s)" and at: "sid \<in> set (session_ids (ts_db s))"
    using assms(1) by (simp_all add: never_locked_def)
  have id: "\<And>k. k \<in> set (session_ids (ts_db s)) \<Longrightarrow> ident_string k" and d: "distinct (session_ids (ts_db s))"
    using o by (simp_all add: orderly_def)
  have dir: "lm_dir (te_locks env) \<noteq> []" by (simp add: assms(2))
  note o' = cut_orderly [OF o assms(2), of n c w r]
  show ?thesis
  proof (cases rule: cut_cases [where s = s and n = n and env = env and c = c and w = w and r = r])
    case none
    with assms(1) o' show ?thesis by (simp add: never_locked_def)
  next
    case (row k)
    have "k \<noteq> sid" using row(1) at by blast
    with row assms(1) o' at show ?thesis by (simp add: never_locked_def Held_Acquire [OF dir row(2) id [OF at]])
  next
    case (closed k)
    with closed assms(1) o' at show ?thesis by (simp add: never_locked_def Held_Release [OF dir id [OF closed(1)] id [OF at]])
  qed
qed

lemma cut_left_locked:
  assumes "left_locked (te_locks env) sid (sessions (ts_db s)) (ts_locks s)" "te_locks env = lock_dir_of dir"
  shows "left_locked (te_locks env) sid (sessions (ts_db (cut_off n env c w r s))) (ts_locks (cut_off n env c w r s))"
proof -
  have o: "orderly (te_locks env) (sessions (ts_db s)) (ts_locks s)" and at: "sid \<in> set (session_ids (ts_db s))"
    using assms(1) by (simp_all add: left_locked_def)
  have id: "\<And>k. k \<in> set (session_ids (ts_db s)) \<Longrightarrow> ident_string k" and d: "distinct (session_ids (ts_db s))"
    using o by (simp_all add: orderly_def)
  have dir: "lm_dir (te_locks env) \<noteq> []" by (simp add: assms(2))
  note o' = cut_orderly [OF o assms(2), of n c w r]
  show ?thesis
  proof (cases rule: cut_cases [where s = s and n = n and env = env and c = c and w = w and r = r])
    case none
    with assms(1) o' show ?thesis by (simp add: left_locked_def)
  next
    case (row k)
    have "k \<noteq> sid" using row(1) at by blast
    with row assms(1) o' at show ?thesis by (simp add: left_locked_def Held_Acquire [OF dir row(2) id [OF at]])
  next
    case (closed k)
    have "k \<noteq> sid" using closed(2) [OF d] assms(1) by (auto simp: left_locked_def)
    with closed assms(1) o' at show ?thesis by (simp add: left_locked_def Held_Release [OF dir id [OF closed(1)] id [OF at]])
  qed
qed

lemma lives_orderly:
  fixes lib :: "('wa, 'user, 'sess, 'parsed, 'x) dm_env"
  assumes "lives lib st ok h0 n h" "\<And>fl env d. st fl env d \<Longrightarrow> same_place dir path fl env d" "ho_db h0 path = Some db0"
    "orderly (lock_dir_of dir) (sessions db0) (ho_locks h0)"
  shows "\<exists>db. ho_db h path = Some db \<and> orderly (lock_dir_of dir) (sessions db) (ho_locks h)"
proof (rule lives_cut_keep [where P = "orderly (lock_dir_of dir)", OF assms])
  fix tenv :: "'x term_env" and c w r and s :: "'x term_state" and k
  assume "te_locks tenv = lock_dir_of dir" "orderly (lock_dir_of dir) (sessions (ts_db s)) (ts_locks s)"
  then show "orderly (lock_dir_of dir) (sessions (ts_db (cut_off k tenv c w r s))) (ts_locks (cut_off k tenv c w r s))"
    using cut_orderly [of tenv s dir k c w r] by simp
qed

lemma lives_never_locked:
  fixes lib :: "('wa, 'user, 'sess, 'parsed, 'x) dm_env"
  assumes "lives lib st ok h0 n h" "\<And>fl env d. st fl env d \<Longrightarrow> same_place dir path fl env d" "ho_db h0 path = Some db0"
    "never_locked (lock_dir_of dir) sid (sessions db0) (ho_locks h0)"
  shows "\<exists>db. ho_db h path = Some db \<and> never_locked (lock_dir_of dir) sid (sessions db) (ho_locks h)"
proof (rule lives_cut_keep [where P = "never_locked (lock_dir_of dir) sid", OF assms])
  fix tenv :: "'x term_env" and c w r and s :: "'x term_state" and k
  assume "te_locks tenv = lock_dir_of dir" "never_locked (lock_dir_of dir) sid (sessions (ts_db s)) (ts_locks s)"
  then show "never_locked (lock_dir_of dir) sid (sessions (ts_db (cut_off k tenv c w r s))) (ts_locks (cut_off k tenv c w r s))"
    using cut_never_locked [of tenv sid s dir k c w r] by simp
qed

lemma lives_left_locked:
  fixes lib :: "('wa, 'user, 'sess, 'parsed, 'x) dm_env"
  assumes "lives lib st ok h0 n h" "\<And>fl env d. st fl env d \<Longrightarrow> same_place dir path fl env d" "ho_db h0 path = Some db0"
    "left_locked (lock_dir_of dir) sid (sessions db0) (ho_locks h0)"
  shows "\<exists>db. ho_db h path = Some db \<and> left_locked (lock_dir_of dir) sid (sessions db) (ho_locks h)"
proof (rule lives_cut_keep [where P = "left_locked (lock_dir_of dir) sid", OF assms])
  fix tenv :: "'x term_env" and c w r and s :: "'x term_state" and k
  assume "te_locks tenv = lock_dir_of dir" "left_locked (lock_dir_of dir) sid (sessions (ts_db s)) (ts_locks s)"
  then show "left_locked (lock_dir_of dir) sid (sessions (ts_db (cut_off k tenv c w r s))) (ts_locks (cut_off k tenv c w r s))"
    using cut_left_locked [of tenv sid s dir k c w r] by simp
qed


section \<open>How a session ends\<close>

text \<open>A request that closes the session: an explicit DELETE, behind the device check unless that is off.\<close>

definition deletes ::
    "('wa, 'user, 'sess, 'parsed, 'x) dm_env \<Rightarrow> ('wa, 'user, 'sess, 'x) daemon \<Rightarrow> dm_call \<Rightarrow> string \<Rightarrow> bool" where
  "deletes env d c sid \<longleftrightarrow>
     (\<exists>p. PathUnescape (dc_escaped c) = Some p \<and> splitSessionPath p = Some (sid, []) \<and> req_method (dc_req c) = MethodDelete) \<and>
     (de_insecure env \<or> (\<exists>did. header_ok env d c did))"

lemma serve_killed_closes:
  assumes "open_in (dm_db d) sid" "\<not> open_in (dm_db (serve_killed n env d c)) sid" "sid \<noteq> ''stream''"
  shows "deletes env d c sid"
proof (cases rule: serve_killed_sessions [where env = env and d = d and c = c and n = n])
  case same
  with assms(1,2) open_in_sessions [of "dm_db (serve_killed n env d c)" "dm_db d" sid] show ?thesis by simp
next
  case (terminal p r)
  let ?s = "term_part d" and ?cut = "cut_off n (de_term env) (dc_term c) (dc_ws c) r (term_part d)"
  have gone: "open_in (ts_db ?s) sid" "\<not> open_in (ts_db ?cut) sid" using assms(1,2) terminal(5) by simp_all
  have "closing r = Some sid"
    by (cases rule: cut_cases [where s = ?s and n = n and env = "de_term env" and c = "dc_term c" and w = "dc_ws c" and r = r])
      (use gone in auto)
  then have r: "splitSessionPath p = Some (sid, [])" "req_method r = MethodDelete"
    using terminal(2) by (simp_all add: closing_Some)
  then have "\<not> HasSuffix p ''/stream''" using stream_suffix_split [of p sid "[]"] assms(3) by auto
  with r terminal(1,3,4) show ?thesis by (auto simp: deletes_def)
qed

lemma serve_run_closes:
  assumes "open_in (dm_db d) sid" "\<not> open_in (dm_db (serve_run env d cs)) sid" "sid \<noteq> ''stream''"
  shows "\<exists>cs1 c cs2. cs = cs1 @ c # cs2 \<and> deletes env (serve_run env d cs1) c sid"
  using assms(2)
proof (induction cs rule: rev_induct)
  case Nil
  with assms(1) show ?case by simp
next
  case (snoc c cs)
  show ?case
  proof (cases "open_in (dm_db (serve_run env d cs)) sid")
    case True
    have "snd (serve env (serve_run env d cs) c) = serve_killed 4 env (serve_run env d cs) c" by (simp add: serve_killed_done)
    with serve_killed_closes [OF True _ assms(3), of 4 env c] snoc.prems show ?thesis unfolding serve_run_snoc by auto
  next
    case False
    with snoc.IH obtain cs1 c1 cs2 where "cs = cs1 @ c1 # cs2" "deletes env (serve_run env d cs1) c1 sid" by blast
    then show ?thesis by (intro exI [of _ cs1] exI [of _ c1] exI [of _ "cs2 @ [c]"]) simp
  qed
qed

definition deleted_in_life ::
    "('wa, 'user, 'sess, 'parsed, 'x) dm_env \<Rightarrow>
     (flags \<Rightarrow> ('wa, 'user, 'sess, 'parsed, 'x) dm_env \<Rightarrow> ('wa, 'user, 'sess, 'x) daemon \<Rightarrow> bool) \<Rightarrow>
     (dm_call \<Rightarrow> bool) \<Rightarrow> 'x host \<Rightarrow> string \<Rightarrow> string \<Rightarrow> bool" where
  "deleted_in_life lib st ok h0 path sid \<longleftrightarrow>
     (\<exists>n h1 fl env d cs c. lives lib st ok h0 n h1 \<and> startDaemon lib fl h1 = Inr (env, d) \<and> fl_db fl = path \<and> ok c \<and> (\<forall>c \<in> set cs. ok c) \<and>
        deletes env (serve_run env d cs) c sid)"

lemma lives_closes:
  assumes "lives lib st ok h0 n h" "ho_db h0 path = Some db0" "open_in db0 sid" "sid \<noteq> ''stream''"
  shows "(\<exists>db. ho_db h path = Some db \<and> open_in db sid) \<or> deleted_in_life lib st ok h0 path sid"
proof -
  have served: "(\<exists>db. ho_db (shut_down h fl d') path = Some db \<and> open_in db sid) \<or> deleted_in_life lib st ok h0 path sid"
    if life: "lives lib st ok h0 n h" "startDaemon lib fl h = Inr (env, d)" "\<forall>c \<in> set cs. ok c"
      and d': "d' = serve_run env d cs \<or> (\<exists>k c. ok c \<and> d' = serve_killed k env (serve_run env d cs) c)"
      and IH: "(\<exists>db. ho_db h path = Some db \<and> open_in db sid) \<or> deleted_in_life lib st ok h0 path sid"
    for n h fl env d cs d'
  proof (cases "fl_db fl = path \<and> open_in (dm_db d) sid \<and> \<not> open_in (dm_db d') sid")
    case True
    then have here: "fl_db fl = path" "open_in (dm_db d) sid" "\<not> open_in (dm_db d') sid" by simp_all
    obtain cs1 c where c: "ok c" "\<forall>c \<in> set cs1. ok c" "deletes env (serve_run env d cs1) c sid"
    proof (cases "open_in (dm_db (serve_run env d cs)) sid")
      case still: True
      with d' here(3) obtain k c where "ok c" "d' = serve_killed k env (serve_run env d cs) c" by blast
      with serve_killed_closes [OF still _ assms(4)] here(3) life(3) that show ?thesis by blast
    next
      case False
      with serve_run_closes [OF here(2) _ assms(4)] obtain cs1 c cs2
        where "cs = cs1 @ c # cs2" "deletes env (serve_run env d cs1) c sid" by blast
      with life(3) show ?thesis by (intro that) auto
    qed
    with life(1,2) here(1) have "deleted_in_life lib st ok h0 path sid" unfolding deleted_in_life_def by blast
    then show ?thesis ..
  next
    case False
    with IH startDaemon_sessions(2) [OF life(2)] show ?thesis by (auto simp: shut_down_def)
  qed
  from assms(1) show ?thesis
  proof (induction rule: lives.induct)
    case installed
    with assms(2,3) show ?case by simp
  next
    case (epoch n h fl env d cs)
    from served [OF epoch(1,2,4) _ epoch.IH] show ?case by blast
  next
    case (killed n h fl env d cs c k)
    from served [OF killed(1,2,4) _ killed.IH] killed(5) show ?case by blast
  qed
qed


section \<open>Deleting a session on the small installation\<close>

lemma session_route:
  assumes "sid \<noteq> []" "ident_string sid"
  shows "findHandler root_table m (''/sessions/'' @ sid) = Handler Sessions"
    and "PathUnescape (''/sessions/'' @ sid) = Some (''/sessions/'' @ sid)"
    and "splitSessionPath (''/sessions/'' @ sid) = Some (sid, [])"
proof -
  let ?p = "''/sessions/'' @ sid"
  have plain: "plain_elem sid" using assms by (rule plain_elem_ident)
  have no: "slash \<notin> set sid" "CHR ''%'' \<notin> set sid"
    using assms(2) ident_string_no_slash ident_string_char [OF assms(2), of "CHR ''%''"]
    by (auto simp: ident_rune_def)
  have p: "?p = abs_path [''sessions'', sid]" by (simp add: abs_path_def)
  have clean: "Clean ?p = ?p"
    unfolding p using plain by (intro Clean_abs_path) (simp add: plain_elem_def)
  have "last ?p \<noteq> slash" using assms(1) no(1) last_in_set by force
  then have "cleanPath ?p = ?p" using clean by (simp add: cleanPath_def Let_def)
  moreover have "path_segments ?p = [''sessions'', sid]"
    using no by (simp add: path_segments_def)
  moreover have "mux_find root_table [''sessions'', sid] = Some (''/sessions/'', Sessions)"
    using assms(1) by (simp add: root_table_def pattern_matches_def)
  ultimately show "findHandler root_table m ?p = Handler Sessions"
    by (simp add: findHandler_def)
  show "PathUnescape ?p = Some ?p" using no by (intro PathUnescape_plain) simp
  show "splitSessionPath ?p = Some (sid, [])"
    unfolding splitSessionPath_iff using assms(1) no by simp
qed

text \<open>A signed request of the terminal routes, complete or cut off.\<close>

lemma killed_step:
  assumes "\<not> de_insecure env" "PathUnescape (dc_escaped c) = Some (dc_escaped c)"
    and "findHandler root_table (req_method (dc_req c)) (dc_escaped c) = Handler Sessions"
    and "\<not> HasSuffix (dc_escaped c) ''/stream''" "signs c did sg"
    and "pending (dm_auth d) did = Some pc" "dc_now c \<le> pc_expiresAt pc"
    and "StoreDevice (dc_auth_fault c) (dm_db d) did = Some (pub, False)" "de_ed env pub (pc_nonce pc) sg"
  shows "term_part (serve_killed n env d c) =
     cut_off n (de_term env) (dc_term c) (dc_ws c) ((routed_request c (dc_escaped c))\<lparr>req_device := Some did\<rparr>) (term_part d)"
proof -
  let ?v = "DeviceVerify (de_ed env) (StoreDevice (dc_auth_fault c) (dm_db d)) (dc_now c) (dm_auth d) did sg"
  have "fst ?v = None" using assms(6-9) by (auto simp: DeviceVerify_success_iff)
  then obtain a where v: "?v = (None, a)" by (metis prod.collapse)
  show ?thesis
    using assms(1,4,5) v
    by (simp add: serve_killed_routed [OF assms(2,3)] wrapSessionAuth_def RequireDevice_def signs_def term_mux_killed_def Let_def)
qed

lemma delete_route:
  assumes "dc_escaped c = ''/sessions/'' @ sid" "sid \<noteq> []" "ident_string sid" "sid \<noteq> ''stream''"
  shows "PathUnescape (dc_escaped c) = Some (dc_escaped c)"
    and "findHandler root_table (req_method (dc_req c)) (dc_escaped c) = Handler Sessions"
    and "\<not> HasSuffix (dc_escaped c) ''/stream''" "splitSessionPath (dc_escaped c) = Some (sid, [])"
proof -
  show path: "PathUnescape (dc_escaped c) = Some (dc_escaped c)"
    "findHandler root_table (req_method (dc_req c)) (dc_escaped c) = Handler Sessions"
    "splitSessionPath (dc_escaped c) = Some (sid, [])"
    unfolding assms(1) by (rule session_route [OF assms(2,3)])+
  show "\<not> HasSuffix (dc_escaped c) ''/stream''" using stream_suffix_split [OF _ path(3)] assms(4) by auto
qed

lemma site_asked:
  assumes "dm_db d = db" "devices db = devices site_db"
  obtains a where "snd (serve site_lib d site_challenge) = d\<lparr>dm_auth := a\<rparr>"
    "pending a ''d'' = Some \<lparr>pc_nonce = ''n'', pc_expiresAt = 1 + ChallengeTTL\<rparr>"
proof -
  have dev: "StoreDevice False (dm_db d) ''d'' = Some (replicate 32 (CHR 0x00), False)"
    using site_device by (simp add: StoreDevice_def GetDevice_def assms)
  show ?thesis
    using challenge_step [OF site_calls(1,4), of "''d''" "''n''" d "replicate 32 (CHR 0x00)" site_lib] dev that
    by (auto simp: site_challenge_def site_call_def)
qed

definition site_keys :: "string \<Rightarrow> string" where
  "site_keys h = (if h = ''X-Device-Id'' then ''d'' else if h = ''X-Device-Signature'' then StdEncode ''n'' else [])"

definition site_create :: dm_call where
  "site_create = site_call 2 ''/sessions'' site_keys (\<lambda>_. [])"

definition site_delete :: dm_call where
  "site_delete = (site_call 2 (''/sessions/'' @ site_sid) site_keys (\<lambda>_. []))
     \<lparr>dc_req := \<lparr>req_method = ''DELETE'', req_path = [], req_remote = ''127.0.0.1:5000'', req_host = ''localhost'',
        req_header = site_keys, req_query = (\<lambda>_. []), req_json = JsonEOF, req_device = None\<rparr>\<rparr>"

lemma site_sid: "ident_string site_sid" "site_sid \<noteq> []" "site_sid \<noteq> ''stream''"
  by (simp_all add: site_sid_def ident_string_def ident_rune_def)

lemma site_create_route:
  "PathUnescape (dc_escaped site_create) = Some (dc_escaped site_create)"
  "findHandler root_table (req_method (dc_req site_create)) (dc_escaped site_create) = Handler Sessions"
  "\<not> HasSuffix (dc_escaped site_create) ''/stream''"
  by (simp_all add: site_create_def site_call_def PathUnescape_plain) code_simp+

lemma site_killed:
  assumes "c = site_create \<or> c = site_delete" "dm_db d = db" "devices db = devices site_db" "dm_locks d = ls"
  shows "term_part (serve_killed n site_lib (serve_run site_lib d [site_challenge]) c) =
     cut_off n demo_term (demo_term_call False) demo_ws ((routed_request c (dc_escaped c))\<lparr>req_device := Some ''d''\<rparr>)
       \<lparr>ts_db = db, ts_locks = ls, ts_tmux = ()\<rparr>"
proof -
  obtain a where run: "snd (serve site_lib d site_challenge) = d\<lparr>dm_auth := a\<rparr>" and
    pend: "pending a ''d'' = Some \<lparr>pc_nonce = ''n'', pc_expiresAt = 1 + ChallengeTTL\<rparr>"
    by (rule site_asked [OF assms(2,3)])
  have dev: "StoreDevice False db ''d'' = Some (replicate 32 (CHR 0x00), False)"
    using site_device by (simp add: StoreDevice_def GetDevice_def assms(3))
  have del: "dc_escaped site_delete = ''/sessions/'' @ site_sid" by (simp add: site_delete_def site_call_def)
  note route = site_create_route delete_route [OF del site_sid(2,1,3)]
  have "term_part (serve_killed n site_lib (d\<lparr>dm_auth := a\<rparr>) c) =
     cut_off n (de_term site_lib) (dc_term c) (dc_ws c) ((routed_request c (dc_escaped c))\<lparr>req_device := Some ''d''\<rparr>)
       (term_part (d\<lparr>dm_auth := a\<rparr>))"
    using assms(1)
    by (elim disjE; intro killed_step [where sg = "''n''" and pub = "replicate 32 (CHR 0x00)"
          and pc = "\<lparr>pc_nonce = ''n'', pc_expiresAt = 1 + ChallengeTTL\<rparr>"])
      (use route dev pend assms(2) in \<open>simp_all add: site_lib_def site_create_def site_delete_def site_call_def
          site_keys_def signs_def time_simps\<close>)
  moreover have "de_term site_lib = demo_term" "dc_term c = demo_term_call False" "dc_ws c = demo_ws"
    using assms(1) by (auto simp: site_lib_def site_create_def site_delete_def site_call_def)
  ultimately show ?thesis using assms(2,4) by (simp add: serve_step_def run)
qed

lemma startDaemon_locks:
  assumes "startDaemon lib fl h = Inr (env, d)"
  shows "startDaemon lib fl (h\<lparr>ho_locks := ls\<rparr>) = Inr (env, d\<lparr>dm_locks := ls\<rparr>)"
  using assms
  by (auto simp: startDaemon_def newRouter_def NewManager_def Let_def split: option.splits prod.splits sum.splits)

lemmas site_start_locked = startDaemon_locks [OF site_start]

text \<open>The creation is killed after the row, the deletion after the row as well.\<close>

lemma site_half_created:
  assumes "d = serve_killed 2 site_lib (serve_run site_lib (site_daemon site_db) [site_challenge]) site_create"
  shows "session_ids (dm_db d) = [demo_sid]" "open_in (dm_db d) demo_sid" "dm_locks d = []"
proof -
  let ?r = "(routed_request site_create (dc_escaped site_create))\<lparr>req_device := Some ''d''\<rparr>"
  let ?s = "\<lparr>ts_db = site_db, ts_locks = [], ts_tmux = ()\<rparr>"
  have part: "term_part d = cut_off 2 demo_term (demo_term_call False) demo_ws ?r ?s"
    unfolding assms by (rule site_killed) (simp_all add: site_daemon_def newRouter_def Let_def)
  have r: "req_path ?r = ''/sessions''" "req_method ?r = MethodPost" "req_json ?r = JsonObject (\<lambda>_. [])"
    by (simp_all add: site_create_def site_call_def routed_request_def maxJSONBody_def Let_def)
  have call: "tc_rnd (demo_term_call False) = Some ''01234567''" "\<not> tc_write_fault (demo_term_call False)"
    by (simp_all add: demo_term_call_def)
  have ids: "session_ids site_db = []" by (simp add: session_ids_def site_db_def)
  obtain db1 where "alone (term_thread_step demo_term) 2 (Arrived (demo_term_call False) demo_ws ?r) ?s =
      (CreateLock (demo_term_call False) demo_sid, ?s\<lparr>ts_tmux := (), ts_db := db1\<rparr>)"
    "open_in db1 demo_sid" "session_ids db1 = session_ids (ts_db ?s) @ [demo_sid]"
    using create_until_lock [OF r call, where env = demo_term and w = demo_ws and s = ?s and x = "()", unfolded demo_sid]
    by (auto simp: ids demo_new_session)
  with part ids show "session_ids (dm_db d) = [demo_sid]" "open_in (dm_db d) demo_sid" "dm_locks d = []" by simp_all
qed

lemma site_open: "open_in site_stream_db site_sid"
  by (simp add: site_stream_db_def open_in_def session_at_def StatusOpen_def)

lemma site_deleted:
  assumes "2 \<le> n" and "d = serve_killed n site_lib (serve_run site_lib ((site_daemon site_stream_db)\<lparr>dm_locks := ls\<rparr>) [site_challenge]) site_delete"
  shows "\<not> open_in (dm_db d) site_sid"
proof -
  let ?r = "(routed_request site_delete (dc_escaped site_delete))\<lparr>req_device := Some ''d''\<rparr>"
  let ?s = "\<lparr>ts_db = site_stream_db, ts_locks = ls, ts_tmux = ()\<rparr>"
  have part: "term_part d = cut_off n demo_term (demo_term_call False) demo_ws ?r ?s"
    unfolding assms(2) by (rule site_killed) (simp_all add: site_daemon_def newRouter_def site_stream_db_def Let_def)
  have "dc_escaped site_delete = ''/sessions/'' @ site_sid" by (simp add: site_delete_def site_call_def)
  from delete_route(4) [OF this site_sid(2,1,3)] have "closing ?r = Some site_sid"
    by (simp add: closing_Some site_delete_def site_call_def)
  moreover obtain row where "GetSession False site_stream_db site_sid = Inr row"
    by (simp add: GetSession_def scan_session_def site_stream_db_def)
  ultimately have "arrive demo_term (demo_term_call False) demo_ws ?r ?s = (CloseRow (demo_term_call False) site_sid row, ?s)"
    by (simp add: arrive_def start_close_def demo_term_call_def site_delete_def site_call_def)
  then have "alone (term_thread_step demo_term) 1 (Arrived (demo_term_call False) demo_ws ?r) ?s =
      (CloseRow (demo_term_call False) site_sid row, ?s)" by simp
  then have cut: "cut_off n demo_term (demo_term_call False) demo_ws ?r ?s =
      snd (alone (term_thread_step demo_term) (n - 1) (CloseRow (demo_term_call False) site_sid row) ?s)"
    using alone_add [of "term_thread_step demo_term" 1 "n - 1"] assms(1) by simp
  obtain db2 where close: "CloseSession False (tc_unix (demo_term_call False)) site_stream_db site_sid = (Inr (), db2)"
    using CloseSession_open [OF site_open] by (metis prod.collapse)
  have gone: "\<not> open_in db2 site_sid" using CloseSession_open [OF site_open close] by simp
  have "ts_db (cut_off n demo_term (demo_term_call False) demo_ws ?r ?s) = db2"
    using assms(1) close unfolding cut
    by (cases "n - 1" rule: nat_until_three) (simp_all add: demo_term_call_def split: sum.split prod.split)
  with arg_cong [OF part, of ts_db] gone show ?thesis by simp
qed


section \<open>Out of reach of the file routes\<close>

text \<open>
  The model keeps the database and the lock files apart from the files the file routes work on. That is the program's
  behaviour on an installation whose directories are apart: neither the roots nor the upload directory contain the
  path, continue it or lie below it (so that the files SQLite puts beside the database are covered), and the upload directory
  is real, holds regular files only and is apart from the roots.
\<close>

definition clear_of :: "string \<Rightarrow> ('wa, 'user, 'sess, 'parsed, 'x) dm_env \<Rightarrow> bool" where
  "clear_of path env \<longleftrightarrow>
     (\<forall>b \<in> set (up_dir (api_Uploader (de_api env)) # st_roots (api_Store (de_api env))). \<not> HasPrefix b path \<and> \<not> HasPrefix path b)"

definition tended ::
    "string \<Rightarrow> string \<Rightarrow> flags \<Rightarrow> ('wa, 'user, 'sess, 'parsed, 'x) dm_env \<Rightarrow> ('wa, 'user, 'sess, 'x) daemon \<Rightarrow> bool" where
  "tended dir path fl env d \<longleftrightarrow>
     same_place dir path fl env d \<and> clear_of path env \<and> clear_of (lm_dir (lock_dir_of dir)) env \<and>
     (\<exists>ds. upload_area (api_Uploader (de_api env)) (dm_files d) ds \<and> apart (api_Store (de_api env)) ds)"

lemma serve_killed_files:
  fixes d :: "('wa, 'user, 'sess, 'x) daemon"
  shows "dm_files (serve_killed n env d c) = dm_files d \<or>
   (\<exists>r. dm_files (serve_killed n env d c) =
      snd (RegisterFiles (de_upload env) (de_quote env) (dc_files c) (de_api env) (dm_files d) r))"
proof -
  have wrap: "dm_files (snd (wrapSessionAuth env c f r d)) = dm_files d"
    if "\<And>r d. dm_files (snd (f r d)) = dm_files d" for f r d
  proof -
    have "dm_files (snd (RequireDevice env c f r d)) = dm_files d"
      by (cases rule: RequireDevice_cases [where env = env and c = c and nxt = f and r = r and d = d]) (simp_all add: that)
    then show ?thesis
      by (cases rule: wrapSessionAuth_cases [where env = env and c = c and nxt = f and r = r and d = d]) (simp_all add: that)
  qed
  show ?thesis
  proof (cases "findHandler root_table (req_method (dc_req c)) (dc_escaped c) = Handler Sessions")
    case route: True
    have "dm_files (snd (term_mux_killed n env c r d)) = dm_files d" for r d by (simp add: term_mux_killed_def Let_def)
    with wrap [of "term_mux_killed n env c"] show ?thesis
      by (cases "PathUnescape (dc_escaped c)") (simp_all add: serve_killed_def limitRequestBody_def route Let_def)
  next
    case False
    then have killed: "serve_killed n env d c = snd (serve env d c)" by (rule serve_killed_other)
    show ?thesis
    proof (cases rule: serve_cases [where env = env and d = d and c = c])
      case unrouted
      then show ?thesis by (simp add: killed)
    next
      case (routed p rt hs)
      let ?r = "routed_request c p"
      have behind: "dm_files (snd (RequireDevice env c f r d)) = dm_files d"
        if "\<And>r d. dm_files (snd (f r d)) = dm_files d" for f r
        by (cases rule: RequireDevice_cases [where env = env and c = c and nxt = f and r = r and d = d]) (simp_all add: that)
      have mux: "dm_files (snd (files_mux env c r d)) =
          snd (RegisterFiles (de_upload env) (de_quote env) (dc_files c) (de_api env) (dm_files d) r)"
        for r and d :: "('wa, 'user, 'sess, 'x) daemon"
        by (simp add: files_mux_def Let_def case_prod_beta)
      have devs: "dm_files (snd (devices_mux c r d)) = dm_files d" for r and d :: "('wa, 'user, 'sess, 'x) daemon"
        by (simp add: devices_mux_def Let_def case_prod_beta)
      have grant: "dm_files (snd (RequireStepUp c ActionRevokeDevice (devices_mux c) r d)) = dm_files d"
        for r and d :: "('wa, 'user, 'sess, 'x) daemon"
        by (simp add: RequireStepUp_def devs split: option.split prod.split)
      have pair: "dm_files (snd (pairing_mux env c r d)) = dm_files d" for r using pairing_mux_open(2) [of env c r d] by simp
      show ?thesis
      proof (cases rt)
        case Files
        then show ?thesis
          by (cases rule: RequireDevice_cases [where env = env and c = c and nxt = "files_mux env c" and r = ?r and d = d])
            (auto simp: killed routed(3) serve_route_def mux)
      next
        case Sessions
        with False routed(2) show ?thesis by simp
      qed (use behind devs grant in \<open>simp_all add: killed routed(3) serve_route_def pair case_prod_beta
        handleAuthChallenge_def handleAuthWSTicket_def split: json_body.split sum.split prod.split option.split\<close>)
    qed
  qed
qed

text \<open>Then no request, complete or cut off, touches anything at the path, and so the two stores may be kept apart.\<close>

lemma clear_of_effect:
  assumes "clear_of path env" "HasPrefix (abs_path p) path"
    and "up_dir (api_Uploader (de_api env)) = abs_path ds" "effect (api_Store (de_api env)) ds fs fs'"
  shows "node_at fs' p = node_at fs p"
proof -
  have le: "prefix (abs_path xs) (abs_path ys)" if le: "prefix xs ys" for xs ys
  proof -
    obtain zs where "ys = xs @ zs" using le by (auto simp: prefix_def)
    then show ?thesis by (cases "xs = []"; cases "zs = []") (simp_all add: abs_path_def join_byte_append)
  qed
  have apart: "\<not> prefix q (abs_path p) \<and> \<not> prefix (abs_path p) q" if "q = up_dir (api_Uploader (de_api env)) \<or> q \<in> set (st_roots (api_Store (de_api env)))" for q
  proof -
    have "\<not> prefix path q \<and> \<not> prefix q path" using assms(1) that by (auto simp: clear_of_def HasPrefix_def)
    moreover have "prefix path (abs_path p)" using assms(2) by (simp add: HasPrefix_def)
    ultimately show ?thesis by (meson prefix_order.trans prefix_same_cases)
  qed
  have "p \<noteq> ds @ [n]" for n using apart [of "abs_path ds"] le [of ds p] assms(3) by auto
  moreover have "\<not> inside (api_Store (de_api env)) p" using apart le unfolding inside_def by blast
  moreover have "\<not> (\<exists>rt. abs_path rt \<in> set (st_roots (api_Store (de_api env))) \<and> prefix p rt)" using apart le by blast
  ultimately show ?thesis using assms(4) unfolding effect_def by blast
qed

lemma startDaemon_store:
  assumes "startDaemon lib fl h = Inr (env, d)"
  shows "store_ok (api_Store (de_api env))" "up_store (api_Uploader (de_api env)) = api_Store (de_api env)"
  using assms
  by (auto simp: startDaemon_def NewUploader_def Let_def dest: NewStore_ok split: option.splits prod.splits sum.splits)

lemma tended_untouched:
  fixes d0 :: "('wa, 'user, 'sess, 'x) daemon"
  assumes start: "startDaemon lib fl h = Inr (env, d0)" "tended dir path fl env d0"
    and calm: "\<forall>c \<in> set cs. \<not> fc_fault (dc_files c) RenamePart"
    and p: "HasPrefix (abs_path p) path \<or> HasPrefix (abs_path p) (lm_dir (lock_dir_of dir))"
  shows "node_at (dm_files (serve_run env d0 cs)) p = node_at (dm_files d0) p"
    and "\<not> fc_fault (dc_files c) RenamePart \<Longrightarrow>
      node_at (dm_files (serve_killed k env (serve_run env d0 cs) c)) p = node_at (dm_files d0) p"
proof -
  let ?s = "api_Store (de_api env)" and ?u = "api_Uploader (de_api env)"
  obtain ds where ds: "upload_area ?u (dm_files d0) ds" "apart ?s ds"
    and clear: "clear_of path env" "clear_of (lm_dir (lock_dir_of dir)) env" using start(2) by (auto simp: tended_def)
  have step: "effect ?s ds (dm_files d0) (dm_files (serve_killed k env d c))"
    if "effect ?s ds (dm_files d0) (dm_files d)" "\<not> fc_fault (dc_files c) RenamePart"
    for k c and d :: "('wa, 'user, 'sess, 'x) daemon"
    using serve_killed_files [of k env d c]
  proof (elim disjE exE)
    fix r
    assume "dm_files (serve_killed k env d c) =
      snd (RegisterFiles (de_upload env) (de_quote env) (dc_files c) (de_api env) (dm_files d) r)"
    with effect_request [OF upload_area_effect [OF ds that(1)] ds(2) startDaemon_store [OF start(1)] that(2)]
      effect_trans [OF ds(2) that(1)] show ?thesis by simp
  qed (use that(1) in simp)
  have run: "effect ?s ds (dm_files d0) (dm_files (serve_run env d0 cs))"
  proof (rule run_steps_invariant [where P = "\<lambda>d. effect ?s ds (dm_files d0) (dm_files d)"])
    fix d :: "('wa, 'user, 'sess, 'x) daemon" and c
    assume "effect ?s ds (dm_files d0) (dm_files d)" "c \<in> set cs"
    with step [of d c 4] calm show "effect ?s ds (dm_files d0) (dm_files (serve_step env d c))"
      by (simp add: serve_killed_done serve_step_def)
  qed simp
  have "up_dir ?u = abs_path ds" using ds(1) by (simp add: upload_area_def area_def)
  note same = clear_of_effect [OF clear(1) _ this] clear_of_effect [OF clear(2) _ this]
  show "node_at (dm_files (serve_run env d0 cs)) p = node_at (dm_files d0) p" using same run p by blast
  show "node_at (dm_files (serve_killed k env (serve_run env d0 cs) c)) p = node_at (dm_files d0) p"
    if "\<not> fc_fault (dc_files c) RenamePart"
    using same step [OF run that, of k] p by blast
qed


section \<open>The properties\<close>

text \<open>
  A start takes the sessions and the locks as it finds them. After a reboot, which empties the lock
  directory under /run and takes the tmux server away, the sessions are therefore listed as open, and none of
  them is locked.
\<close>

lemma reboot_keeps_rows:
  assumes "startDaemon lib fl (h\<lparr>ho_locks := [], ho_tmux := x\<rparr>) = Inr (env, d)" "ho_db h (fl_db fl) = Some db"
  shows "(open_in (dm_db d) sid \<longleftrightarrow> open_in db sid) \<and> \<not> Held (te_locks (de_term env)) (dm_locks d) sid"
  using startDaemon_sessions(2,3) [OF assms(1)] assms(2) by (simp add: Held_def)








abbreviation locked_host :: "unit host" where
  "locked_host \<equiv> (site_host site_stream_db)\<lparr>ho_locks := [Path (lock_dir_of ''/l'') site_sid]\<rparr>"

abbreviation locked_daemon :: "(unit, unit, unit, unit) daemon" where
  "locked_daemon \<equiv> (site_daemon site_stream_db)\<lparr>dm_locks := [Path (lock_dir_of ''/l'') site_sid]\<rparr>"



lemma serve_run_orderly:
  assumes "startDaemon lib fl h = Inr (env, d0)" "ho_db h (fl_db fl) = Some old" "orderly (lock_dir_of (fl_lock_dir fl)) (sessions old) (ho_locks h)"
  shows "orderly (lock_dir_of (fl_lock_dir fl)) (sessions (dm_db (serve_run env d0 cs))) (dm_locks (serve_run env d0 cs))"
proof -
  have "lives lib (same_place (fl_lock_dir fl) (fl_db fl)) (\<lambda>_. True) h 0 (shut_down h fl (serve_run env d0 cs))"
    by (rule lives.epoch [OF lives.installed assms(1)]) (simp_all add: same_place_def)
  from lives_orderly [OF this _ assms(2,3)] show ?thesis by (simp add: shut_down_def)
qed

text \<open>
  C18. A kill of the daemon in the middle of a creation is never repaired: once the row of the new session is
  stored and before its lock is taken, at most two steps into the request, the session exists without a lock, and in no
  later life of the installation, through any starts on the same database and lock directory and any requests, faults and
  kills, does it get one. It stays open until
  it is deleted. The comment of \<^verbatim>\<open>Create\<close> speaks of the order of the tmux session and the row only, and
  \<^verbatim>\<open>NewManager\<close> does not reconcile the locks with the table.
\<close>

theorem killed_creation_never_locked:
  assumes "startDaemon lib fl h = Inr (env, d0)" and "ho_db h (fl_db fl) = Some old" "orderly (lock_dir_of (fl_lock_dir fl)) (sessions old) (ho_locks h)"
    and "d = serve_run env d0 cs" "d' = serve_killed n env d c" "n < 3"
    and "sid \<notin> set (session_ids (dm_db d))" "sid \<in> set (session_ids (dm_db d'))"
    and "lives lib (same_place (fl_lock_dir fl) (fl_db fl)) ok (shut_down h fl d') m h'" "ho_db h' (fl_db fl) = Some db"
  shows "\<not> Held (lock_dir_of (fl_lock_dir fl)) (ho_locks h') sid \<and>
     (open_in db sid \<or> deleted_in_life lib (same_place (fl_lock_dir fl) (fl_db fl)) ok (shut_down h fl d') (fl_db fl) sid)"
proof -
  let ?m = "lock_dir_of (fl_lock_dir fl)"
  have env: "te_locks (de_term env) = ?m" by (rule startDaemon_sessions(1) [OF assms(1)])
  have o: "orderly ?m (sessions (dm_db d)) (dm_locks d)"
    unfolding assms(4) by (rule serve_run_orderly [OF assms(1-3)])
  have "never_locked ?m sid (sessions (dm_db d')) (dm_locks d') \<and> open_in (dm_db d') sid \<and> sid \<noteq> ''stream''"
  proof (cases rule: serve_killed_sessions [where env = env and d = d and c = c and n = n])
    case same
    with assms(5,7,8) show ?thesis by (simp add: session_ids_def)
  next
    case (terminal p r)
    let ?s = "term_part d" and ?tenv = "de_term env"
    have o': "orderly ?m (sessions (dm_db d')) (dm_locks d')"
      using cut_orderly [of ?tenv ?s "fl_lock_dir fl" n "dc_term c" "dc_ws c" r] o env terminal(5,6) assms(5) by simp
    show ?thesis
    proof (cases rule: cut_cases [where s = ?s and n = n and env = ?tenv and c = "dc_term c" and w = "dc_ws c" and r = r])
      case (row k)
      then have "k = sid" using assms(5,7,8) terminal(5) by auto
      then show ?thesis using row o o' assms(5-7) terminal(5,6) env by (auto simp: never_locked_def orderly_def)
    qed (use assms(5,7,8) terminal(5) in auto)
  qed
  moreover have "ho_db (shut_down h fl d') (fl_db fl) = Some (dm_db d')" "ho_locks (shut_down h fl d') = dm_locks d'"
    by (simp_all add: shut_down_def)
  ultimately show ?thesis
    using lives_never_locked [OF assms(9), of "fl_lock_dir fl" "fl_db fl" "dm_db d'" sid] lives_closes [OF assms(9), of "fl_db fl" "dm_db d'" sid] assms(10)
    by (auto simp: never_locked_def)
qed

theorem killed_creation_never_locked_witness:
  "\<exists>d'. d' = serve_killed 2 site_lib (serve_run site_lib (site_daemon site_db) [site_challenge]) site_create \<and>
     open_in (dm_db d') demo_sid \<and>
     (\<forall>ok m h' db. lives site_lib (same_place ''/l'' ''/d.db'') ok (shut_down (site_host site_db) site_flags d') m h' \<longrightarrow> ho_db h' ''/d.db'' = Some db \<longrightarrow>
        \<not> Held (lock_dir_of ''/l'') (ho_locks h') demo_sid)"
proof -
  let ?d = "serve_run site_lib (site_daemon site_db) [site_challenge]"
  obtain d' where d': "d' = serve_killed 2 site_lib ?d site_create" by blast
  note half = site_half_created [OF d']
  have dir: "fl_lock_dir site_flags = ''/l''" "fl_db site_flags = ''/d.db''" by (simp_all add: site_flags_def)
  have ids: "session_ids site_db = []" by (simp add: session_ids_def site_db_def)
  have "orderly (lock_dir_of (fl_lock_dir site_flags)) (sessions site_db) (ho_locks (site_host site_db))"
    by (simp add: orderly_def ids site_host_def Held_def)
  note rule = killed_creation_never_locked [OF site_start _ this refl d', where sid = demo_sid, unfolded dir]
  have "\<not> Held (lock_dir_of ''/l'') (ho_locks h') demo_sid"
    if "lives site_lib (same_place ''/l'' ''/d.db'') ok (shut_down (site_host site_db) site_flags d') m h'" "ho_db h' ''/d.db'' = Some db" for ok m h' db
    using rule [OF _ _ _ _ that] half(1) site_challenged ids by (simp add: site_host_def)
  with d' half(2) show ?thesis by blast
qed

text \<open>
  C19. A kill in the middle of a deletion is never repaired either: once the row is closed and before its lock is
  released, at most three steps into the DELETE, the lock outlives the session, and in every later life of the
  installation, through starts on the same database and lock directory, it is still there and the session still closed: repeating the DELETE is refused, because the session is not
  open any more. That is what the comment of \<^verbatim>\<open>Close\<close> wants to avoid when killing tmux fails,
  a lock left behind for a session nobody can reopen, which holds the updater off forever.
\<close>

theorem killed_close_stays_locked:
  assumes "startDaemon lib fl h = Inr (env, d0)" and "ho_db h (fl_db fl) = Some old" "orderly (lock_dir_of (fl_lock_dir fl)) (sessions old) (ho_locks h)"
    and "d = serve_run env d0 cs" "d' = serve_killed n env d c" "n < 4"
    and "open_in (dm_db d) sid" "Held (lock_dir_of (fl_lock_dir fl)) (dm_locks d) sid" "\<not> open_in (dm_db d') sid"
    and "lives lib (same_place (fl_lock_dir fl) (fl_db fl)) ok (shut_down h fl d') m h'" "ho_db h' (fl_db fl) = Some db"
  shows "\<not> open_in db sid \<and> Held (lock_dir_of (fl_lock_dir fl)) (ho_locks h') sid"
proof -
  let ?m = "lock_dir_of (fl_lock_dir fl)"
  have env: "te_locks (de_term env) = ?m" by (rule startDaemon_sessions(1) [OF assms(1)])
  have o: "orderly ?m (sessions (dm_db d)) (dm_locks d)"
    unfolding assms(4) by (rule serve_run_orderly [OF assms(1-3)])
  have "left_locked ?m sid (sessions (dm_db d')) (dm_locks d')"
  proof (cases rule: serve_killed_sessions [where env = env and d = d and c = c and n = n])
    case same
    with assms(5,7,9) open_in_sessions [of "dm_db d'" "dm_db d" sid] show ?thesis by simp
  next
    case (terminal p r)
    let ?s = "term_part d" and ?tenv = "de_term env"
    have o': "orderly ?m (sessions (dm_db d')) (dm_locks d')"
      using cut_orderly [of ?tenv ?s "fl_lock_dir fl" n "dc_term c" "dc_ws c" r] o env terminal(5,6) assms(5) by simp
    show ?thesis
    proof (cases rule: cut_cases [where s = ?s and n = n and env = ?tenv and c = "dc_term c" and w = "dc_ws c" and r = r])
      case (closed k)
      then have "k = sid" using assms(5,7,9) terminal(5) by auto
      then show ?thesis using closed o' assms(5,6,8,9) terminal(5,6) by (simp add: left_locked_def)
    qed (use assms(5,7,9) terminal(5) in auto)
  qed
  moreover have "ho_db (shut_down h fl d') (fl_db fl) = Some (dm_db d')" "ho_locks (shut_down h fl d') = dm_locks d'"
    by (simp_all add: shut_down_def)
  ultimately show ?thesis
    using lives_left_locked [OF assms(10), of "fl_lock_dir fl" "fl_db fl" "dm_db d'" sid] assms(11) by (auto simp: left_locked_def)
qed

theorem killed_close_stays_locked_witness:
  "\<exists>d'. d' = serve_killed 2 site_lib (serve_run site_lib locked_daemon [site_challenge]) site_delete \<and>
     (\<forall>ok m h' db. lives site_lib (same_place ''/l'' ''/d.db'') ok (shut_down locked_host site_flags d') m h' \<longrightarrow> ho_db h' ''/d.db'' = Some db \<longrightarrow>
        \<not> open_in db site_sid \<and> Held (lock_dir_of ''/l'') (ho_locks h') site_sid)"
proof -
  let ?d = "serve_run site_lib locked_daemon [site_challenge]" and ?m = "lock_dir_of ''/l''"
  obtain d' where d': "d' = serve_killed 2 site_lib ?d site_delete" by blast
  have dir: "fl_lock_dir site_flags = ''/l''" "fl_db site_flags = ''/d.db''" by (simp_all add: site_flags_def)
  have ids: "session_ids site_stream_db = [site_sid]" by (simp add: session_ids_def site_stream_db_def)
  have "k = site_sid" if "ident_string k" "Path ?m k = Path ?m site_sid" for k
    using Path_inject [OF lock_dir_of_nonempty that(2)] sanitize_id that(1) site_sid(1) by simp
  then have "orderly (lock_dir_of (fl_lock_dir site_flags)) (sessions site_stream_db) (ho_locks locked_host)"
    by (simp add: orderly_def ids site_sid dir Held_def)
  note rule = killed_close_stays_locked [OF site_start_locked _ this refl d', where sid = site_sid, unfolded dir]
  obtain a where "snd (serve site_lib locked_daemon site_challenge) = locked_daemon\<lparr>dm_auth := a\<rparr>"
    by (rule site_asked [of locked_daemon site_stream_db])
      (simp_all add: site_daemon_def newRouter_def site_stream_db_def Let_def)
  then have "open_in (dm_db ?d) site_sid" "Held ?m (dm_locks ?d) site_sid"
    using site_open by (simp_all add: serve_step_def Held_def) (simp add: site_daemon_def newRouter_def Let_def)
  moreover have "\<not> open_in (dm_db d') site_sid" by (rule site_deleted [OF _ d']) simp
  ultimately have "\<not> open_in db site_sid \<and> Held ?m (ho_locks h') site_sid"
    if "lives site_lib (same_place ''/l'' ''/d.db'') ok (shut_down locked_host site_flags d') m h'" "ho_db h' ''/d.db'' = Some db" for ok m h' db
    using rule [OF _ _ _ _ _ that] by (simp add: site_host_def)
  with d' show ?thesis by blast
qed

end
