(* ===== verification/Daemon_Upload.thy ===== *)
theory Daemon_Upload
  imports Daemon_Sessions
begin

text \<open>
  Resumable uploads over the daemon's routes: a paired device creates an upload, sends the file in pieces,
  loses connections, finds the daemon restarted, asks how far it got and goes on.
\<close>


section \<open>Exchanges of a device\<close>

text \<open>
  Every request of a device is preceded by a challenge that it signs. A pair of calls is well formed for a
  device when the signature is over the nonce of the challenge, within its life, and the database answers.
\<close>

definition device_pair :: "ed25519 \<Rightarrow> string \<Rightarrow> string \<Rightarrow> dm_call \<Rightarrow> dm_call \<Rightarrow> bool" where
  "device_pair ed did pub ch c \<longleftrightarrow>
     posts ch ''/auth/challenge'' \<and> \<not> dc_fault ch \<and> \<not> dc_auth_fault c \<and> did \<noteq> [] \<and>
     (\<exists>body n sg. req_json (dc_req ch) = JsonObject body \<and> body ''device_id'' = did \<and> dc_rnd ch = Some n \<and>
        signs c did sg \<and> ed pub n sg \<and> dc_now c \<le> dc_now ch + ChallengeTTL)"

definition exchange ::
    "('wa, 'user, 'sess, 'parsed, 'x) dm_env \<Rightarrow> ('wa, 'user, 'sess, 'x) daemon \<Rightarrow> dm_call \<Rightarrow> dm_call \<Rightarrow>
     dm_resp \<times> ('wa, 'user, 'sess, 'x) daemon" where
  "exchange env d ch c = serve env (snd (serve env d ch)) c"

abbreviation knows :: "('wa, 'user, 'sess, 'x) daemon \<Rightarrow> string \<Rightarrow> string \<Rightarrow> bool" where
  "knows d did pub \<equiv> StoreDevice False (dm_db d) did = Some (pub, False)"

definition header_value :: "dm_resp \<Rightarrow> string \<Rightarrow> string option" where
  "header_value resp k = map_of (dr_headers resp) k"

definition file_answer :: "string \<Rightarrow> file_resp \<Rightarrow> dm_resp" where
  "file_answer p resp =
     \<lparr>dr_status = fr_status resp, dr_headers = secure_header_list p @ fr_headers resp, dr_body = FileReply (fr_body resp)\<rparr>"

text \<open>The file handlers do not look at the device in the context.\<close>

lemma RegisterFiles_device [simp]: "RegisterFiles env q c a fs (r\<lparr>req_device := x\<rparr>) = RegisterFiles env q c a fs r"
proof -
  have "handleFiles c a fs (r\<lparr>req_device := x\<rparr>) = handleFiles c a fs r"
    "handleDownload sha q c a fs (r\<lparr>req_device := x\<rparr>) = handleDownload sha q c a fs r"
    "handlePatch env c a fs (r\<lparr>req_device := x\<rparr>) uid = handlePatch env c a fs r uid" for sha uid
    by (simp_all add: handleFiles_def handleDownload_def handlePatch_def Let_def cong: if_cong option.case_cong sum.case_cong)
  moreover have "handleUploadCreate env c a fs (r\<lparr>req_device := x\<rparr>) = handleUploadCreate env c a fs r"
    by (simp add: handleUploadCreate_def Let_def cong: if_cong option.case_cong sum.case_cong)
  ultimately show ?thesis by (simp add: RegisterFiles_def handleUploadResume_def Let_def)
qed

lemma files_route:
  assumes "p = ''/files/download'' \<or> p = ''/files/upload'' \<or> (\<exists>uid. p = ''/files/upload/'' @ uid \<and> uid \<noteq> [] \<and> ident_string uid)"
  shows "findHandler root_table m p = Handler Files" "PathUnescape p = Some p"
proof -
  have upload: "findHandler root_table m p = Handler Files \<and> PathUnescape p = Some p"
    if uid: "p = ''/files/upload/'' @ uid" "uid \<noteq> []" "ident_string uid" for uid
  proof -
    have plain: "plain_elem uid" using uid(2,3) by (rule plain_elem_ident)
    have no: "slash \<notin> set uid" "CHR ''%'' \<notin> set uid"
      using uid(3) ident_string_no_slash ident_string_char [OF uid(3), of "CHR ''%''"]
      by (auto simp: ident_rune_def)
    have p: "p = abs_path [''files'', ''upload'', uid]" by (simp add: abs_path_def uid(1))
    have clean: "Clean p = p" unfolding p using plain by (intro Clean_abs_path) (simp add: plain_elem_def)
    have "last p \<noteq> slash" using uid(1,2) no(1) last_in_set by force
    then have "cleanPath p = p" using clean by (simp add: cleanPath_def uid(1) Let_def)
    moreover have "path_segments p = [''files'', ''upload'', uid]" using no by (simp add: path_segments_def uid(1))
    moreover have "mux_find root_table [''files'', ''upload'', uid] = Some (''/files/upload/'', Files)"
      using uid(2) by (simp add: root_table_def pattern_matches_def)
    ultimately show ?thesis using no by (simp add: findHandler_def uid(1) PathUnescape_plain)
  qed
  have "findHandler root_table ''GET'' ''/files/download'' = Handler Files"
    "findHandler root_table ''POST'' ''/files/upload'' = Handler Files" by code_simp+
  then have fixed: "findHandler root_table m ''/files/download'' = Handler Files"
    "findHandler root_table m ''/files/upload'' = Handler Files"
    by (simp_all add: findHandler_def split: if_splits option.splits)
  show "findHandler root_table m p = Handler Files" "PathUnescape p = Some p"
    using assms upload fixed by (auto simp: PathUnescape_plain)
qed

text \<open>An exchange with the file routes is the file handlers' own answer, with authentication or without.\<close>

lemma exchange_files:
  assumes "device_pair (de_ed env) did pub ch c" "knows d did pub"
    and "findHandler root_table (req_method (dc_req c)) (dc_escaped c) = Handler Files" "PathUnescape (dc_escaped c) = Some p"
    and "RegisterFiles (de_upload env) (de_quote env) (dc_files c) (de_api env) (dm_files d) (routed_request c p) = (resp, fs)"
  obtains a where "exchange env d ch c =
    (file_answer p resp, d\<lparr>dm_auth := a, dm_files := fs\<rparr>)"
proof -
  obtain body n sg where pair: "posts ch ''/auth/challenge''" "req_json (dc_req ch) = JsonObject body" "body ''device_id'' = did"
    "did \<noteq> []" "dc_rnd ch = Some n" "\<not> dc_fault ch" "\<not> dc_auth_fault c" "signs c did sg" "de_ed env pub n sg"
    "dc_now c \<le> dc_now ch + ChallengeTTL"
    using assms(1) by (auto simp: device_pair_def)
  obtain a where d1: "snd (serve env d ch) = d\<lparr>dm_auth := a\<rparr>"
    and pend: "pending a did = Some \<lparr>pc_nonce = n, pc_expiresAt = dc_now ch + ChallengeTTL\<rparr>"
    using challenge_step [OF pair(1-5), of d pub env] pair(6) assms(2) by auto
  let ?v = "DeviceVerify (de_ed env) (StoreDevice (dc_auth_fault c) (dm_db d)) (dc_now c) a did sg"
  have "fst ?v = None" using pend pair(7,9,10) assms(2) by (auto simp: DeviceVerify_success_iff)
  then obtain a2 where v: "?v = (None, a2)" by (metis prod.collapse)
  let ?a = "if de_insecure env then a else a2"
  have "serve_route env c Files (routed_request c p) (d\<lparr>dm_auth := a\<rparr>) =
      (\<lparr>dr_status = fr_status resp, dr_headers = fr_headers resp, dr_body = FileReply (fr_body resp)\<rparr>,
       d\<lparr>dm_auth := ?a, dm_files := fs\<rparr>)"
    using v pair(8) assms(5) by (simp add: serve_route_def RequireDevice_def signs_def files_mux_def Let_def)
  then have "exchange env d ch c =
    (file_answer p resp, d\<lparr>dm_auth := ?a, dm_files := fs\<rparr>)"
    using serve_routed [OF assms(4,3), of env "d\<lparr>dm_auth := a\<rparr>"] by (simp add: exchange_def d1 prod_eq_iff file_answer_def)
  then show ?thesis by (rule that)
qed


section \<open>The place of an installation\<close>

text \<open>
  What the flags name: the roots, the upload directory, the database and its directory, the directories
  all without symbolic links.
\<close>

record place =
  pl_roots :: "string list list"
  pl_uploads :: "string list"
  pl_db :: "string list"
  pl_file :: string

definition names_place :: "flags \<Rightarrow> place \<Rightarrow> bool" where
  "names_place fl pl \<longleftrightarrow> splitRoots (fl_file_roots fl) = map abs_path (pl_roots pl) \<and>
     fl_upload_dir fl = abs_path (pl_uploads pl) \<and> fl_db fl = pl_file pl \<and> Dir (pl_file pl) = abs_path (pl_db pl)"

definition at_place :: "place \<Rightarrow> fsys \<Rightarrow> bool" where
  "at_place pl fs \<longleftrightarrow> pl_roots pl \<noteq> [] \<and> (\<forall>r \<in> set (pl_roots pl). real_dir fs r) \<and>
     real_dir fs (pl_uploads pl) \<and> real_dir fs (pl_db pl)"

definition place_store :: "place \<Rightarrow> Store" where
  "place_store pl = \<lparr>st_roots = map abs_path (pl_roots pl)\<rparr>"

definition place_uploader :: "place \<Rightarrow> Uploader" where
  "place_uploader pl = \<lparr>up_store = place_store pl, up_dir = abs_path (pl_uploads pl)\<rparr>"

definition place_api :: "place \<Rightarrow> API" where
  "place_api pl = \<lparr>api_Store = place_store pl, api_Uploader = place_uploader pl\<rparr>"

lemmas place_defs = place_api_def place_uploader_def place_store_def

lemma resolve_root_real: "real_dir fs r \<Longrightarrow> resolve_root fs (abs_path r) = abs_path r"
proof -
  assume r: "real_dir fs r"
  then have plain: "list_all plain_elem r" and "walk fs 255 [] r = Inr r"
    by (auto intro: walk_real_path simp: real_path_def dest: real_dir_plain)
  then have "EvalSymlinks fs (abs_path r) = Inr (abs_path r)" using EvalSymlinks_abs_path [OF plain] by simp
  moreover obtain q where "abs_path r = slash # q" by (simp add: abs_path_def)
  ultimately show ?thesis using Clean_abs_path [OF plain] by (simp add: resolve_root_def Abs_def)
qed

lemma place_NewStore: "at_place pl fs \<Longrightarrow> NewStore fs (map abs_path (pl_roots pl)) = Inr (place_store pl)"
  by (simp add: NewStore_def at_place_def place_store_def resolve_root_real)

lemma place_store_ok: "at_place pl fs \<Longrightarrow> store_ok (place_store pl)"
  by (rule NewStore_ok [OF place_NewStore])

text \<open>A start at its place changes no file and serves the place's directories.\<close>

definition wired :: "('wa, 'user, 'sess, 'parsed, 'x) dm_env \<Rightarrow> place \<Rightarrow> ('wa, 'user, 'sess, 'parsed, 'x) dm_env \<Rightarrow> bool" where
  "wired lib pl env \<longleftrightarrow> de_upload env = de_upload lib \<and> de_quote env = de_quote lib \<and> de_ed env = de_ed lib \<and> de_api env = place_api pl"

lemma start_at_place:
  assumes "startDaemon lib fl h = Inr (env, d)" "names_place fl pl" "at_place pl (ho_fs h)"
  shows "wired lib pl env" "dm_files d = ho_fs h" "ho_db h (pl_file pl) = Some (dm_db d)"
proof -
  have mk: "os_mkdir_all (ho_fs h) (Dir (fl_db fl)) = (None, ho_fs h)" "os_mkdir_all (ho_fs h) (fl_upload_dir fl) = (None, ho_fs h)"
    using assms(2,3) by (simp_all add: names_place_def at_place_def os_mkdir_all_real)
  have st: "NewStore (ho_fs h) (splitRoots (fl_file_roots fl)) = Inr (place_store pl)"
    using assms(2,3) by (simp add: names_place_def place_NewStore)
  have up: "NewUploader (ho_fs h) (place_store pl) (fl_upload_dir fl) = (Inr (place_uploader pl), ho_fs h)"
    using mk assms(2) by (simp add: NewUploader_def place_uploader_def names_place_def)
  show "wired lib pl env" "dm_files d = ho_fs h"
    using assms(1) mk(1) st up
    by (auto simp: startDaemon_def wired_def place_api_def newRouter_def Let_def split: option.splits sum.splits)
  show "ho_db h (pl_file pl) = Some (dm_db d)"
    using startDaemon_sessions(2) [OF assms(1)] assms(2) by (simp add: names_place_def)
qed

text \<open>Such a start succeeds, unless the flags are refused or the lock directory fails.\<close>

lemma start_succeeds:
  assumes "checkFlags fl = None" "names_place fl pl" "at_place pl (ho_fs h)" "\<not> ho_lock_fault h" "ho_db h (pl_file pl) = Some db"
  obtains env d where "startDaemon lib fl h = Inr (env, d)" "dm_db d = db"
proof -
  have mk: "os_mkdir_all (ho_fs h) (Dir (fl_db fl)) = (None, ho_fs h)" "os_mkdir_all (ho_fs h) (fl_upload_dir fl) = (None, ho_fs h)"
    using assms(2,3) by (simp_all add: names_place_def at_place_def os_mkdir_all_real)
  have "NewStore (ho_fs h) (splitRoots (fl_file_roots fl)) = Inr (place_store pl)"
    using assms(2,3) by (simp add: names_place_def place_NewStore)
  moreover have "ho_db h (fl_db fl) = Some db" using assms(2,5) by (simp add: names_place_def)
  ultimately obtain env d where "startDaemon lib fl h = Inr (env, d)"
    using mk assms(1,4) by (simp add: startDaemon_def New_def NewUploader_def Let_def)
  with startDaemon_sessions(2) [OF this] assms(2,5) show ?thesis by (intro that) (simp_all add: names_place_def)
qed

lemma at_place_frame:
  assumes "at_place pl fs" "node_at fs q = Some (FFile s)" "\<forall>p. p \<noteq> q \<longrightarrow> node_at fs' p = node_at fs p"
    and "fs_denied fs' = fs_denied fs"
  shows "at_place pl fs'"
proof -
  have "real_dir fs' r" if "real_dir fs r" for r
  proof (rule real_dir_mono [OF that])
    show "node_at fs' p = Some FDir" if "node_at fs p = Some FDir" for p
      using that assms(2,3) by (cases "p = q") simp_all
  qed (rule assms(4))
  with assms(1) show ?thesis by (simp add: at_place_def)
qed


section \<open>The upload requests\<close>

definition upload_path :: "string \<Rightarrow> string" where
  "upload_path uid = ''/files/upload/'' @ uid"

lemma upload_request:
  assumes "validUploadID uid" "req_path r = upload_path uid"
  shows "RegisterFiles env q c a fs r =
    (if req_method r = MethodHead then (setTusHeaders (handleHead env c a fs uid), fs)
     else if req_method r = MethodPatch then (setTusHeaders (fst (handlePatch env c a fs r uid)), snd (handlePatch env c a fs r uid))
     else RegisterFiles env q c a fs r)"
proof -
  have uid: "uid \<noteq> []" "slash \<notin> set uid" using validUploadID_ident [OF assms(1)] ident_string_no_slash by auto
  have "TrimPrefix (upload_path uid) ''/files/upload/'' = uid" "HasPrefix (upload_path uid) ''/files/upload/''"
    by (simp_all add: upload_path_def TrimPrefix_def HasPrefix_def)
  with uid show ?thesis
    by (simp add: RegisterFiles_def handleUploadResume_def assms(2) case_prod_beta Let_def) (simp add: upload_path_def)
qed

lemma handleHead_uploading:
  assumes "uploading env (api_Uploader a) fs d uid st s"
  shows "handleHead env c a fs uid = file_reply StatusNotFound NoContent \<or>
    handleHead env c a fs uid = with_header ''Cache-Control'' ''no-store''
      (with_header ''Upload-Offset'' (FormatInt (int (length s)))
        (with_header ''Upload-Length'' (FormatInt (us_Length st)) (file_reply StatusOK NoContent)))"
proof (cases "fc_fault c ReadState \<or> fc_fault c StatPart")
  case True
  have "validUploadID uid" using assms by (simp add: uploading_def)
  with True uploading_reads(3) [OF assms, of c] show ?thesis
    by (cases "fc_fault c ReadState") (auto simp: handleHead_def Offset_def loadState_def)
next
  case False
  with uploading_reads(1) [OF assms] uploading_reads(3) [OF assms, of c] show ?thesis
    by (simp add: handleHead_def Offset_def)
qed

text \<open>A piece that does not complete the upload adds what it delivered, or nothing.\<close>

lemma handlePatch_piece:
  assumes up: "uploading env (api_Uploader a) fs d uid st s"
    and "ParseOffset (req_header r ''Upload-Offset'') = Some (int (length s))"
    and "fc_broken c \<or> int (length s) + int (length (fc_body c)) < us_Length st"
  obtains s' where "s' = s \<or> s' = s @ fc_body c"
    "(\<forall>site. \<not> fc_fault c site) \<and> req_header r ''Content-Type'' = [] \<longrightarrow> s' = s @ fc_body c"
    "uploading env (api_Uploader a) (snd (handlePatch env c a fs r uid)) d uid st s'"
    "\<forall>p. p \<noteq> d @ [uid @ ''.part''] \<longrightarrow> node_at (snd (handlePatch env c a fs r uid)) p = node_at fs p"
    "fs_denied (snd (handlePatch env c a fs r uid)) = fs_denied fs"
proof (cases "req_header r ''Content-Type'' \<noteq> [] \<and> req_header r ''Content-Type'' \<noteq> ''application/offset+octet-stream''")
  case True
  with up show ?thesis by (intro that [of s]) (simp_all add: handlePatch_def)
next
  case ct: False
  show ?thesis
  proof (cases "fc_fault c ReadState \<or> fc_fault c OpenPart")
    case True
    have "validUploadID uid" using up by (simp add: uploading_def)
    then obtain e where "e \<noteq> ErrOffsetConflict" "\<not> (\<forall>site. \<not> fc_fault c site)"
      "WriteChunk env c (api_Uploader a) fs uid (int (length s)) (fc_body c) (fc_broken c) = ((0, False, Some e), fs)"
      using True uploading_reads(3) [OF up, of c] by (cases "fc_fault c ReadState") (auto simp: WriteChunk_def loadState_def)
    with ct assms(2) have "snd (handlePatch env c a fs r uid) = fs" by (cases e) (simp_all add: handlePatch_def Let_def)
    with up \<open>\<not> (\<forall>site. \<not> fc_fault c site)\<close> show ?thesis by (intro that [of s]) auto
  next
    case False
    let ?fs = "set_node fs (d @ [uid @ ''.part'']) (FFile (s @ fc_body c))"
    have "snd (handlePatch env c a fs r uid) = ?fs"
      using WriteChunk_uploading [OF up, of c "int (length s)" "fc_body c" "fc_broken c"] False ct assms(2,3)
      by (auto simp: handlePatch_def Let_def)
    with uploading_set [OF up] show ?thesis by (intro that [of "s @ fc_body c"]) simp_all
  qed
qed


text \<open>The piece that completes it, when nothing fails.\<close>

lemma handlePatch_last:
  assumes up: "uploading env (api_Uploader a) fs d uid st s" and calm: "\<forall>site. \<not> fc_fault c site" "\<not> fc_broken c"
    and head: "req_header r ''Content-Type'' = [] \<or> req_header r ''Content-Type'' = ''application/offset+octet-stream''"
      "ParseOffset (req_header r ''Upload-Offset'') = Some (int (length s))"
    and len: "int (length s) + int (length (fc_body c)) = us_Length st"
    and exp: "us_Expected st = [] \<or> EqualFold (ue_fold env) (hex_encode (ue_sha env (s @ fc_body c))) (us_Expected st)"
    and ok: "store_ok (up_store (api_Uploader a))" "api_Store a = up_store (api_Uploader a)"
    and target: "candidate (api_Store a) (us_Target st) = abs_path (t @ [e])" "CHR 0x00 \<notin> set (us_Target st)" "plain_elem e"
      "inside (api_Store a) (t @ [e])" "real_dir fs t" "\<not> fs_denied fs (t @ [e])" "node_at fs (t @ [e]) = None"
      "t @ [e] \<noteq> d @ [uid @ ''.part'']" "t @ [e] \<noteq> d @ [uid @ ''.json'']"
    and c': "\<forall>site. \<not> fc_fault c' site"
  shows "fr_status (fst (handlePatch env c a fs r uid)) = StatusNoContent"
    "map_of (fr_headers (fst (handlePatch env c a fs r uid))) ''X-Checksum-SHA256'' = Some (hex_encode (ue_sha env (s @ fc_body c)))"
    "OpenStored (ue_sha env) c' (snd (handlePatch env c a fs r uid)) (api_Store a) (us_Target st) =
       Inr (s @ fc_body c, us_Length st, hex_encode (ue_sha env (s @ fc_body c)))"
proof -
  let ?u = "api_Uploader a" and ?part = "d @ [uid @ ''.part'']" and ?json = "d @ [uid @ ''.json'']"
  let ?f1 = "set_node fs ?part (FFile (s @ fc_body c))"
  let ?f4 = "del_node (set_node (del_node ?f1 ?part) (t @ [e]) (FFile (s @ fc_body c))) ?json"
  have up1: "uploading env ?u ?f1 d uid st (s @ fc_body c)" by (rule uploading_set [OF up])
  have t1: "real_dir ?f1 t" using target(5) up by (intro real_dir_set) (simp_all add: uploading_def)
  have free: "\<not> fs_denied ?f1 (t @ [e])" "node_at ?f1 (t @ [e]) = None" using target(6-8) by simp_all
  then have "walk ?f1 255 t [e] = Inl (ENOENT (t @ [e]) True)" using target(3) by (simp add: walk_ordinary)
  then have res: "Resolve ?f1 (up_store ?u) (us_Target st) = Inr (abs_path (t @ [e]))"
    using Resolve_missing [OF ok(1) _ target(2) t1 target(3)] target(1,4) ok(2) by metis
  have fin: "Finish env c ?u ?f1 uid = ((hex_encode (ue_sha env (s @ fc_body c)), None), ?f4)"
    using Finish_ok [OF up1 calm(1) exp res t1 target(3) free(1) _ target(8,9)] free(2) by simp
  have patch: "handlePatch env c a fs r uid =
      (with_header ''Upload-Offset'' (FormatInt (us_Length st))
         (with_header ''X-Checksum-SHA256'' (hex_encode (ue_sha env (s @ fc_body c))) (file_reply StatusNoContent NoContent)), ?f4)"
    using WriteChunk_uploading [OF up, of c "int (length s)" "fc_body c" False] calm head len fin
    by (auto simp: handlePatch_def patch_done_def Let_def)
  show "fr_status (fst (handlePatch env c a fs r uid)) = StatusNoContent"
    "map_of (fr_headers (fst (handlePatch env c a fs r uid))) ''X-Checksum-SHA256'' = Some (hex_encode (ue_sha env (s @ fc_body c)))"
    by (simp_all add: patch with_header_def file_reply_def)
  have "real_dir ?f4 t"
  proof (rule real_dir_del)
    have part: "node_at ?f1 ?part \<noteq> Some FDir" by simp
    show "real_dir (set_node (del_node ?f1 ?part) (t @ [e]) (FFile (s @ fc_body c))) t"
      using free(2) by (intro real_dir_set real_dir_del [OF t1 part]) simp
    show "node_at (set_node (del_node ?f1 ?part) (t @ [e]) (FFile (s @ fc_body c))) ?json \<noteq> Some FDir"
      using up1 target(9) names_differ(1) [of uid uid] by (auto simp: uploading_def)
  qed
  then show "OpenStored (ue_sha env) c' (snd (handlePatch env c a fs r uid)) (api_Store a) (us_Target st) =
       Inr (s @ fc_body c, us_Length st, hex_encode (ue_sha env (s @ fc_body c)))"
    using OpenStored_real [OF _ target(1,2,4) _ target(3) _ _ c', of ?f4 "s @ fc_body c"] ok target(6,9) len
    by (simp add: patch)
qed


text \<open>
  A finished upload is forgotten: the state file goes with the part file, so a client whose connection broke after
  the last piece was taken, and which asks how far it got, is answered 404, as for an upload that never existed.
\<close>

lemma finished_upload_unknown:
  assumes up: "uploading env (api_Uploader a) fs d uid st s" and calm: "\<forall>site. \<not> fc_fault c site"
    and fin: "us_Expected st = [] \<or> EqualFold (ue_fold env) (hex_encode (ue_sha env s)) (us_Expected st)"
      "Resolve fs (up_store (api_Uploader a)) (us_Target st) = Inr (abs_path (t @ [e]))"
      "real_dir fs t" "plain_elem e" "\<not> fs_denied fs (t @ [e])" "node_at fs (t @ [e]) = None"
      "t @ [e] \<noteq> d @ [uid @ ''.part'']" "t @ [e] \<noteq> d @ [uid @ ''.json'']"
  shows "handleHead env c' a (snd (Finish env c (api_Uploader a) fs uid)) uid = file_reply StatusNotFound NoContent"
proof -
  let ?part = "d @ [uid @ ''.part'']" and ?json = "d @ [uid @ ''.json'']"
  let ?fs = "del_node (set_node (del_node fs ?part) (t @ [e]) (FFile s)) ?json"
  have a: "area (api_Uploader a) fs d" "validUploadID uid" "real_dir fs d" using up by (simp_all add: uploading_def area_def)
  have nodes: "node_at fs ?part = Some (FFile s)" "\<exists>blob. node_at fs ?json = Some (FFile blob)"
    using up by (auto simp: uploading_def)
  have "Finish env c (api_Uploader a) fs uid = ((hex_encode (ue_sha env s), None), ?fs)"
    using Finish_ok [OF up calm fin(1-5) _ fin(7,8)] fin(6) by simp
  moreover have "real_dir ?fs d"
    using a(3) nodes fin(6,8) names_differ(1) [of uid uid] by (intro real_dir_del real_dir_set) auto
  then have "os_stat ?fs (abs_path ?json) = Inl (ENOENT ?json True)"
    using valid_names(2) [OF a(2)] up by (simp add: os_stat_def kwalk_snoc walk_ordinary uploading_def)
  then have "os_read ?fs (statePath (api_Uploader a) uid) = Inl (ENOENT ?json True)"
    by (simp add: os_read_def upload_paths(2) [OF a(1,2)])
  ultimately show ?thesis by (simp add: handleHead_def Offset_def loadState_def)
qed


section \<open>A transfer\<close>

text \<open>
  The client resumes: it asks how far the upload got, and sends what it has from there on. \<open>rest\<close> is
  what it would send if the connection lasted.
\<close>

definition resumes ::
    "('wa, 'user, 'sess, 'parsed, 'x) dm_env \<Rightarrow> ('wa, 'user, 'sess, 'x) daemon \<Rightarrow> string \<Rightarrow> string \<Rightarrow>
     dm_call \<Rightarrow> dm_call \<Rightarrow> dm_call \<Rightarrow> string \<Rightarrow> bool" where
  "resumes env d uid content hch hc pc rest \<longleftrightarrow>
     dc_escaped hc = upload_path uid \<and> req_method (dc_req hc) = MethodHead \<and>
     dc_escaped pc = upload_path uid \<and> req_method (dc_req pc) = MethodPatch \<and>
     (\<exists>offset n. header_value (fst (exchange env d hch hc)) ''Upload-Offset'' = Some offset \<and>
        req_header (dc_req pc) ''Upload-Offset'' = offset \<and> ParseOffset offset = Some n \<and> rest = drop (nat n) content)"

text \<open>
  The way of an upload after its creation. A piece may be cut off anywhere, by the network or by the end of
  the process; the daemon may be stopped and started again on what it left behind; and other requests may
  come between the client's, as long as they leave the files and the device alone.
\<close>

inductive transfer ::
    "('wa, 'user, 'sess, 'parsed, 'x) dm_env \<Rightarrow> place \<Rightarrow> string \<Rightarrow> string \<Rightarrow> string \<Rightarrow> string \<Rightarrow>
     'x host \<Rightarrow> ('wa, 'user, 'sess, 'parsed, 'x) dm_env \<Rightarrow> ('wa, 'user, 'sess, 'x) daemon \<Rightarrow>
     'x host \<Rightarrow> ('wa, 'user, 'sess, 'parsed, 'x) dm_env \<Rightarrow> ('wa, 'user, 'sess, 'x) daemon \<Rightarrow> bool"
  for lib pl did pub uid content h0 env0 d0 where
  begun: "transfer lib pl did pub uid content h0 env0 d0 h0 env0 d0"
| piece: "transfer lib pl did pub uid content h0 env0 d0 h env d \<Longrightarrow>
    device_pair (de_ed lib) did pub hch hc \<Longrightarrow> device_pair (de_ed lib) did pub pch pc \<Longrightarrow>
    resumes env d uid content hch hc pc rest \<Longrightarrow> prefix (fc_body (dc_files pc)) rest \<Longrightarrow>
    fc_broken (dc_files pc) \<or> fc_body (dc_files pc) \<noteq> rest \<Longrightarrow>
    transfer lib pl did pub uid content h0 env0 d0 h env (snd (exchange env (snd (exchange env d hch hc)) pch pc))"
| restarted: "transfer lib pl did pub uid content h0 env0 d0 h env d \<Longrightarrow>
    startDaemon lib fl (shut_down h fl d) = Inr (env', d') \<Longrightarrow> names_place fl pl \<Longrightarrow>
    transfer lib pl did pub uid content h0 env0 d0 (shut_down h fl d) env' d'"
| meanwhile: "transfer lib pl did pub uid content h0 env0 d0 h env d \<Longrightarrow> d' = snd (serve env d c) \<Longrightarrow>
    dm_files d' = dm_files d \<Longrightarrow> knows d' did pub \<Longrightarrow>
    transfer lib pl did pub uid content h0 env0 d0 h env d'"

abbreviation calm :: "dm_call \<Rightarrow> bool" where
  "calm c \<equiv> \<forall>site. \<not> fc_fault (dc_files c) site"

text \<open>What holds all the way: the part file has a beginning of the content, everything else is as it was.\<close>

definition underway ::
    "('wa, 'user, 'sess, 'parsed, 'x) dm_env \<Rightarrow> place \<Rightarrow> string \<Rightarrow> string \<Rightarrow> string \<Rightarrow> string \<Rightarrow> uploadState \<Rightarrow> fsys \<Rightarrow>
     ('wa, 'user, 'sess, 'parsed, 'x) dm_env \<Rightarrow> ('wa, 'user, 'sess, 'x) daemon \<Rightarrow> string \<Rightarrow> bool" where
  "underway lib pl did pub uid content st fs0 env d s \<longleftrightarrow>
     wired lib pl env \<and> knows d did pub \<and> prefix s content \<and> us_Length st = int (length content) \<and>
     int (length content) \<le> max_int64 \<and> at_place pl (dm_files d) \<and>
     uploading (de_upload lib) (place_uploader pl) (dm_files d) (pl_uploads pl) uid st s \<and>
     (\<forall>p. p \<noteq> pl_uploads pl @ [uid @ ''.part''] \<longrightarrow> node_at (dm_files d) p = node_at fs0 p) \<and>
     fs_denied (dm_files d) = fs_denied fs0"

lemma ParseOffset_FormatInt: "int n \<le> max_int64 \<Longrightarrow> ParseOffset (FormatInt (int n)) = Some (int n)"
  using ParseInt_decimal [of n] by (simp add: ParseOffset_def FormatInt_def)

lemma exchange_upload:
  assumes "device_pair (de_ed lib) did pub ch c" "wired lib pl env" "knows d did pub" "validUploadID uid"
    and "dc_escaped c = upload_path uid" "req_method (dc_req c) = MethodHead \<or> req_method (dc_req c) = MethodPatch"
  obtains a resp fs where "exchange env d ch c = (file_answer (upload_path uid) (setTusHeaders resp), d\<lparr>dm_auth := a, dm_files := fs\<rparr>)"
    "req_method (dc_req c) = MethodHead \<Longrightarrow>
       resp = handleHead (de_upload lib) (dc_files c) (place_api pl) (dm_files d) uid \<and> fs = dm_files d"
    "req_method (dc_req c) = MethodPatch \<Longrightarrow>
       handlePatch (de_upload lib) (dc_files c) (place_api pl) (dm_files d) (routed_request c (upload_path uid)) uid = (resp, fs)"
proof -
  have env: "de_upload env = de_upload lib" "de_api env = place_api pl" "de_ed env = de_ed lib"
    using assms(2) by (simp_all add: wired_def)
  have "\<exists>uid'. upload_path uid = ''/files/upload/'' @ uid' \<and> uid' \<noteq> [] \<and> ident_string uid'"
    using validUploadID_ident [OF assms(4)] by (auto simp: upload_path_def)
  then have route: "findHandler root_table (req_method (dc_req c)) (dc_escaped c) = Handler Files"
    "PathUnescape (dc_escaped c) = Some (upload_path uid)"
    unfolding assms(5) by (blast intro: files_route)+
  let ?r = "routed_request c (upload_path uid)"
  have r: "req_path ?r = upload_path uid" "req_method ?r = req_method (dc_req c)"
    by (simp_all add: routed_request_def Let_def)
  define res where "res = (if req_method (dc_req c) = MethodHead
     then (handleHead (de_upload lib) (dc_files c) (place_api pl) (dm_files d) uid, dm_files d)
     else handlePatch (de_upload lib) (dc_files c) (place_api pl) (dm_files d) ?r uid)"
  have "RegisterFiles (de_upload env) (de_quote env) (dc_files c) (de_api env) (dm_files d) ?r = (setTusHeaders (fst res), snd res)"
    using upload_request [OF assms(4) r(1), of "de_upload lib" "de_quote env" "dc_files c" "place_api pl" "dm_files d"] assms(6) r(2)
    by (auto simp: res_def env)
  from exchange_files [OF assms(1) [folded env(3)] assms(3) route this]
  obtain a where "exchange env d ch c = (file_answer (upload_path uid) (setTusHeaders (fst res)), d\<lparr>dm_auth := a, dm_files := snd res\<rparr>)"
    by blast
  then show ?thesis by (rule that) (auto simp: res_def)
qed

text \<open>The HEAD request of a client that resumes: its answer names what is stored.\<close>

lemma resumes_offset:
  assumes "underway lib pl did pub uid content st fs0 env d s" "device_pair (de_ed lib) did pub hch hc"
    and "resumes env d uid content hch hc pc rest"
  shows "rest = drop (length s) content" "ParseOffset (req_header (dc_req pc) ''Upload-Offset'') = Some (int (length s))"
    "\<exists>a. snd (exchange env d hch hc) = d\<lparr>dm_auth := a\<rparr>"
proof -
  have up: "uploading (de_upload lib) (api_Uploader (place_api pl)) (dm_files d) (pl_uploads pl) uid st s" "wired lib pl env"
    "knows d did pub" and len: "length s \<le> length content" "int (length content) \<le> max_int64"
    using assms(1) by (auto simp: underway_def place_api_def dest: prefix_length_le)
  have uid: "validUploadID uid" using up(1) by (simp add: uploading_def)
  have head: "dc_escaped hc = upload_path uid" "req_method (dc_req hc) = MethodHead" using assms(3) by (simp_all add: resumes_def)
  obtain a where x: "exchange env d hch hc = (file_answer (upload_path uid) (setTusHeaders
      (handleHead (de_upload lib) (dc_files hc) (place_api pl) (dm_files d) uid)), d\<lparr>dm_auth := a\<rparr>)"
    by (rule exchange_upload [OF assms(2) up(2,3) uid head(1)]) (use head(2) in \<open>auto simp: that\<close>)
  then show "\<exists>a. snd (exchange env d hch hc) = d\<lparr>dm_auth := a\<rparr>" by (intro exI [of _ a]) simp
  have "header_value (fst (exchange env d hch hc)) ''Upload-Offset'' \<in> {None, Some (FormatInt (int (length s)))}"
    using handleHead_uploading [OF up(1), of "dc_files hc"] x
    by (auto simp: header_value_def file_answer_def secure_header_list_def setTusHeaders_def with_header_def file_reply_def)
  with assms(3) ParseOffset_FormatInt [of "length s"] len
  show "rest = drop (length s) content" "ParseOffset (req_header (dc_req pc) ''Upload-Offset'') = Some (int (length s))"
    by (auto simp: resumes_def)
qed

lemma underway_piece:
  assumes un: "underway lib pl did pub uid content st fs0 env d s"
    and pairs: "device_pair (de_ed lib) did pub hch hc" "device_pair (de_ed lib) did pub pch pc"
    and res: "resumes env d uid content hch hc pc rest" "prefix (fc_body (dc_files pc)) rest"
      "fc_broken (dc_files pc) \<or> fc_body (dc_files pc) \<noteq> rest"
  shows "\<exists>s'. underway lib pl did pub uid content st fs0 env (snd (exchange env (snd (exchange env d hch hc)) pch pc)) s' \<and>
    (calm pc \<and> req_header (dc_req pc) ''Content-Type'' = [] \<longrightarrow> s' = s @ fc_body (dc_files pc))"
proof -
  note off = resumes_offset [OF un pairs(1) res(1)]
  from off(3) obtain a1 where d1: "snd (exchange env d hch hc) = d\<lparr>dm_auth := a1\<rparr>" by blast
  have un1: "wired lib pl env" "knows (d\<lparr>dm_auth := a1\<rparr>) did pub"
    and up: "uploading (de_upload lib) (api_Uploader (place_api pl)) (dm_files d) (pl_uploads pl) uid st s"
    and s: "prefix s content" "us_Length st = int (length content)"
    using un by (simp_all add: underway_def place_api_def)
  have uid: "validUploadID uid" using up by (simp add: uploading_def)
  let ?r = "routed_request pc (upload_path uid)" and ?b = "fc_body (dc_files pc)"
  have patch: "dc_escaped pc = upload_path uid" "req_method (dc_req pc) = MethodPatch" using res(1) by (simp_all add: resumes_def)
  obtain a2 fs where x: "snd (exchange env (d\<lparr>dm_auth := a1\<rparr>) pch pc) = d\<lparr>dm_auth := a2, dm_files := fs\<rparr>"
    and fs: "snd (handlePatch (de_upload lib) (dc_files pc) (place_api pl) (dm_files d) ?r uid) = fs"
    by (rule exchange_upload [OF pairs(2) un1 uid patch(1)]) (use patch(2) in \<open>auto simp: that\<close>)
  have head: "ParseOffset (req_header ?r ''Upload-Offset'') = Some (int (length s))"
    using off(2) by (simp add: routed_request_def Let_def)
  have content: "content = s @ rest" using s(1) off(1) by (auto simp: prefix_def)
  have "fc_broken (dc_files pc) \<or> length ?b < length rest"
    using res(2,3) by (auto simp: prefix_def)
  then have part: "fc_broken (dc_files pc) \<or> int (length s) + int (length ?b) < us_Length st"
    using s(2) content by auto
  have r: "req_header ?r = req_header (dc_req pc)" by (simp add: routed_request_def Let_def)
  obtain s' where s': "s' = s \<or> s' = s @ ?b" "calm pc \<and> req_header (dc_req pc) ''Content-Type'' = [] \<longrightarrow> s' = s @ ?b"
    and up': "uploading (de_upload lib) (api_Uploader (place_api pl)) fs (pl_uploads pl) uid st s'"
    and same: "\<forall>p. p \<noteq> pl_uploads pl @ [uid @ ''.part''] \<longrightarrow> node_at fs p = node_at (dm_files d) p"
      "fs_denied fs = fs_denied (dm_files d)"
    using handlePatch_piece [OF up head part] fs unfolding r by metis
  have "prefix s' content" using s' s(1) res(2) content by auto
  moreover have "at_place pl fs"
  proof (rule at_place_frame [OF _ _ same])
    show "at_place pl (dm_files d)" using un by (simp add: underway_def)
    show "node_at (dm_files d) (pl_uploads pl @ [uid @ ''.part'']) = Some (FFile s)" using up by (simp add: uploading_def)
  qed
  ultimately have "underway lib pl did pub uid content st fs0 env (d\<lparr>dm_auth := a2, dm_files := fs\<rparr>) s'"
    using un up' same by (simp add: underway_def place_api_def)
  with s'(2) show ?thesis using x by (auto simp: d1)
qed

lemma underway_restart:
  assumes "underway lib pl did pub uid content st fs0 env d s" "startDaemon lib fl (shut_down h fl d) = Inr (env', d')" "names_place fl pl"
  shows "underway lib pl did pub uid content st fs0 env' d' s"
proof -
  have "at_place pl (ho_fs (shut_down h fl d))" using assms(1) by (simp add: underway_def shut_down_def)
  note start = start_at_place [OF assms(2,3) this]
  show ?thesis using assms(1,3) start by (simp add: underway_def shut_down_def names_place_def)
qed

lemma transfer_underway:
  assumes "transfer lib pl did pub uid content h0 env0 d0 h env d"
    and "underway lib pl did pub uid content st fs0 env0 d0 s0"
  shows "\<exists>s. underway lib pl did pub uid content st fs0 env d s"
  using assms(1)
proof (induction rule: transfer.induct)
  case begun
  with assms(2) show ?case by blast
next
  case (piece h env d hch hc pch pc rest)
  then show ?case using underway_piece by blast
next
  case (restarted h env d fl env' d')
  then show ?case using underway_restart by blast
next
  case (meanwhile h env d d' c)
  then obtain s where "underway lib pl did pub uid content st fs0 env d s" by blast
  with meanwhile(3,4) have "underway lib pl did pub uid content st fs0 env d' s" by (simp add: underway_def)
  then show ?case by blast
qed

text \<open>A client can always resume: when nothing fails, the answer to its HEAD request names an offset.\<close>

lemma resumes_calm:
  assumes "underway lib pl did pub uid content st fs0 env d s" "device_pair (de_ed lib) did pub hch hc"
    and "dc_escaped hc = upload_path uid" "req_method (dc_req hc) = MethodHead" "calm hc"
    and "dc_escaped pc = upload_path uid" "req_method (dc_req pc) = MethodPatch"
    and "req_header (dc_req pc) ''Upload-Offset'' = FormatInt (int (length s))"
  shows "resumes env d uid content hch hc pc (drop (length s) content)"
proof -
  have up: "uploading (de_upload lib) (api_Uploader (place_api pl)) (dm_files d) (pl_uploads pl) uid st s" "wired lib pl env"
    "knows d did pub" and len: "int (length s) \<le> max_int64"
    using assms(1) by (auto simp: underway_def place_api_def dest: prefix_length_le)
  have uid: "validUploadID uid" using up(1) by (simp add: uploading_def)
  have "fst (exchange env d hch hc) = file_answer (upload_path uid) (setTusHeaders
      (handleHead (de_upload lib) (dc_files hc) (place_api pl) (dm_files d) uid))"
    by (rule exchange_upload [OF assms(2) up(2,3) uid assms(3)]) (use assms(4) in auto)
  moreover have "handleHead (de_upload lib) (dc_files hc) (place_api pl) (dm_files d) uid \<noteq> file_reply StatusNotFound NoContent"
    using uploading_reads(1) [OF up(1)] uploading_reads(3) [OF up(1), of "dc_files hc"] assms(5)
    by (simp add: handleHead_def Offset_def with_header_def file_reply_def)
  ultimately have "header_value (fst (exchange env d hch hc)) ''Upload-Offset'' = Some (FormatInt (int (length s)))"
    using handleHead_uploading [OF up(1), of "dc_files hc"]
    by (simp add: header_value_def file_answer_def secure_header_list_def setTusHeaders_def with_header_def)
  with assms ParseOffset_FormatInt [OF len] show ?thesis by (simp add: resumes_def)
qed


section \<open>Creation and delivery\<close>

definition creates :: "dm_call \<Rightarrow> string \<Rightarrow> string \<Rightarrow> nat \<Rightarrow> bool" where
  "creates c target expected len \<longleftrightarrow> dc_escaped c = ''/files/upload'' \<and> req_method (dc_req c) = MethodPost \<and>
     req_header (dc_req c) ''Upload-Length'' = FormatInt (int len) \<and>
     req_header (dc_req c) ''Upload-Metadata'' = encode_metadata [(''filename'', target), (''sha256'', expected)]"

definition fetches :: "dm_call \<Rightarrow> string \<Rightarrow> bool" where
  "fetches c target \<longleftrightarrow> dc_escaped c = ''/files/download'' \<and> req_method (dc_req c) = MethodGet \<and>
     req_query (dc_req c) ''path'' = target"

lemma new_upload_id: "length rnd = 12 \<Longrightarrow> validUploadID (hex_encode rnd)"
  using hex_encode_ident [of rnd] by (cases rnd) (auto simp: validUploadID_def runes_ident_iff)

lemma creation:
  assumes env: "wired lib pl env" "knows d did pub" "at_place pl (dm_files d)" "device_pair (de_ed lib) did pub ch c"
    and c: "creates c target expected (length content)" "fc_rnd (dc_files c) = Some rnd" "length rnd = 12" "calm c"
    and uid: "uid = hex_encode rnd" "int (length content) \<le> max_int64"
    and free: "\<not> fs_denied (dm_files d) (pl_uploads pl @ [uid @ ''.part''])" "\<not> fs_denied (dm_files d) (pl_uploads pl @ [uid @ ''.json''])"
      "node_at (dm_files d) (pl_uploads pl @ [uid @ ''.part'']) = None" "node_at (dm_files d) (pl_uploads pl @ [uid @ ''.json'']) = None"
    and target: "target \<noteq> []" "Resolve (dm_files d) (place_store pl) target = Inr p"
    and st: "st = \<lparr>us_ID = uid, us_Target = target, us_Length = int (length content), us_Expected = ue_lower (de_upload lib) expected\<rparr>"
      "ue_unmarshal (de_upload lib) (ue_marshal (de_upload lib) st) = Some st"
  obtains a fs where "dr_status (fst (exchange env d ch c)) = StatusCreated"
    "header_value (fst (exchange env d ch c)) ''Location'' = Some (upload_path uid)"
    "snd (exchange env d ch c) = d\<lparr>dm_auth := a, dm_files := fs\<rparr>"
    "fs = set_node (set_node (dm_files d) (pl_uploads pl @ [uid @ ''.part'']) (FFile []))
       (pl_uploads pl @ [uid @ ''.json'']) (FFile (ue_marshal (de_upload lib) st))"
    "underway lib pl did pub uid content st fs env (d\<lparr>dm_auth := a, dm_files := fs\<rparr>) []"
proof -
  have w: "de_upload env = de_upload lib" "de_api env = place_api pl" "de_ed env = de_ed lib"
    using env(1) by (simp_all add: wired_def)
  have valid: "validUploadID uid" using new_upload_id [OF c(3)] uid(1) by simp
  have path: "dc_escaped c = ''/files/upload''" "req_method (dc_req c) = MethodPost" using c(1) by (simp_all add: creates_def)
  have route: "findHandler root_table (req_method (dc_req c)) (dc_escaped c) = Handler Files"
    "PathUnescape (dc_escaped c) = Some ''/files/upload''"
    unfolding path(1) by (rule files_route; simp)+
  let ?r = "routed_request c ''/files/upload''" and ?meta = "map_of [(''sha256'', expected), (''filename'', target)]"
  have r: "req_path ?r = ''/files/upload''" "req_method ?r = MethodPost" "req_header ?r = req_header (dc_req c)"
    using path(2) by (simp_all add: routed_request_def Let_def)
  have meta: "ParseUploadMetadata (req_header ?r ''Upload-Metadata'') = ?meta"
    "ParseOffset (req_header ?r ''Upload-Length'') = Some (int (length content))"
    using upload_headers_roundtrip [of "[(''filename'', target), (''sha256'', expected)]" "length content"] uid(2) c(1)
    by (simp_all add: creates_def r(3) metadata_key_def)
  have area: "area (place_uploader pl) (dm_files d) (pl_uploads pl)"
    using env(3) by (simp add: area_def at_place_def place_uploader_def)
  have "up_store (place_uploader pl) = place_store pl" by (simp add: place_uploader_def)
  with Create_uploading [OF area valid c(4) _ free _ st] target(2)
  obtain fs where cr: "UploadCreate (de_upload lib) (dc_files c) (place_uploader pl) (dm_files d) uid target (int (length content)) expected
      = (None, fs)"
    and up: "uploading (de_upload lib) (place_uploader pl) fs (pl_uploads pl) uid st []"
    and fs: "fs = set_node (set_node (dm_files d) (pl_uploads pl @ [uid @ ''.part'']) (FFile []))
       (pl_uploads pl @ [uid @ ''.json'']) (FFile (ue_marshal (de_upload lib) st))"
    by (metis of_nat_0_le_iff)
  let ?resp = "setTusHeaders (with_header ''Location'' (upload_path uid) (with_header ''Upload-Offset'' ''0'' (file_reply StatusCreated NoContent)))"
  have "handleUploadCreate (de_upload lib) (dc_files c) (place_api pl) (dm_files d) ?r = (?resp, fs)"
    using meta r cr c(2) target(1) uid(1)
    by (simp add: handleUploadCreate_def meta_value_def upload_target_def newUploadID_def place_api_def upload_path_def)
  then have "RegisterFiles (de_upload env) (de_quote env) (dc_files c) (de_api env) (dm_files d) ?r = (?resp, fs)"
    using r by (simp add: RegisterFiles_def w)
  from exchange_files [OF env(4) [folded w(3)] env(2) route this]
  obtain a where x: "exchange env d ch c = (file_answer ''/files/upload'' ?resp, d\<lparr>dm_auth := a, dm_files := fs\<rparr>)" by blast
  have "at_place pl fs"
    unfolding fs using env(3) free(3,4) names_differ(1) [of uid uid]
    by (auto simp: at_place_def intro!: real_dir_set)
  then have "underway lib pl did pub uid content st fs env (d\<lparr>dm_auth := a, dm_files := fs\<rparr>) []"
    using env(1,2) st(1) uid(2) up by (simp add: underway_def)
  with x fs show ?thesis
    by (intro that [where a = a and fs = fs])
      (simp_all add: file_answer_def header_value_def setTusHeaders_def with_header_def file_reply_def secure_header_list_def)
qed

lemma download:
  assumes "wired lib pl env" "knows d did pub" "device_pair (de_ed lib) did pub ch c" "fetches c target" "target \<noteq> []"
    and "OpenStored (ue_sha (de_upload lib)) (dc_files c) (dm_files d) (place_store pl) target = Inr (content, len, digest)"
  shows "dr_status (fst (exchange env d ch c)) = StatusOK" "dr_body (fst (exchange env d ch c)) = FileReply (Content content)"
    "header_value (fst (exchange env d ch c)) ''X-Checksum-SHA256'' = Some digest"
proof -
  have w: "de_upload env = de_upload lib" "de_api env = place_api pl" "de_ed env = de_ed lib"
    using assms(1) by (simp_all add: wired_def)
  have path: "dc_escaped c = ''/files/download''" using assms(4) by (simp add: fetches_def)
  have route: "findHandler root_table (req_method (dc_req c)) (dc_escaped c) = Handler Files"
    "PathUnescape (dc_escaped c) = Some ''/files/download''"
    unfolding path by (rule files_route; simp)+
  let ?r = "routed_request c ''/files/download''"
  define resp where "resp = handleDownload (ue_sha (de_upload lib)) (de_quote env) (dc_files c) (place_api pl) (dm_files d) ?r"
  have r: "req_path ?r = ''/files/download''" by (simp add: routed_request_def Let_def)
  have "RegisterFiles (de_upload env) (de_quote env) (dc_files c) (de_api env) (dm_files d) ?r = (resp, dm_files d)"
    by (simp add: RegisterFiles_def r resp_def w)
  from exchange_files [OF assms(3) [folded w(3)] assms(2) route this]
  have x: "fst (exchange env d ch c) = file_answer ''/files/download'' resp" by (metis fst_conv)
  have "req_method ?r = MethodGet" "req_query ?r ''path'' = target"
    using assms(4) by (simp_all add: fetches_def routed_request_def Let_def)
  with assms(5,6) have resp: "fr_status resp = StatusOK" "fr_body resp = Content content"
    "map_of (fr_headers resp) ''X-Checksum-SHA256'' = Some digest"
    by (simp_all add: resp_def handleDownload_def place_api_def)
  show "dr_status (fst (exchange env d ch c)) = StatusOK" "dr_body (fst (exchange env d ch c)) = FileReply (Content content)"
    "header_value (fst (exchange env d ch c)) ''X-Checksum-SHA256'' = Some digest"
    using resp by (simp_all add: x file_answer_def header_value_def map_add_def secure_header_list_def)
qed


text \<open>The last piece, from whatever point the upload has reached.\<close>

lemma delivery:
  assumes un: "underway lib pl did pub uid content st fs env d s" and ok: "store_ok (place_store pl)"
    and hash: "us_Expected st = [] \<or>
      EqualFold (ue_fold (de_upload lib)) (hex_encode (ue_sha (de_upload lib) content)) (us_Expected st)"
    and target: "us_Target st = target" "target \<noteq> []" "CHR 0x00 \<notin> set target" "candidate (place_store pl) target = abs_path (t @ [e])"
      "plain_elem e" "inside (place_store pl) (t @ [e])" "real_dir fs t" "\<not> fs_denied fs (t @ [e])" "node_at fs (t @ [e]) = None"
      "t @ [e] \<noteq> pl_uploads pl @ [uid @ ''.part'']" "t @ [e] \<noteq> pl_uploads pl @ [uid @ ''.json'']"
      "node_at fs (pl_uploads pl @ [uid @ ''.part'']) \<noteq> Some FDir"
    and last: "device_pair (de_ed lib) did pub hch hc" "device_pair (de_ed lib) did pub pch pc"
      "resumes env d uid content hch hc pc (fc_body (dc_files pc))" "\<not> fc_broken (dc_files pc)" "calm pc"
      "req_header (dc_req pc) ''Content-Type'' = ''application/offset+octet-stream''"
    and get: "device_pair (de_ed lib) did pub gch gc" "fetches gc target" "calm gc"
  shows "let (resp, d') = exchange env (snd (exchange env d hch hc)) pch pc in
     dr_status resp = StatusNoContent \<and>
     header_value resp ''X-Checksum-SHA256'' = Some (hex_encode (ue_sha (de_upload lib) content)) \<and>
     dr_status (fst (exchange env d' gch gc)) = StatusOK \<and>
     dr_body (fst (exchange env d' gch gc)) = FileReply (Content content)"
proof -
  have w: "wired lib pl env" "knows d did pub"
    and up: "uploading (de_upload lib) (api_Uploader (place_api pl)) (dm_files d) (pl_uploads pl) uid st s"
    and s: "prefix s content" "us_Length st = int (length content)"
    and same: "\<forall>p. p \<noteq> pl_uploads pl @ [uid @ ''.part''] \<longrightarrow> node_at (dm_files d) p = node_at fs p" "fs_denied (dm_files d) = fs_denied fs"
    using un by (simp_all add: underway_def place_api_def)
  have uid: "validUploadID uid" using up by (simp add: uploading_def)
  note off = resumes_offset [OF un last(1,3)]
  from off(3) obtain a1 where d1: "snd (exchange env d hch hc) = d\<lparr>dm_auth := a1\<rparr>" by blast
  let ?r = "routed_request pc (upload_path uid)"
  have patch: "dc_escaped pc = upload_path uid" "req_method (dc_req pc) = MethodPatch" using last(3) by (simp_all add: resumes_def)
  have kn: "knows (d\<lparr>dm_auth := a1\<rparr>) did pub" using w(2) by simp
  obtain a2 resp f3 where x: "exchange env (d\<lparr>dm_auth := a1\<rparr>) pch pc =
      (file_answer (upload_path uid) (setTusHeaders resp), d\<lparr>dm_auth := a2, dm_files := f3\<rparr>)"
    and hp: "handlePatch (de_upload lib) (dc_files pc) (place_api pl) (dm_files d) ?r uid = (resp, f3)"
    by (rule exchange_upload [OF last(2) w(1) kn uid patch(1)]) (use patch(2) in \<open>auto simp: that\<close>)
  have r: "req_header ?r = req_header (dc_req pc)" by (simp add: routed_request_def Let_def)
  have content: "s @ fc_body (dc_files pc) = content" using s(1) off(1) by (auto simp: prefix_def)
  have t: "real_dir (dm_files d) t" using same target(12) by (intro real_dir_mono [OF target(7)]) metis+
  have free': "\<not> fs_denied (dm_files d) (t @ [e])" "node_at (dm_files d) (t @ [e]) = None"
    using same target(8-11) by simp_all
  have "length s + length (fc_body (dc_files pc)) = length content" using content by auto
  then have len: "int (length s) + int (length (fc_body (dc_files pc))) = us_Length st" using s(2) by simp
  have api: "up_store (api_Uploader (place_api pl)) = place_store pl" "api_Store (place_api pl) = place_store pl"
    by (simp_all add: place_defs)
  note last_piece = handlePatch_last [OF up last(5,4) _ _ len, of ?r t e "dc_files gc", unfolded r api target(1) content hp fst_conv snd_conv,
      OF _ off(2) hash ok _ target(4,3,5,6) t free' target(10,11) get(3)]
  have fin: "dr_status (file_answer (upload_path uid) (setTusHeaders resp)) = StatusNoContent"
    "header_value (file_answer (upload_path uid) (setTusHeaders resp)) ''X-Checksum-SHA256'' =
       Some (hex_encode (ue_sha (de_upload lib) content))"
    using last_piece(1,2) last(6) by (simp_all add: file_answer_def header_value_def setTusHeaders_def with_header_def secure_header_list_def)
  have "OpenStored (ue_sha (de_upload lib)) (dc_files gc) (dm_files (d\<lparr>dm_auth := a2, dm_files := f3\<rparr>)) (place_store pl) target =
      Inr (content, us_Length st, hex_encode (ue_sha (de_upload lib) content))"
    using last_piece(3) last(6) by simp
  note got = download [OF w(1) _ get(1,2) target(2) this]
  show ?thesis using fin got(1,2) w(2) by (simp add: d1 x)
qed


section \<open>Properties\<close>

text \<open>
  C13. An upload survives whatever interrupts it. A paired device creates an upload with the file's length,
  name and hash. After that its pieces may be cut off anywhere, the daemon may be stopped or killed between
  two requests or in the middle of a piece and started again, any number of times, and other requests that
  leave the files and the device alone may come between, as long as the client, before each piece, asks how
  far the upload got and goes on from there. Whenever the connection then lasts for the rest, the last piece is
  answered with success and the hash of the file, and a download delivers the file byte for byte.
\<close>

theorem upload_survives_restarts:
  assumes start: "startDaemon lib fl h0 = Inr (env0, d0)" "names_place fl pl" "at_place pl (ho_fs h0)" "knows d0 did pub"
    and create: "device_pair (de_ed lib) did pub cch cc" "creates cc target expected (length content)"
      "fc_rnd (dc_files cc) = Some rnd" "length rnd = 12" "uid = hex_encode rnd" "calm cc" "int (length content) \<le> max_int64"
    and free: "\<not> fs_denied (ho_fs h0) (pl_uploads pl @ [uid @ ''.part''])" "\<not> fs_denied (ho_fs h0) (pl_uploads pl @ [uid @ ''.json''])"
      "node_at (ho_fs h0) (pl_uploads pl @ [uid @ ''.part'']) = None" "node_at (ho_fs h0) (pl_uploads pl @ [uid @ ''.json'']) = None"
    and target: "target \<noteq> []" "CHR 0x00 \<notin> set target" "candidate (place_store pl) target = abs_path (t @ [e])" "plain_elem e"
      "inside (place_store pl) (t @ [e])" "real_dir (ho_fs h0) t" "\<not> fs_denied (ho_fs h0) (t @ [e])"
      "node_at (ho_fs h0) (t @ [e]) = None"
      "t @ [e] \<noteq> pl_uploads pl @ [uid @ ''.part'']" "t @ [e] \<noteq> pl_uploads pl @ [uid @ ''.json'']"
    and st: "st = \<lparr>us_ID = uid, us_Target = target, us_Length = int (length content), us_Expected = ue_lower (de_upload lib) expected\<rparr>"
      "ue_unmarshal (de_upload lib) (ue_marshal (de_upload lib) st) = Some st"
    and hash: "us_Expected st = [] \<or>
      EqualFold (ue_fold (de_upload lib)) (hex_encode (ue_sha (de_upload lib) content)) (us_Expected st)"
    and way: "transfer lib pl did pub uid content h0 env0 (snd (exchange env0 d0 cch cc)) h env d"
    and last: "device_pair (de_ed lib) did pub hch hc" "device_pair (de_ed lib) did pub pch pc"
      "resumes env d uid content hch hc pc (fc_body (dc_files pc))" "\<not> fc_broken (dc_files pc)" "calm pc"
      "req_header (dc_req pc) ''Content-Type'' = ''application/offset+octet-stream''"
    and get: "device_pair (de_ed lib) did pub gch gc" "fetches gc target" "calm gc"
  shows "dr_status (fst (exchange env0 d0 cch cc)) = StatusCreated \<and>
     header_value (fst (exchange env0 d0 cch cc)) ''Location'' = Some (upload_path uid) \<and>
     (let (resp, d') = exchange env (snd (exchange env d hch hc)) pch pc in
        dr_status resp = StatusNoContent \<and>
        header_value resp ''X-Checksum-SHA256'' = Some (hex_encode (ue_sha (de_upload lib) content)) \<and>
        dr_status (fst (exchange env d' gch gc)) = StatusOK \<and>
        dr_body (fst (exchange env d' gch gc)) = FileReply (Content content))"
proof -
  note s0 = start_at_place [OF start(1-3)]
  note ok = place_store_ok [OF start(3)]
  have "walk (ho_fs h0) 255 t [e] = Inl (ENOENT (t @ [e]) True)" using target(4,7,8) by (simp add: walk_ordinary)
  then have "Resolve (dm_files d0) (place_store pl) target = Inr (abs_path (t @ [e]))"
    unfolding s0(2) by (rule Resolve_missing [OF ok target(3,2,6,4) _ target(5)])
  then obtain a fs where made: "dr_status (fst (exchange env0 d0 cch cc)) = StatusCreated"
      "header_value (fst (exchange env0 d0 cch cc)) ''Location'' = Some (upload_path uid)"
    and x0: "snd (exchange env0 d0 cch cc) = d0\<lparr>dm_auth := a, dm_files := fs\<rparr>"
    and fs: "fs = set_node (set_node (ho_fs h0) (pl_uploads pl @ [uid @ ''.part'']) (FFile []))
        (pl_uploads pl @ [uid @ ''.json'']) (FFile (ue_marshal (de_upload lib) st))"
    and un0: "underway lib pl did pub uid content st fs env0 (d0\<lparr>dm_auth := a, dm_files := fs\<rparr>) []"
    using creation [OF s0(1) start(4) _ create(1,2,3,4,6,5,7) _ _ _ _ target(1) _ st] start(3) free
    unfolding s0(2) by metis
  obtain s where un: "underway lib pl did pub uid content st fs env d s"
    using transfer_underway [OF way [unfolded x0] un0] by blast
  have "us_Target st = target" using st(1) by simp
  moreover have "real_dir fs t"
    unfolding fs using target(6) free(3,4) names_differ(1) [of uid uid] by (intro real_dir_set) auto
  moreover have "\<not> fs_denied fs (t @ [e])" "node_at fs (t @ [e]) = None" using target(7-10) by (simp_all add: fs)
  moreover have "node_at fs (pl_uploads pl @ [uid @ ''.part'']) \<noteq> Some FDir" using names_differ(1) [of uid uid] by (simp add: fs)
  ultimately show ?thesis
    using made delivery [OF un ok hash _ target(1-5) _ _ _ target(9,10) _ last get] by metis
qed

text \<open>
  The small installation, with a codec for the state of the one upload: the first piece is cut off after a byte, the daemon
  is restarted, and the second piece completes the file.
\<close>

definition up_rnd :: string where "up_rnd = ''0123456789ab''"

definition up_lib :: "(unit, unit, unit, string, unit) dm_env" where
  "up_lib = site_lib\<lparr>de_upload := demo_upload_env\<lparr>ue_unmarshal :=
     (\<lambda>b. Some \<lparr>us_ID = hex_encode up_rnd, us_Target = b, us_Length = 3, us_Expected = []\<rparr>)\<rparr>\<rparr>"

definition up_place :: place where
  "up_place = \<lparr>pl_roots = [[''srv'']], pl_uploads = [''up''], pl_db = [], pl_file = ''/d.db''\<rparr>"

definition up_call :: "string \<Rightarrow> string \<Rightarrow> (string \<times> string) list \<Rightarrow> string \<Rightarrow> bool \<Rightarrow> dm_call" where
  "up_call meth path headers body broken = (site_call 2 path (\<lambda>_. []) (\<lambda>_. []))
     \<lparr>dc_req := \<lparr>req_method = meth, req_path = [], req_remote = ''127.0.0.1:5000'', req_host = ''localhost'',
        req_header = (\<lambda>h. case map_of ([(''X-Device-Id'', ''d''), (''X-Device-Signature'', StdEncode ''n'')] @ headers) h of
          None \<Rightarrow> [] | Some v \<Rightarrow> v),
        req_query = (\<lambda>_. ''/srv/g''), req_json = JsonEOF, req_device = None\<rparr>,
      dc_files := demo_file_call\<lparr>fc_rnd := Some up_rnd, fc_body := body, fc_broken := broken\<rparr>\<rparr>"

definition up_create :: dm_call where
  "up_create = up_call ''POST'' ''/files/upload'' [(''Upload-Length'', FormatInt (int 3)),
     (''Upload-Metadata'', encode_metadata [(''filename'', ''/srv/g''), (''sha256'', [])])] [] False"

definition up_head :: dm_call where
  "up_head = up_call ''HEAD'' (upload_path (hex_encode up_rnd)) [] [] False"

definition up_piece :: dm_call where
  "up_piece = up_call ''PATCH'' (upload_path (hex_encode up_rnd)) [(''Upload-Offset'', FormatInt (int 0))] ''a'' True"

definition up_rest :: dm_call where
  "up_rest = up_call ''PATCH'' (upload_path (hex_encode up_rnd))
     [(''Upload-Offset'', FormatInt (int 1)), (''Content-Type'', ''application/offset+octet-stream'')] ''bc'' False"

definition up_get :: dm_call where "up_get = up_call ''GET'' ''/files/download'' [] [] False"

lemmas up_call_defs = up_create_def up_head_def up_piece_def up_rest_def up_get_def up_call_def site_call_def

lemma up_pairs:
  "c \<in> {up_create, up_head, up_piece, up_rest, up_get} \<Longrightarrow>
   device_pair (de_ed up_lib) ''d'' (replicate 32 (CHR 0x00)) site_challenge c"
  using site_calls(1,4)
  by (auto simp: device_pair_def signs_def up_call_defs up_lib_def site_lib_def site_challenge_def time_simps)

lemmas up_pair =
  up_pairs [of up_create, OF insertI1] up_pairs [of up_head, OF insertI2, OF insertI1]
  up_pairs [of up_piece, OF insertI2, OF insertI2, OF insertI1] up_pairs [of up_rest, OF insertI2, OF insertI2, OF insertI2, OF insertI1]
  up_pairs [of up_get, OF insertI2, OF insertI2, OF insertI2, OF insertI2, OF insertI1]

lemma up_calm: "c \<in> {up_create, up_head, up_piece, up_rest, up_get} \<Longrightarrow> calm c"
  by (auto simp: up_call_defs demo_file_call_def)

lemma up_at_place: "at_place up_place (demo_upload_fs [])" "names_place site_flags up_place"
proof -
  show "at_place up_place (demo_upload_fs [])" by (simp add: at_place_def up_place_def demo_dirs)
  have "Dir ''/d.db'' = ''/''" by code_simp
  moreover have "splitRoots ''/srv'' = [''/srv'']"
    using TrimSpace_printable [of "''/srv''"] by (simp add: splitRoots_def is_space_def)
  ultimately show "names_place site_flags up_place"
    by (simp add: names_place_def up_place_def site_flags_def abs_path_def)
qed

lemma up_flags: "checkFlags site_flags = None"
  using site_start [of site_db] by (auto simp: startDaemon_def split: option.splits)

lemma up_store: "place_store up_place = up_store demo_uploader"
  by (simp add: place_store_def up_place_def demo_uploader_def abs_path_def)

definition up_state :: uploadState where
  "up_state = \<lparr>us_ID = hex_encode up_rnd, us_Target = ''/srv/g'', us_Length = int (length ''abc''), us_Expected = []\<rparr>"

lemma up_codec: "ue_unmarshal (de_upload up_lib) (ue_marshal (de_upload up_lib) up_state) = Some up_state"
    "up_state = \<lparr>us_ID = hex_encode up_rnd, us_Target = ''/srv/g'', us_Length = int (length ''abc''),
      us_Expected = ue_lower (de_upload up_lib) []\<rparr>"
  by (simp_all add: up_state_def up_lib_def demo_upload_env_def)

lemma up_free: "node_at (demo_upload_fs []) ([''up''] @ [hex_encode up_rnd @ ''.part'']) = None"
    "node_at (demo_upload_fs []) ([''up''] @ [hex_encode up_rnd @ ''.json'']) = None"
proof -
  have ne: "hex_encode up_rnd \<noteq> ''u1''" using arg_cong [of "hex_encode up_rnd" "''u1''" length] by (auto simp: up_rnd_def)
  have "hex_encode up_rnd @ ''.part'' \<noteq> ''u1.part''" "hex_encode up_rnd @ ''.json'' \<noteq> ''u1.json''"
    using append_same_eq [of "hex_encode up_rnd" "''.part''" "''u1''"] append_same_eq [of "hex_encode up_rnd" "''.json''" "''u1''"] ne
    by (simp_all del: append_same_eq)
  moreover have "hex_encode up_rnd @ ''.part'' \<noteq> ''u1.json''" "hex_encode up_rnd @ ''.json'' \<noteq> ''u1.part''"
    using arg_cong [of _ _ last] by fastforce+
  ultimately show "node_at (demo_upload_fs []) ([''up''] @ [hex_encode up_rnd @ ''.part'']) = None"
    "node_at (demo_upload_fs []) ([''up''] @ [hex_encode up_rnd @ ''.json'']) = None"
    by (simp_all add: node_at_def demo_upload_fs_def)
qed

text \<open>The way of the witness: created, one piece cut off after a byte, a restart.\<close>

lemma up_way:
  obtains env0 d0 h env d where "startDaemon up_lib site_flags (site_host site_db) = Inr (env0, d0)"
    "knows d0 ''d'' (replicate 32 (CHR 0x00))"
    "transfer up_lib up_place ''d'' (replicate 32 (CHR 0x00)) (hex_encode up_rnd) ''abc'' (site_host site_db) env0
       (snd (exchange env0 d0 site_challenge up_create)) h env d"
    "resumes env d (hex_encode up_rnd) ''abc'' site_challenge up_head up_rest ''bc''"
proof -
  let ?uid = "hex_encode up_rnd" and ?pub = "replicate 32 (CHR 0x00)" and ?h0 = "site_host site_db"
  note pairs = up_pair(1-3)
  have h0: "ho_fs ?h0 = demo_upload_fs []" "\<not> ho_lock_fault ?h0" "ho_db ?h0 (pl_file up_place) = Some site_db" by (simp_all add: site_host_def)
  have place: "at_place up_place (ho_fs ?h0)" using up_at_place(1) by (simp add: h0)
  obtain env0 d0 where start: "startDaemon up_lib site_flags ?h0 = Inr (env0, d0)" "dm_db d0 = site_db"
    by (rule start_succeeds [OF up_flags up_at_place(2) place h0(2,3)])
  note s0 = start_at_place [OF start(1) up_at_place(2) place]
  have known: "knows d0 ''d'' ?pub" using site_device by (simp add: start(2))
  have place0: "at_place up_place (dm_files d0)" using place by (simp add: s0(2))
  have res: "Resolve (dm_files d0) (place_store up_place) ''/srv/g'' = Inr (abs_path ([''srv''] @ [''g'']))"
    using demo_resolve [of "[]"] by (simp add: s0(2) h0 up_store)
  have cr: "creates up_create ''/srv/g'' [] (length ''abc'')" by (simp add: creates_def up_call_defs)
  have rnd: "fc_rnd (dc_files up_create) = Some up_rnd" "length up_rnd = 12" by (simp_all add: up_call_defs up_rnd_def)
  obtain a fs where d1: "snd (exchange env0 d0 site_challenge up_create) = d0\<lparr>dm_auth := a, dm_files := fs\<rparr>"
    and un: "underway up_lib up_place ''d'' ?pub ?uid ''abc'' up_state fs env0 (d0\<lparr>dm_auth := a, dm_files := fs\<rparr>) []"
    by (rule creation [OF s0(1) known place0 pairs(1) cr rnd(1,2) up_calm refl _ _ _ _ _ _ res up_codec(2,1)])
      (use up_free in \<open>simp_all add: s0(2) h0 demo_nodes up_place_def\<close>)
  let ?d1 = "d0\<lparr>dm_auth := a, dm_files := fs\<rparr>"
  have r1: "resumes env0 ?d1 ?uid ''abc'' site_challenge up_head up_piece (drop (length ([] :: string)) ''abc'')"
    by (rule resumes_calm [OF un pairs(2)]) (simp_all add: up_calm, simp_all add: up_call_defs)
  define d2 where "d2 = snd (exchange env0 (snd (exchange env0 ?d1 site_challenge up_head)) site_challenge up_piece)"
  have piece: "prefix (fc_body (dc_files up_piece)) (drop (length ([] :: string)) ''abc'')"
    "fc_broken (dc_files up_piece) \<or> fc_body (dc_files up_piece) \<noteq> drop (length ([] :: string)) ''abc''"
    by (simp_all add: up_call_defs)
  have "calm up_piece \<and> req_header (dc_req up_piece) ''Content-Type'' = []"
    using up_calm by (simp add: up_call_defs demo_file_call_def)
  with underway_piece [OF un pairs(2,3) r1 piece]
  have un2: "underway up_lib up_place ''d'' ?pub ?uid ''abc'' up_state fs env0 d2 ''a''"
    by (simp add: d2_def) (simp add: up_call_defs)
  have "at_place up_place (ho_fs (shut_down ?h0 site_flags d2))" using un2 by (simp add: underway_def shut_down_def)
  then obtain env d where restart: "startDaemon up_lib site_flags (shut_down ?h0 site_flags d2) = Inr (env, d)"
    by (rule start_succeeds [OF up_flags up_at_place(2)]) (simp_all add: shut_down_def h0 up_place_def site_flags_def)
  have un3: "underway up_lib up_place ''d'' ?pub ?uid ''abc'' up_state fs env d ''a''"
    by (rule underway_restart [OF un2 restart up_at_place(2)])
  have way: "transfer up_lib up_place ''d'' ?pub ?uid ''abc'' ?h0 env0 (snd (exchange env0 d0 site_challenge up_create))
      (shut_down ?h0 site_flags d2) env d"
    unfolding d1
    by (rule transfer.restarted [OF transfer.piece [OF transfer.begun pairs(2,3) r1 piece, folded d2_def] restart up_at_place(2)])
  have "resumes env d ?uid ''abc'' site_challenge up_head up_rest (drop (length ''a'') ''abc'')"
    by (rule resumes_calm [OF un3 pairs(2)]) (simp_all add: up_calm, simp_all add: up_call_defs)
  then have "resumes env d ?uid ''abc'' site_challenge up_head up_rest ''bc''" by simp
  with start(1) known way show ?thesis by (rule that)
qed

theorem upload_survives_restarts_witness:
  "\<exists>env0 d0 h env d. startDaemon up_lib site_flags (site_host site_db) = Inr (env0, d0) \<and>
     header_value (fst (exchange env0 d0 site_challenge up_create)) ''Location'' = Some (upload_path (hex_encode up_rnd)) \<and>
     transfer up_lib up_place ''d'' (replicate 32 (CHR 0x00)) (hex_encode up_rnd) ''abc'' (site_host site_db) env0
       (snd (exchange env0 d0 site_challenge up_create)) h env d \<and>
     (let (resp, d') = exchange env (snd (exchange env d site_challenge up_head)) site_challenge up_rest in
        dr_status resp = StatusNoContent \<and>
        dr_body (fst (exchange env d' site_challenge up_get)) = FileReply (Content ''abc''))"
proof -
  let ?uid = "hex_encode up_rnd" and ?pub = "replicate 32 (CHR 0x00)" and ?h0 = "site_host site_db"
  note pairs = up_pair(1,2,4,5)
  obtain env0 d0 h env d where start: "startDaemon up_lib site_flags ?h0 = Inr (env0, d0)" "knows d0 ''d'' ?pub"
    and way: "transfer up_lib up_place ''d'' ?pub ?uid ''abc'' ?h0 env0 (snd (exchange env0 d0 site_challenge up_create)) h env d"
    and res: "resumes env d ?uid ''abc'' site_challenge up_head up_rest ''bc''"
    by (rule up_way)
  have h0: "ho_fs ?h0 = demo_upload_fs []" by (simp add: site_host_def)
  have place: "at_place up_place (ho_fs ?h0)" using up_at_place(1) by (simp add: h0)
  have cr: "creates up_create ''/srv/g'' [] (length ''abc'')" by (simp add: creates_def up_call_defs)
  have rnd: "fc_rnd (dc_files up_create) = Some up_rnd" "length up_rnd = 12" by (simp_all add: up_call_defs up_rnd_def)
  have body: "fc_body (dc_files up_rest) = ''bc''" "\<not> fc_broken (dc_files up_rest)"
    "req_header (dc_req up_rest) ''Content-Type'' = ''application/offset+octet-stream''" by (simp_all add: up_call_defs)
  have get: "fetches up_get ''/srv/g''" by (simp add: fetches_def up_call_defs)
  have "dr_status (fst (exchange env0 d0 site_challenge up_create)) = StatusCreated \<and>
     header_value (fst (exchange env0 d0 site_challenge up_create)) ''Location'' = Some (upload_path ?uid) \<and>
     (let (resp, d') = exchange env (snd (exchange env d site_challenge up_head)) site_challenge up_rest in
        dr_status resp = StatusNoContent \<and>
        header_value resp ''X-Checksum-SHA256'' = Some (hex_encode (ue_sha (de_upload up_lib) ''abc'')) \<and>
        dr_status (fst (exchange env d' site_challenge up_get)) = StatusOK \<and>
        dr_body (fst (exchange env d' site_challenge up_get)) = FileReply (Content ''abc''))"
  proof (rule upload_survives_restarts [OF start(1) up_at_place(2) place start(2) pairs(1) _ rnd(1,2) refl _ _ _ _ _ _ _ _ _ _ _ _ _ _ _ _
        up_codec(2,1) _ way pairs(2,3) _ body(2) _ body(3) pairs(4) get])
    show "creates up_create ''/srv/g'' [] (length ''abc'')" by (rule cr)
    show "candidate (place_store up_place) ''/srv/g'' = abs_path ([''srv''] @ [''g''])" by (simp only: up_store demo_target)
    show "resumes env d ?uid ''abc'' site_challenge up_head up_rest (fc_body (dc_files up_rest))" using res body(1) by simp
    show "us_Expected up_state = [] \<or> EqualFold (ue_fold (de_upload up_lib)) (hex_encode (ue_sha (de_upload up_lib) ''abc'')) (us_Expected up_state)"
      by (simp add: up_state_def)
  qed (use up_free in \<open>simp_all add: up_calm h0 demo_nodes demo_dirs up_place_def plain_elem_def\<close>,
      use up_store demo_inside in \<open>simp_all add: up_place_def\<close>)
  with start(1) way show ?thesis by (auto simp: Let_def case_prod_beta)
qed

end
