(* ===== verification/Spec2Isabelle.thy ===== *)
theory Spec2Isabelle
  imports Owner_Race Terminal_Race Daemon_Main Daemon_Upload
begin

text \<open>
  A model of the daemon \<^verbatim>\<open>claudecode-remoted\<close> (\<^verbatim>\<open>src/daemon\<close>), which keeps terminal sessions alive in
  tmux, shows them over HTTP and WebSocket, serves files from allowlisted directories, and lets only
  paired devices do either. The theories follow the packages of the program.

  \<^bold>\<open>The program and its parts.\<close> A request passes the middleware and the router of
  \<^verbatim>\<open>cmd/claudecode-remoted/main.go\<close>. \<^verbatim>\<open>identity\<close> pairs devices with three owner factors behind a rate
  limiter, authenticates them by signed challenges and gates sensitive actions by step-up grants;
  \<^verbatim>\<open>terminal\<close> keeps a session as a row of the database (\<^verbatim>\<open>db\<close>), a tmux session and a lock file
  (\<^verbatim>\<open>locks\<close>); \<^verbatim>\<open>files\<close> resolves paths below its roots and assembles resumable uploads.

  \<^bold>\<open>Shared theories.\<close>
  \<^item> Prelude: fixed-width integers, instants, maps with deletion and sweeping, requests, runs of a
    state machine, and the locale \<open>single_use\<close> of token stores. It is interpreted on WebSocket
    tickets (Tickets), step-up grants (StepUp) and device challenges (DeviceAuth).
  \<^item> Go_Strings, Go_Codec, Go_Path, Go_Net: what the daemon uses of strings, UTF-8 decoding, hex and
    base64, decimal integers, lexical paths and host-port pairs, written out with their round trips.
  \<^item> Go_FS: a file system with directories, files, symbolic links and unreadable names; resolution
    as \<^verbatim>\<open>filepath.EvalSymlinks\<close> and as the kernel does it, and the calls of package os.
  \<^item> Http_Mux: the request multiplexer of package net/http on escaped paths.
  \<^item> Interleaving: requests as threads that take turns on the shared state, as a step relation and as
    schedules; the locale \<open>obligations\<close> proves invariants of all interleavings and is interpreted on the
    terminal requests (Terminal_Race).

  \<^bold>\<open>Components\<close> (package file, theory, what is shown).
  \<^item> \<^verbatim>\<open>identity/ratelimit.go\<close>, RateLimit: counters, lockouts and the backoff. The limiter refines the
    history of failures and successes; the doubling loop equals a closed form; five guesses at most
    before a lockout.
  \<^item> \<^verbatim>\<open>identity/pairing.go\<close>, Pairing: one attempt with its factors; it completes only with every factor.
  \<^item> \<^verbatim>\<open>identity/password.go\<close>, \<^verbatim>\<open>totp.go\<close>, \<^verbatim>\<open>webauthn.go\<close>: Password, Totp, Webauthn: the three verifiers.
  \<^item> \<^verbatim>\<open>identity/owner.go\<close>, Owner (handlers), Owner_Chain (histories of requests: a paired device proved
    every factor, and the honest client succeeds), Owner_Limits (the lockout as seen from the answers).
  \<^item> \<^verbatim>\<open>identity/device.go\<close>, \<^verbatim>\<open>store.go\<close>, DeviceAuth: challenges, verification and the lookup of keys. Its
    locale \<open>device_lookup\<close> is interpreted on the real store.
  \<^item> \<^verbatim>\<open>identity/stepup.go\<close>, StepUp: grants by device and action.
  \<^item> \<^verbatim>\<open>db/db.go\<close>, Database: the two tables as lists of rows, every statement with its failures; the
    schema's constraints hold in every reachable database.
  \<^item> \<^verbatim>\<open>locks/locks.go\<close>, Locks: the lock files; the locale \<open>lock_service\<close> is interpreted on them.
  \<^item> \<^verbatim>\<open>terminal\<close>, Terminal (tmux, manager, routes, stream) and Terminal_Sessions (locks follow the open
    sessions, only a DELETE closes one, the stream is transparent).
  \<^item> \<^verbatim>\<open>files/store.go\<close>, Files_Store and Files_Confined (resolution ends and stays inside the roots;
    listings are complete and ordered). \<^verbatim>\<open>files/upload.go\<close>, Files_Upload, Files_Uploads (chunks and
    finishing: what is answered as stored has the declared hash, whatever fails) and Files_Delivery (a whole
    upload, racing requests, the copy that replaces a rename and what it leaves when it breaks off).
    \<^verbatim>\<open>files/http.go\<close>, Files_Http and Files_Requests (no run of requests leaves the roots).
  \<^item> \<^verbatim>\<open>setup_owner.go\<close> and the checks of \<^verbatim>\<open>main.go\<close>, Startup: the printed credentials are the accepted
    ones.
  \<^item> \<^verbatim>\<open>identity/middleware.go\<close> and \<^verbatim>\<open>main.go\<close>: Tickets; Router (middleware as handler transformers,
    the route table, \<open>newRouter\<close>, \<open>startDaemon\<close>); Router_Access, Daemon_Access and Daemon: over all runs
    of a started daemon, everything privileged goes back to a device signature; the list of devices changes only
    by such a request or by a pairing with every factor, and in a started daemon never; a new installation
    stays locked; revocation is unreachable.
    Daemon_Client: a paired device that follows the protocol is served, a ticket opens streams only, and what a
    stranger can do to a device's challenges. Daemon_Main: both modes of the program, and the way from the setup mode to the first
    accepted factor over the daemon's routes.
    Daemon_Kills: a terminal request that a kill of the daemon cuts off between two of its calls, run through
    the middleware (\<open>serve_killed\<close>); after the last call it is the served request.
    Daemon_Sessions: the relation \<open>lives\<close>, an installation through any number of starts, stops and
    kills on the same host, the starts restricted by a predicate (the same database and lock directory, \<open>same_place\<close>;
    directories that are apart, \<open>tended\<close>); locks follow the open sessions except for one session for each kill in the middle of
    a request, such an exception is never repaired, and only a signed DELETE ends a session.
    Daemon_Upload: exchanges of a paired device with the daemon and the relation \<open>transfer\<close>, the states in
    which an upload under way can be: after pieces that end early or whose connection breaks, after requests of others and
    after restarts. From any of them the device learns the offset, sends the rest and reads back the file.

  \<^bold>\<open>Concurrent requests.\<close> The handlers of one component run on one state in the theories above. Where
  the code leaves its critical section in the middle of a request, the request is also modelled as a
  thread with a step for each section, and run alone it is shown to be the sequential handler:
  \<^item> Terminal_Race: \<^verbatim>\<open>Create\<close> and \<^verbatim>\<open>Close\<close> of \<^verbatim>\<open>terminal/manager.go\<close> go through tmux, the database and the lock
    directory one call after the other. In every interleaving an open session is locked or about to be;
    a close in the middle of a creation leaves the lock of a closed session behind.
  \<^item> Owner_Race: a factor endpoint asks the limiter, checks under the owner's mutex and records the
    outcome; a completion consumes the attempt under the mutex and stores the device after it. In every
    interleaving an attempt is redeemed at most once; guesses sent at the same time escape the lockout.
  \<^item> Files_Delivery: \<open>patch_race\<close>, a chunk between the length check and \<^verbatim>\<open>Finish\<close>.

  \<^bold>\<open>What a host holds.\<close> The file system that the file routes and the uploads work on, the databases, the lock
  files and the tmux server are four stores of their own (\<open>host\<close> in Router). A database is kept under the text of its
  path, as \<^verbatim>\<open>--db\<close> gives it: two texts for one file count as two databases. Lock files are kept under their whole
  path, so daemons with different lock directories share the store. In the program all three lie in one file system, and file
  routes whose roots or upload directory reach the database or the lock directory could change them; this is outside the
  model. Daemon_Sessions states the condition under which it cannot happen (\<open>tended\<close>) and shows, in
  \<open>tended_untouched\<close>, that no request then changes any name at or below those paths, or that continues their text. The theorem on
  locks over the whole life has this condition among its hypotheses; the others on sessions and devices are to be read with it.
  It compares paths as texts, so symbolic links on the way to the database or the lock directory are excluded.

  \<^bold>\<open>State and time.\<close> A component's state is a record, an operation a function from the state to a
  result and the next state, an error a value of a sum or option type. Instants and Unix times are
  arguments. Whatever a call draws from its environment (random bytes, failures of the database, of
  the lock directory, of the file system, the messages of a WebSocket client) is a field of the call's
  record, so the theorems hold for all of them. Machine integers wrap around where the code's do
  (\<open>int64\<close>, 16-bit terminal sizes as words).

  \<^bold>\<open>Bounds and fuel.\<close> \<open>walk\<close> counts the symbolic links followed: 255 in \<^verbatim>\<open>EvalSymlinks\<close> and 40 in the
  kernel, the limits of Go and of Linux, beyond which both fail. The search of \<^verbatim>\<open>resolveExisting\<close> has
  no fuel: it is a partial function whose non-termination would be \<open>None\<close>, and \<open>Resolve_returns\<close> shows
  that this never happens. Everything else is structural or total.

  \<^bold>\<open>Parameters.\<close> Argon2, SHA-256, Ed25519, the TOTP and the WebAuthn libraries, the JSON encoding of
  the upload state, \<^verbatim>\<open>%q\<close> of package fmt, Unicode case folding, the tmux program and the
  file server of the test client are arguments of the definitions that use them. What a theorem needs
  of one is among its hypotheses.

  \<^bold>\<open>Not modelled.\<close>
  \<^item> Interleavings finer than the critical sections: a database statement, a call of tmux, an access to
    the lock directory and what runs under one mutex are atomic, and so are the routes that touch no
    lock and no session's status. A request has one instant. Changes of the file system by other
    programs between the resolution of a path and its use are outside.
  \<^item> The SQLite engine: a statement succeeds, violates a constraint or fails as a whole, and the order
    of a sorted query is an argument with the law that it permutes the rows.
  \<^item> Failures of \<^verbatim>\<open>Stat\<close> and \<^verbatim>\<open>Seek\<close> on the part file that \<^verbatim>\<open>WriteChunk\<close> has just opened, and the decoding of
    multi-byte spaces between the fields of a password hash, which the model skips byte by byte.
  \<^item> The WebSocket library: its handshake, the messages read and the number of sends that succeed.
  \<^item> A kill of the daemon in the middle of several requests at the same time, or in the middle of a route that
    touches neither sessions nor locks. What a kill leaves of a chunk is a shorter part file, which is the piece
    that ends early of Daemon_Upload; a kill while a finished upload is moved into place is outside.
  \<^item> Log output, the HTTP server's connections and timeouts, the test hooks \<^verbatim>\<open>SetClock\<close>, the content
    types and the text of most error messages of the file and terminal routes, the verification that is
    made only to spend time on unknown devices.
  \<^item> The Flutter application, the provisioning scripts, the web page of the test client: not Go.
\<close>

end
